(* ===== verification/Prelude.thy ===== *)
theory Prelude
  imports Main "HOL-Library.AList" "HOL-Library.Sublist" "HOL-Library.Char_ord" "HOL-Library.List_Lexorder"
begin

text \<open>
  Shared vocabulary of the development: the theorem collection that the examples use, the
  combinators that the loops of the Go code are written with, tables updated by an SQL-like
  UPDATE, and a few facts on lists.

  An operation that may change the state is a function from the state to a result and the next
  state.  A Go function that returns an error only is modelled with result type \<open>'e option\<close>
  (\<open>None\<close> is Go's \<open>nil\<close>), one that returns a value or an error with the sum \<open>'e + 'a\<close>.
\<close>

named_theorems run \<open>evaluation of the program in the simulated world\<close>

type_synonym ('s, 'a) op = "'s \<Rightarrow> 'a \<times> 's"

section \<open>Frames\<close>

definition keeps :: "('s \<Rightarrow> 'v) \<Rightarrow> ('s, 'a) op \<Rightarrow> bool" where
  "keeps view m \<longleftrightarrow> (\<forall>s. view (snd (m s)) = view s)"

lemma keepsI: "(\<And>s. view (snd (m s)) = view s) \<Longrightarrow> keeps view m"
  by (simp add: keeps_def)

lemma keepsD: "keeps view m \<Longrightarrow> m s = (r, t) \<Longrightarrow> view t = view s"
  by (metis keeps_def snd_conv)

definition preserves :: "('s \<Rightarrow> bool) \<Rightarrow> ('s, 'a) op \<Rightarrow> bool" where
  "preserves I m \<longleftrightarrow> (\<forall>s. I s \<longrightarrow> I (snd (m s)))"

lemma preservesI: "(\<And>s r t. I s \<Longrightarrow> m s = (r, t) \<Longrightarrow> I t) \<Longrightarrow> preserves I m"
  by (simp add: preserves_def) (metis prod.collapse)

lemma preservesD: "preserves I m \<Longrightarrow> I s \<Longrightarrow> m s = (r, t) \<Longrightarrow> I t"
  by (metis preserves_def snd_conv)

section \<open>Loops\<close>

text \<open>A loop that returns at the first error: \<open>for _, x := range xs { if err := f(x); err != nil { return err } }\<close>.\<close>

fun for_err :: "('a \<Rightarrow> ('s, 'e option) op) \<Rightarrow> 'a list \<Rightarrow> ('s, 'e option) op" where
  "for_err f [] s = (None, s)"
| "for_err f (x # xs) s =
     (case f x s of
        (Some e, s') \<Rightarrow> (Some e, s')
      | (None, s') \<Rightarrow> for_err f xs s')"

text \<open>A loop that goes on after an error and returns the first one.\<close>

fun for_first :: "('a \<Rightarrow> ('s, 'e option) op) \<Rightarrow> 'a list \<Rightarrow> 'e option \<Rightarrow> ('s, 'e option) op" where
  "for_first f [] first s = (first, s)"
| "for_first f (x # xs) first s =
     (case f x s of (r, s') \<Rightarrow> for_first f xs (if first = None then r else first) s')"

lemma for_err_preserves:
  assumes "\<And>x. x \<in> set xs \<Longrightarrow> preserves I (f x)"
  shows "preserves I (for_err f xs)"
proof -
  have "I s \<Longrightarrow> I (snd (for_err f xs s))" for s
    using assms
  proof (induction xs arbitrary: s)
    case (Cons x xs)
    obtain r t where f: "f x s = (r, t)" by fastforce
    have "I t" using Cons.prems f by (auto intro: preservesD)
    then show ?case using Cons f by (cases r) auto
  qed simp
  then show ?thesis by (simp add: preserves_def)
qed

lemma for_first_preserves:
  assumes "\<And>x. x \<in> set xs \<Longrightarrow> preserves I (f x)"
  shows "preserves I (for_first f xs first)"
proof -
  have "I s \<Longrightarrow> I (snd (for_first f xs first s))" for s first
    using assms
  proof (induction xs arbitrary: s first)
    case (Cons x xs)
    obtain r t where f: "f x s = (r, t)" by fastforce
    have "I t" using Cons.prems f by (auto intro: preservesD)
    then show ?case using Cons f by simp
  qed simp
  then show ?thesis by (simp add: preserves_def)
qed

lemma for_first_Some: "fst (for_first f xs (Some e) s) = Some e"
  by (induction xs arbitrary: s) (auto split: prod.splits)

text \<open>A loop whose body never fails on the states it reaches does not fail.\<close>

lemma for_first_None:
  assumes "for_first f xs None s = (r, t)" "I s"
    "\<And>x s r t. x \<in> set xs \<Longrightarrow> I s \<Longrightarrow> f x s = (r, t) \<Longrightarrow> r = None \<and> I t"
  shows "r = None \<and> I t"
  using assms
proof (induction xs arbitrary: s)
  case (Cons x xs)
  obtain r1 s1 where f: "f x s = (r1, s1)" by fastforce
  then have 1: "r1 = None" "I s1" using Cons.prems(3) [OF _ Cons.prems(2) f] by simp_all
  then have "for_first f xs None s1 = (r, t)" using Cons.prems(1) f by simp
  then show ?case by (rule Cons.IH [OF _ 1(2)]) (rule Cons.prems(3), simp_all)
qed simp

section \<open>Tables\<close>

text \<open>\<open>UPDATE .. SET f WHERE p\<close> on a table kept as the list of its rows.\<close>

definition update_where :: "('a \<Rightarrow> bool) \<Rightarrow> ('a \<Rightarrow> 'a) \<Rightarrow> 'a list \<Rightarrow> 'a list" where
  "update_where p f = map (\<lambda>r. if p r then f r else r)"

lemma update_where_simps [simp]:
  "update_where p f [] = []"
  "update_where p f (r # rs) = (if p r then f r else r) # update_where p f rs"
  "length (update_where p f rs) = length rs"
  by (simp_all add: update_where_def)

lemma set_update_where: "set (update_where p f rs) = (\<lambda>r. if p r then f r else r) ` set rs"
  by (simp add: update_where_def)

lemma map_update_where:
  "(\<And>r. r \<in> set rs \<Longrightarrow> p r \<Longrightarrow> g (f r) = g r) \<Longrightarrow> map g (update_where p f rs) = map g rs"
  by (induction rs) auto

lemma update_where_none: "(\<And>r. r \<in> set rs \<Longrightarrow> \<not> p r) \<Longrightarrow> update_where p f rs = rs"
  by (induction rs) auto

lemma distinct_map_filter_single:
  assumes "distinct (map k rs)" "r \<in> set rs"
  shows "filter (\<lambda>x. k x = k r) rs = [r]"
  using assms
proof (induction rs)
  case (Cons x xs)
  show ?case
  proof (cases "r = x")
    case True
    with Cons.prems(1) have "filter (\<lambda>y. k y = k r) xs = []"
      by (auto simp: filter_empty_conv image_iff)
    with True show ?thesis by simp
  next
    case False
    with Cons.prems have "r \<in> set xs" "k x \<noteq> k r" by (auto simp: image_iff)
    with Cons show ?thesis by simp
  qed
qed simp

lemma filter_by_key:
  assumes "distinct (map k rs)"
  shows "filter (\<lambda>r. k r = i \<and> p r) rs
       = (case find (\<lambda>r. k r = i \<and> p r) rs of None \<Rightarrow> [] | Some r \<Rightarrow> [r])"
proof (cases "find (\<lambda>r. k r = i \<and> p r) rs")
  case None
  then have "filter (\<lambda>r. k r = i \<and> p r) rs = []"
    unfolding find_None_iff filter_empty_conv by blast
  with None show ?thesis by simp
next
  case (Some r)
  then have r: "r \<in> set rs" "k r = i" "p r"
    by (auto simp: find_Some_iff)
  have "filter (\<lambda>r. k r = i \<and> p r) rs = filter p (filter (\<lambda>x. k x = k r) rs)"
    using r(2) by (simp add: conj_commute)
  also have "\<dots> = [r]" using distinct_map_filter_single [OF assms r(1)] r(3) by simp
  finally show ?thesis using Some by simp
qed

section \<open>Lists\<close>

lemma hd_sort_key_min:
  "x \<in> set xs \<Longrightarrow> f (hd (sort_key f xs)) \<le> f x"
proof -
  assume x: "x \<in> set xs"
  then have "x \<in> set (sort_key f xs)" by simp
  moreover have "sorted (map f (sort_key f xs))" by simp
  ultimately show ?thesis
    by (cases "sort_key f xs") auto
qed

lemma take_sort_key_le:
  assumes "x \<in> set (take n (sort_key f xs))" "y \<in> set (drop n (sort_key f xs))"
  shows "f x \<le> f y"
proof -
  have "sorted (map f (take n (sort_key f xs) @ drop n (sort_key f xs)))" by simp
  then have "sorted (map f (take n (sort_key f xs)) @ map f (drop n (sort_key f xs)))"
    by (simp only: map_append)
  then show ?thesis using assms unfolding sorted_append by auto
qed

end
