(* ===== verification/Go_Strings.thy ===== *)
theory Go_Strings
  imports Prelude
begin

text \<open>
  Go's strings and byte slices.  A Go string is a sequence of bytes, as a HOL \<open>string\<close> is (a
  \<open>char\<close> is a byte), so \<open>string\<close> stands for both \<open>string\<close> and \<open>[]byte\<close>.  What the program uses
  of packages \<open>unicode/utf8\<close>, \<open>unicode\<close>, \<open>strings\<close> and \<open>path/filepath\<close> is defined here: the
  UTF-8 decoder with its treatment of malformed input, the loop over runes, \<open>IsControl\<close>,
  \<open>IsSpace\<close>, \<open>TrimSpace\<close>, \<open>TrimRight\<close>, \<open>ToLower\<close> (on the runes that matter for a comparison
  with ASCII text), \<open>ReplaceAll\<close> of a single byte and \<open>filepath.Base\<close> on Unix.
  The lemmas give the round trip of the encoding and the laws of \<open>TrimSpace\<close>.
\<close>

section \<open>UTF-8\<close>

definition in_rng :: "nat \<Rightarrow> nat \<Rightarrow> nat \<Rightarrow> bool" where "in_rng lo hi x \<longleftrightarrow> lo \<le> x \<and> x \<le> hi"
definition RuneError :: nat where "RuneError = 65533"

definition seq2 :: "nat \<Rightarrow> nat \<Rightarrow> bool" where
  "seq2 b0 b1 \<longleftrightarrow> in_rng 194 223 b0 \<and> in_rng 128 191 b1"
definition seq3 :: "nat \<Rightarrow> nat \<Rightarrow> nat \<Rightarrow> bool" where
  "seq3 b0 b1 b2 \<longleftrightarrow> in_rng 224 239 b0
     \<and> in_rng (if b0 = 224 then 160 else 128) (if b0 = 237 then 159 else 191) b1 \<and> in_rng 128 191 b2"
definition seq4 :: "nat \<Rightarrow> nat \<Rightarrow> nat \<Rightarrow> nat \<Rightarrow> bool" where
  "seq4 b0 b1 b2 b3 \<longleftrightarrow> in_rng 240 244 b0
     \<and> in_rng (if b0 = 240 then 144 else 128) (if b0 = 244 then 143 else 191) b1
     \<and> in_rng 128 191 b2 \<and> in_rng 128 191 b3"

fun decode_bytes :: "nat list \<Rightarrow> nat \<times> nat" where
  "decode_bytes [] = (RuneError, 0)"
| "decode_bytes (b0 # bs) =
    (if b0 < 128 then (b0, 1)
     else case bs of
       b1 # b2 # b3 # _ \<Rightarrow>
         if seq2 b0 b1 then ((b0 - 192) * 64 + (b1 - 128), 2)
         else if seq3 b0 b1 b2 then (((b0 - 224) * 64 + (b1 - 128)) * 64 + (b2 - 128), 3)
         else if seq4 b0 b1 b2 b3
           then ((((b0 - 240) * 64 + (b1 - 128)) * 64 + (b2 - 128)) * 64 + (b3 - 128), 4)
         else (RuneError, 1)
     | [b1, b2] \<Rightarrow>
         if seq2 b0 b1 then ((b0 - 192) * 64 + (b1 - 128), 2)
         else if seq3 b0 b1 b2 then (((b0 - 224) * 64 + (b1 - 128)) * 64 + (b2 - 128), 3)
         else (RuneError, 1)
     | [b1] \<Rightarrow> if seq2 b0 b1 then ((b0 - 192) * 64 + (b1 - 128), 2) else (RuneError, 1)
     | [] \<Rightarrow> (RuneError, 1))"

definition valid_rune :: "nat \<Rightarrow> bool" where
  "valid_rune r \<longleftrightarrow> r < 55296 \<or> (57344 \<le> r \<and> r < 1114112)"

definition encode_bytes :: "nat \<Rightarrow> nat list" where
  "encode_bytes r0 = (let r = (if valid_rune r0 then r0 else RuneError) in
     if r < 128 then [r]
     else if r < 2048 then [192 + r div 64, 128 + r mod 64]
     else if r < 65536 then [224 + r div 64 div 64, 128 + r div 64 mod 64, 128 + r mod 64]
     else [240 + r div 64 div 64 div 64, 128 + r div 64 div 64 mod 64, 128 + r div 64 mod 64, 128 + r mod 64])"

lemma base64_digits:
  "c < 64 \<Longrightarrow> (a * 64 + c) div 64 = (a::nat)"
  "c < 64 \<Longrightarrow> (a * 64 + c) mod 64 = (c::nat)"
  by auto

lemma encode_1: "c < 128 \<Longrightarrow> encode_bytes c = [c]"
  by (simp add: encode_bytes_def valid_rune_def)

lemma encode_2: assumes "2 \<le> a" "a < 32" "c < 64"
  shows "valid_rune (a * 64 + c)" "encode_bytes (a * 64 + c) = [192 + a, 128 + c]"
proof -
  show v: "valid_rune (a * 64 + c)" using assms unfolding valid_rune_def by linarith
  have "\<not> a * 64 + c < 128" "a * 64 + c < 2048" using assms by linarith+
  with v show "encode_bytes (a * 64 + c) = [192 + a, 128 + c]"
    unfolding encode_bytes_def by (simp only: Let_def if_True if_False base64_digits assms)
qed

lemma encode_3: assumes "a < 16" "b < 64" "c < 64" "a \<noteq> 0 \<or> 32 \<le> b" "a \<noteq> 13 \<or> b < 32"
  shows "valid_rune ((a * 64 + b) * 64 + c)"
    "encode_bytes ((a * 64 + b) * 64 + c) = [224 + a, 128 + b, 128 + c]"
proof -
  let ?r = "(a * 64 + b) * 64 + c"
  have lin: "?r = a * 4096 + b * 64 + c" by simp
  have "?r < 55296 \<or> 57344 \<le> ?r"
  proof (cases "a < 13")
    case True then show ?thesis using assms(2,3) unfolding lin by linarith
  next
    case False
    then have "a = 13 \<and> b < 32 \<or> 14 \<le> a" using assms(5) by auto
    then show ?thesis using assms(3) unfolding lin by (elim disjE conjE) (hypsubst, linarith, linarith)
  qed
  moreover have hi: "?r < 65536" using assms(1-3) unfolding lin by linarith
  ultimately show v: "valid_rune ?r" unfolding valid_rune_def by linarith
  have "2048 \<le> ?r" using assms(4) unfolding lin by (elim disjE) linarith+
  then have "\<not> ?r < 128" "\<not> ?r < 2048" by linarith+
  moreover note hi
  ultimately show "encode_bytes ?r = [224 + a, 128 + b, 128 + c]"
    using v unfolding encode_bytes_def by (simp only: Let_def if_True if_False base64_digits assms)
qed
lemma encode_4: assumes "h < 5" "a < 64" "b < 64" "c < 64" "h \<noteq> 0 \<or> 16 \<le> a" "h \<noteq> 4 \<or> a < 16"
  shows "valid_rune (((h * 64 + a) * 64 + b) * 64 + c)"
    "encode_bytes (((h * 64 + a) * 64 + b) * 64 + c) = [240 + h, 128 + a, 128 + b, 128 + c]"
proof -
  let ?r = "((h * 64 + a) * 64 + b) * 64 + c"
  have lin: "?r = h * 262144 + a * 4096 + b * 64 + c" by simp
  have lo: "65536 \<le> ?r" using assms(5) unfolding lin by (elim disjE) linarith+
  moreover have "?r < 1114112"
  proof (cases "h = 4")
    case True then show ?thesis using assms unfolding lin by simp
  next
    case False then have "h < 4" using assms(1) by linarith
    then show ?thesis using assms(2-4) unfolding lin by linarith
  qed
  ultimately show v: "valid_rune ?r" unfolding valid_rune_def by linarith
  have "\<not> ?r < 128" "\<not> ?r < 2048" "\<not> ?r < 65536" using lo by linarith+
  then show "encode_bytes ?r = [240 + h, 128 + a, 128 + b, 128 + c]"
    using v unfolding encode_bytes_def by (simp only: Let_def if_True if_False base64_digits assms)
qed

lemma valid_rune_cases:
  assumes "valid_rune r"
  obtains (one) "r < 128"
  | (two) a c where "r = a * 64 + c" "2 \<le> a" "a < 32" "c < 64"
  | (three) a b c where "r = (a * 64 + b) * 64 + c" "a < 16" "b < 64" "c < 64" "a \<noteq> 0 \<or> 32 \<le> b" "a \<noteq> 13 \<or> b < 32"
  | (four) h a b c where "r = ((h * 64 + a) * 64 + b) * 64 + c" "h < 5" "a < 64" "b < 64" "c < 64"
      "h \<noteq> 0 \<or> 16 \<le> a" "h \<noteq> 4 \<or> a < 16"
proof -
  define c b a h where "c = r mod 64" and "b = r div 64 mod 64" and "a = r div 64 div 64 mod 64"
    and "h = r div 64 div 64 div 64"
  have lt: "c < 64" "b < 64" "a < 64" unfolding c_def b_def a_def by simp_all
  have r: "r = ((h * 64 + a) * 64 + b) * 64 + c"
    unfolding c_def b_def a_def h_def by simp
  then have r: "r = h * 262144 + a * 4096 + b * 64 + c" by simp
  consider "r < 128" | "128 \<le> r" "r < 2048" | "2048 \<le> r" "r < 65536" | "65536 \<le> r" by linarith
  then show thesis
  proof cases
    case 1 then show ?thesis by (rule one)
  next
    case 2
    have "h = 0" using 2 r by linarith
    moreover have "a = 0" using 2 r by linarith
    ultimately have "h = 0" "a = 0" by blast+
    then show ?thesis
    proof -
      have "2 \<le> b" "b < 32" using 2 r lt \<open>h = 0\<close> \<open>a = 0\<close> by linarith+
      then show ?thesis using two [of b c] r lt \<open>h = 0\<close> \<open>a = 0\<close> by simp
    qed
  next
    case 3
    then have h: "h = 0" using r by linarith
    have "a \<noteq> 0 \<or> 32 \<le> b" using 3 r h lt by linarith
    moreover have "a \<noteq> 13 \<or> b < 32" using assms r h lt unfolding valid_rune_def by linarith
    moreover have "a < 16" using 3 r h by linarith
    ultimately show ?thesis using three [of a b c] r h lt by simp
  next
    case 4
    have "r < 1114112" using assms 4 unfolding valid_rune_def by linarith
    then have "h < 5" "h \<noteq> 0 \<or> 16 \<le> a" "h \<noteq> 4 \<or> a < 16" using 4 r lt by linarith+
    then show ?thesis using four [of h a b c] r lt by simp
  qed
qed

lemmas seq_defs = seq2_def seq3_def seq4_def in_rng_def

lemma decode_encode:
  assumes "valid_rune r"
  shows "decode_bytes (encode_bytes r @ bs) = (r, length (encode_bytes r))"
  using assms
proof (cases rule: valid_rune_cases)
  case one then show ?thesis by (simp add: encode_1)
next
  case (two a c) 
  then show ?thesis unfolding two(1) encode_2(2) [OF two(2-4)] by (simp add: seq_defs split: list.split)
next
  case (three a b c)
  then show ?thesis unfolding three(1) encode_3(2) [OF three(2-6)] by (auto simp add: seq_defs split: list.split)
next
  case (four h a b c)
  then show ?thesis unfolding four(1) encode_4(2) [OF four(2-7)] by (auto simp add: seq_defs split: list.split)
qed

lemma decode_cases:
  obtains (nil) "bs = []" 
  | (bad) "decode_bytes bs = (RuneError, 1)" "bs \<noteq> []"
  | (good) r rest where "valid_rune r" "bs = encode_bytes r @ rest" 
proof (cases bs)
  case (Cons b0 bs')
  note outer = Cons
  show thesis
  proof (cases "decode_bytes bs = (RuneError, 1)")
    case True then show ?thesis using Cons bad by simp
  next
    case False
    then consider "b0 < 128" | b1 rest where "bs' = b1 # rest" "seq2 b0 b1" | b1 b2 rest where "bs' = b1 # b2 # rest" "seq3 b0 b1 b2"
     | b1 b2 b3 rest where "bs' = b1 # b2 # b3 # rest" "seq4 b0 b1 b2 b3"
      unfolding Cons by (auto split: list.splits if_splits)
    then show ?thesis
    proof cases
      case 1 then show ?thesis using outer good [of b0 bs'] encode_1 [of b0] by (simp add: valid_rune_def)
    next
      case 2
      then have "2 \<le> b0 - 192" "b0 - 192 < 32" "b1 - 128 < 64" "192 + (b0 - 192) = b0" "128 + (b1 - 128) = b1" by (auto simp: seq_defs)
      then show ?thesis using good encode_2 [of "b0 - 192" "b1 - 128"] outer 2 by (metis append_Cons append_Nil)
    next
      case 3
      then have "b0 - 224 < 16" "b1 - 128 < 64" "b2 - 128 < 64" "b0 - 224 \<noteq> 0 \<or> 32 \<le> b1 - 128" "b0 - 224 \<noteq> 13 \<or> b1 - 128 < 32"
        and e: "224 + (b0 - 224) = b0" "128 + (b1 - 128) = b1" "128 + (b2 - 128) = b2" by (auto simp: seq_defs split: if_splits)
      note E = encode_3 [OF this(1-5)]
      show ?thesis by (rule good [OF E(1), of rest], unfold E(2) e) (simp add: outer 3)
    next
      case 4
      then have "b0 - 240 < 5" "b1 - 128 < 64" "b2 - 128 < 64" "b3 - 128 < 64" "b0 - 240 \<noteq> 0 \<or> 16 \<le> b1 - 128" "b0 - 240 \<noteq> 4 \<or> b1 - 128 < 16"
        and e: "240 + (b0 - 240) = b0" "128 + (b1 - 128) = b1" "128 + (b2 - 128) = b2" "128 + (b3 - 128) = b3" by (auto simp: seq_defs split: if_splits)
      note E = encode_4 [OF this(1-6)]
      show ?thesis by (rule good [OF E(1), of rest], unfold E(2) e) (simp add: outer 4)
    qed
  qed
qed (rule nil)

declare decode_bytes.simps(2) [simp del]

lemma decode_good: "valid_rune r \<Longrightarrow> fst (decode_bytes (encode_bytes r @ bs)) = r"
  by (simp add: decode_encode)

lemma decode_valid: "valid_rune (fst (decode_bytes bs))"
  by (cases rule: decode_cases [of bs]) (simp_all add: decode_good, simp_all add: valid_rune_def RuneError_def)

lemma encode_bytes_byte: "b \<in> set (encode_bytes r) \<Longrightarrow> b < 256"
proof -
  assume b: "b \<in> set (encode_bytes r)"
  have e: "encode_bytes r = encode_bytes (if valid_rune r then r else RuneError)"
    by (simp add: encode_bytes_def valid_rune_def RuneError_def)
  have "valid_rune (if valid_rune r then r else RuneError)"
    by (simp add: valid_rune_def RuneError_def)
  then show "b < 256"
    using b unfolding e
  proof (cases rule: valid_rune_cases)
    case one
    with b show ?thesis unfolding e by (simp add: encode_1)
  next
    case (two a c)
    with b show ?thesis unfolding e two(1) encode_2(2) [OF two(2-4)] by auto
  next
    case (three a b' c)
    with b show ?thesis unfolding e three(1) encode_3(2) [OF three(2-6)] by auto
  next
    case (four h a b' c)
    with b show ?thesis unfolding e four(1) encode_4(2) [OF four(2-7)] by auto
  qed
qed

definition decode_rune :: "string \<Rightarrow> nat \<times> nat" where
  "decode_rune s = decode_bytes (map of_char s)"

definition encode_rune :: "nat \<Rightarrow> string" where
  "encode_rune r = map char_of (encode_bytes r)"

lemma of_char_encode_rune [simp]: "map of_char (encode_rune r) = encode_bytes r"
  unfolding encode_rune_def by (simp add: comp_def) (rule map_idI, simp add: encode_bytes_byte)

lemma encode_rune_not_Nil [simp]: "encode_rune r \<noteq> []"
  by (simp add: encode_rune_def encode_bytes_def Let_def)

lemma decode_encode_rune: "valid_rune r \<Longrightarrow> decode_rune (encode_rune r @ s) = (r, length (encode_rune r))"
  by (simp add: decode_rune_def decode_encode) (simp add: encode_rune_def)

text \<open>\<open>for _, r := range s\<close>: the runes of a string; a malformed byte yields \<open>RuneError\<close>.\<close>

function runes :: "string \<Rightarrow> nat list" where
  "runes [] = []"
| "runes (c # cs) = (let (r, n) = decode_rune (c # cs) in r # runes (drop (n - 1) cs))"
  by pat_completeness auto
termination
  by (relation "measure length") (auto simp: less_Suc_eq_le)

definition utf8 :: "nat list \<Rightarrow> string" where
  "utf8 rs = concat (map encode_rune rs)"

text \<open>Malformed bytes replaced by U+FFFD, as \<open>encoding/json\<close> and \<open>strings.Map\<close> do.\<close>

definition to_valid_utf8 :: "string \<Rightarrow> string" where
  "to_valid_utf8 s = utf8 (runes s)"

definition valid_utf8 :: "string \<Rightarrow> bool" where
  "valid_utf8 s \<longleftrightarrow> to_valid_utf8 s = s"

lemma runes_encode_rune [simp]:
  assumes "valid_rune r"
  shows "runes (encode_rune r @ s) = r # runes s"
proof -
  obtain c cs where e: "encode_rune r = c # cs" by (cases "encode_rune r") auto
  have "decode_rune (c # (cs @ s)) = (r, Suc (length cs))"
    using decode_encode_rune [OF assms, of s] unfolding e by simp
  then show ?thesis unfolding e by simp
qed

lemma runes_valid: "r \<in> set (runes s) \<Longrightarrow> valid_rune r"
proof (induction s rule: runes.induct)
  case (2 c cs)
  obtain r' n where d: "decode_rune (c # cs) = (r', n)" by fastforce
  then have "valid_rune r'"
    using decode_valid [of "map of_char (c # cs)"] by (simp add: decode_rune_def)
  then show ?case using 2 d by auto
qed simp

lemma runes_utf8: "(\<And>r. r \<in> set rs \<Longrightarrow> valid_rune r) \<Longrightarrow> runes (utf8 rs) = rs"
  by (induction rs) (auto simp: utf8_def)

lemma runes_to_valid_utf8 [simp]: "runes (to_valid_utf8 s) = runes s"
  unfolding to_valid_utf8_def by (rule runes_utf8) (rule runes_valid)

lemma valid_to_valid_utf8 [simp]: "valid_utf8 (to_valid_utf8 s)"
  by (simp add: valid_utf8_def to_valid_utf8_def [of "to_valid_utf8 s"]) (simp add: to_valid_utf8_def)

lemma valid_utf8_eqI: "valid_utf8 s \<Longrightarrow> valid_utf8 t \<Longrightarrow> runes s = runes t \<Longrightarrow> s = t"
  by (metis to_valid_utf8_def valid_utf8_def)

lemma valid_utf8_utf8: "(\<And>r. r \<in> set rs \<Longrightarrow> valid_rune r) \<Longrightarrow> valid_utf8 (utf8 rs)"
  by (simp add: valid_utf8_def to_valid_utf8_def runes_utf8)

definition ascii :: "string \<Rightarrow> bool" where
  "ascii s \<longleftrightarrow> list_all (\<lambda>c. of_char c < (128::nat)) s"

lemma ascii_simps [simp]: "ascii []" "ascii (c # s) \<longleftrightarrow> of_char c < (128 :: nat) \<and> ascii s"
  by (simp_all add: ascii_def)

lemma decode_rune_ascii: "of_char c < (128::nat) \<Longrightarrow> decode_rune (c # cs) = (of_char c, 1)"
  by (simp add: decode_rune_def decode_bytes.simps)

lemma runes_ascii: "ascii s \<Longrightarrow> runes s = map of_char s"
  by (induction s) (auto simp: ascii_def decode_rune_ascii)

lemma valid_utf8_ascii: "ascii s \<Longrightarrow> valid_utf8 s"
  by (induction s) (auto simp: ascii_def valid_utf8_def to_valid_utf8_def utf8_def
      decode_rune_ascii encode_rune_def encode_1)

lemma to_valid_utf8_ascii [simp]: "ascii s \<Longrightarrow> to_valid_utf8 s = s"
  using valid_utf8_ascii valid_utf8_def by blast

lemma ascii_append [simp]: "ascii (s @ t) \<longleftrightarrow> ascii s \<and> ascii t"
  by (simp add: ascii_def)

section \<open>Package unicode\<close>

text \<open>\<open>unicode.IsControl\<close>: category Cc.\<close>

definition IsControl :: "nat \<Rightarrow> bool" where
  "IsControl r \<longleftrightarrow> r < 32 \<or> (127 \<le> r \<and> r < 160)"

text \<open>\<open>unicode.IsSpace\<close>: Unicode's White_Space property.\<close>

definition space_runes :: "nat list" where
  "space_runes = [9, 10, 11, 12, 13, 32, 133, 160, 5760, 8192, 8193, 8194, 8195, 8196, 8197, 8198,
     8199, 8200, 8201, 8202, 8232, 8233, 8239, 8287, 12288]"

definition IsSpace :: "nat \<Rightarrow> bool" where
  "IsSpace r \<longleftrightarrow> r \<in> set space_runes"

text \<open>
  \<open>unicode.ToLower\<close>.  Beside the ASCII letters, two runes have an ASCII lower case: U+0130 and the
  Kelvin sign.  Every other rune is mapped to a rune outside ASCII, and every use of
  \<open>strings.ToLower\<close> in the program compares the result with ASCII literals, so the rest of
  Unicode's case table is left out: those runes stay as they are.
\<close>

definition rune_lower :: "nat \<Rightarrow> nat" where
  "rune_lower r =
    (if 65 \<le> r \<and> r \<le> 90 then r + 32
     else if r = 304 then 105
     else if r = 8490 then 107
     else r)"

definition ToLower :: "string \<Rightarrow> string" where
  "ToLower s = utf8 (map rune_lower (runes s))"

lemma ToLower_Nil [simp]: "ToLower [] = []"
  by (simp add: ToLower_def utf8_def)

definition no_upper :: "string \<Rightarrow> bool" where
  "no_upper s \<longleftrightarrow> list_all (\<lambda>c. \<not> (65 \<le> (of_char c :: nat) \<and> (of_char c :: nat) \<le> 90)) s"

lemma utf8_ascii: "ascii s \<Longrightarrow> utf8 (map of_char s) = s"
  by (metis runes_ascii to_valid_utf8_ascii to_valid_utf8_def)

lemma ToLower_fixed: "ascii s \<Longrightarrow> no_upper s \<Longrightarrow> ToLower s = s"
proof -
  assume a: "ascii s" and n: "no_upper s"
  have "map rune_lower (map of_char s) = map of_char s"
    using a n by (auto simp: ascii_def no_upper_def list_all_iff rune_lower_def)
  then show ?thesis using a by (simp only: ToLower_def runes_ascii utf8_ascii)
qed

section \<open>Package strings\<close>

text \<open>
  \<open>strings.TrimSpace\<close>.  A string starts (ends) with a white-space rune exactly when the UTF-8
  encoding of such a rune is a prefix (a suffix) of it, because the encodings are well-formed
  sequences of their own; so both loops strip encodings.
\<close>

definition space_encodings :: "string list" where
  "space_encodings = map encode_rune space_runes"

function strip :: "string list \<Rightarrow> string \<Rightarrow> string" where
  "strip ps s =
    (case find (\<lambda>p. p \<noteq> [] \<and> prefix p s) ps of
       None \<Rightarrow> s
     | Some p \<Rightarrow> strip ps (drop (length p) s))"
  by pat_completeness auto
termination
proof (relation "measure (\<lambda>(ps, s). length s)", goal_cases)
  case (2 ps s p)
  then have "p \<noteq> []" "prefix p s" by (auto simp: find_Some_iff)
  then show ?case by (auto simp: prefix_def)
qed simp

declare strip.simps [simp del]

definition TrimLeftSpace :: "string \<Rightarrow> string" where
  "TrimLeftSpace s = strip space_encodings s"

definition TrimRightSpace :: "string \<Rightarrow> string" where
  "TrimRightSpace s = rev (strip (map rev space_encodings) (rev s))"

definition TrimSpace :: "string \<Rightarrow> string" where
  "TrimSpace s = TrimRightSpace (TrimLeftSpace s)"

definition starts_with_any :: "string list \<Rightarrow> string \<Rightarrow> bool" where
  "starts_with_any ps s \<longleftrightarrow> (\<exists>p \<in> set ps. p \<noteq> [] \<and> prefix p s)"

lemma strip_stops: "\<not> starts_with_any ps (strip ps s)"
proof (induction ps s rule: strip.induct)
  case (1 ps s)
  show ?case
  proof (cases "find (\<lambda>p. p \<noteq> [] \<and> prefix p s) ps")
    case None
    moreover from None have "strip ps s = s" by (subst strip.simps) simp
    ultimately show ?thesis by (auto simp: starts_with_any_def find_None_iff)
  next
    case (Some p)
    with "1.IH" show ?thesis by (subst strip.simps) simp
  qed
qed

lemma strip_id: "\<not> starts_with_any ps s \<Longrightarrow> strip ps s = s"
proof -
  assume "\<not> starts_with_any ps s"
  then have "find (\<lambda>p. p \<noteq> [] \<and> prefix p s) ps = None"
    by (auto simp: starts_with_any_def find_None_iff)
  then show ?thesis by (subst strip.simps) simp
qed

lemma strip_suffix: "suffix (strip ps s) s"
proof (induction ps s rule: strip.induct)
  case (1 ps s)
  show ?case
  proof (cases "find (\<lambda>p. p \<noteq> [] \<and> prefix p s) ps")
    case None
    then show ?thesis by (subst strip.simps) simp
  next
    case (Some p)
    with "1.IH" have "suffix (strip ps (drop (length p) s)) (drop (length p) s)" by simp
    then have "suffix (strip ps (drop (length p) s)) s"
      using suffix_drop suffix_order.order_trans by blast
    then show ?thesis using Some by (subst strip.simps) simp
  qed
qed

lemma starts_with_any_prefix: "starts_with_any ps t \<Longrightarrow> prefix t s \<Longrightarrow> starts_with_any ps s"
  unfolding starts_with_any_def using prefix_order.order_trans by blast

lemma TrimRightSpace_prefix: "prefix (TrimRightSpace s) s"
  by (simp add: TrimRightSpace_def suffix_to_prefix [symmetric])
    (metis rev_rev_ident strip_suffix suffix_to_prefix)

text \<open>No white space is left at either end, and a string without any is not changed.\<close>

lemma TrimSpace_no_lead: "\<not> starts_with_any space_encodings (TrimSpace s)"
  unfolding TrimSpace_def TrimLeftSpace_def
  using strip_stops starts_with_any_prefix TrimRightSpace_prefix by blast

lemma TrimSpace_no_trail: "\<not> starts_with_any (map rev space_encodings) (rev (TrimSpace s))"
  unfolding TrimSpace_def TrimRightSpace_def by (simp add: strip_stops)

lemma TrimSpace_id:
  assumes "\<not> starts_with_any space_encodings s" "\<not> starts_with_any (map rev space_encodings) (rev s)"
  shows "TrimSpace s = s"
  using assms by (simp add: TrimSpace_def TrimLeftSpace_def TrimRightSpace_def strip_id)

lemma TrimSpace_idem [simp]: "TrimSpace (TrimSpace s) = TrimSpace s"
  by (rule TrimSpace_id [OF TrimSpace_no_lead TrimSpace_no_trail])

lemma TrimSpace_sublist: "sublist (TrimSpace s) s"
proof -
  have "sublist (TrimSpace s) (TrimLeftSpace s)"
    unfolding TrimSpace_def by (intro prefix_imp_sublist TrimRightSpace_prefix)
  moreover have "sublist (TrimLeftSpace s) s"
    unfolding TrimLeftSpace_def by (intro suffix_imp_sublist strip_suffix)
  ultimately show ?thesis by (rule sublist_order.order_trans)
qed

lemma TrimSpace_length: "length (TrimSpace s) \<le> length s"
  by (rule sublist_length_le [OF TrimSpace_sublist])

lemma TrimSpace_Nil [simp]: "TrimSpace [] = []"
  using TrimSpace_length [of "[]"] by simp

text \<open>
  A string that starts and ends with a printable ASCII byte is its own trimmed form: the first
  (last) byte of every white-space encoding is a control byte, the blank, or outside ASCII.
\<close>

definition printable :: "char \<Rightarrow> bool" where
  "printable c \<longleftrightarrow> of_char c < (128::nat) \<and> (32::nat) < of_char c"

lemma space_encoding_ends:
  "list_all (\<lambda>p. \<not> printable (hd p) \<and> \<not> printable (last p)) space_encodings"
  by (simp add: space_encodings_def space_runes_def encode_rune_def encode_bytes_def valid_rune_def
      printable_def)

lemma TrimSpace_printable_ends:
  assumes "s \<noteq> []" "printable (hd s)" "printable (last s)"
  shows "TrimSpace s = s"
proof (rule TrimSpace_id)
  show "\<not> starts_with_any space_encodings s"
    using space_encoding_ends assms(1,2)
    by (auto simp: starts_with_any_def list_all_iff prefix_def)
  show "\<not> starts_with_any (map rev space_encodings) (rev s)"
    using space_encoding_ends assms(1,3)
    by (auto simp: starts_with_any_def list_all_iff prefix_def hd_rev last_rev rev_swap)
qed

text \<open>\<open>strings.TrimRight\<close> with a cut set of ASCII bytes, and \<open>strings.ReplaceAll\<close> of one byte by another.\<close>

definition TrimRight :: "string \<Rightarrow> string \<Rightarrow> string" where
  "TrimRight s cutset = rev (dropWhile (\<lambda>c. c \<in> set cutset) (rev s))"

definition ReplaceByte :: "string \<Rightarrow> char \<Rightarrow> char \<Rightarrow> string" where
  "ReplaceByte s old new = map (\<lambda>c. if c = old then new else c) s"

definition HasPrefix :: "string \<Rightarrow> string \<Rightarrow> bool" where
  "HasPrefix s p \<longleftrightarrow> prefix p s"

section \<open>Package path/filepath (Unix)\<close>

text \<open>\<open>filepath.Base\<close>: trailing slashes are stripped, then everything up to the last slash.\<close>

definition Base :: "string \<Rightarrow> string" where
  "Base path =
    (if path = [] then ''.''
     else let p = rev (takeWhile (\<lambda>c. c \<noteq> CHR ''/'') (rev (TrimRight path ''/'')))
       in if p = [] then ''/'' else p)"

lemma Base_no_slash: "CHR ''/'' \<in> set (Base path) \<Longrightarrow> Base path = ''/''"
  by (auto simp: Base_def Let_def split: if_splits dest: set_takeWhileD)

lemma Base_not_Nil [simp]: "Base path \<noteq> []"
  by (simp add: Base_def Let_def)

section \<open>Numbers and lists of strings\<close>

text \<open>Decimal notation, as \<open>strconv.Itoa\<close> and \<open>%d\<close> write it.\<close>

fun digits_of :: "nat \<Rightarrow> string" where
  "digits_of n =
    (if n < 10 then [char_of (48 + n)] else digits_of (n div 10) @ [char_of (48 + n mod 10)])"

declare digits_of.simps [simp del]

definition Itoa :: "int \<Rightarrow> string" where
  "Itoa i = (if i < 0 then ''-'' @ digits_of (nat (- i)) else digits_of (nat i))"

text \<open>
  \<open>strconv.ParseInt(s, 10, 64)\<close> and \<open>Atoi\<close> on a 64-bit machine: an optional sign and at least one
  digit, and nothing else; a value out of range is an error too (\<open>None\<close>).
\<close>

definition is_digit :: "char \<Rightarrow> bool" where
  "is_digit c \<longleftrightarrow> CHR ''0'' \<le> c \<and> c \<le> CHR ''9''"

definition digits_value :: "string \<Rightarrow> int" where
  "digits_value ds = fold (\<lambda>c v. 10 * v + (of_char c - 48)) ds 0"

definition ParseInt :: "string \<Rightarrow> int option" where
  "ParseInt s =
    (let neg = (s \<noteq> [] \<and> hd s = CHR ''-'');
         ds = (if s \<noteq> [] \<and> hd s \<in> {CHR ''+'', CHR ''-''} then tl s else s);
         v = (if neg then - digits_value ds else digits_value ds) in
     if ds = [] \<or> \<not> list_all is_digit ds then None
     else if - (2 ^ 63) \<le> v \<and> v < 2 ^ 63 then Some v
     else None)"

text \<open>\<open>strings.Split\<close> at a one-byte separator.\<close>

fun SplitByte :: "char \<Rightarrow> string \<Rightarrow> string list" where
  "SplitByte sep [] = [[]]"
| "SplitByte sep (c # cs) =
    (if c = sep then [] # SplitByte sep cs
     else (case SplitByte sep cs of p # ps \<Rightarrow> (c # p) # ps | [] \<Rightarrow> [[c]]))"

lemma SplitByte_not_Nil [simp]: "SplitByte sep s \<noteq> []"
  by (cases s) (auto split: list.splits)

lemma SplitByte_no_sep: "p \<in> set (SplitByte sep s) \<Longrightarrow> sep \<notin> set p"
  by (induction s arbitrary: p) (auto split: list.splits if_splits)

text \<open>Reading a number that was written gives the number.\<close>

lemma fold_digits_append:
  "digits_value (ds @ [c]) = 10 * digits_value ds + (of_char c - 48)"
  by (simp add: digits_value_def)

lemma digits_of_value: "digits_value (digits_of n) = int n \<and> list_all is_digit (digits_of n) \<and> digits_of n \<noteq> []"
proof (induction n rule: digits_of.induct)
  case (1 n)
  have d: "of_char (char_of (48 + m) :: char) = int (48 + m)" "is_digit (char_of (48 + m))" if "m < 10" for m :: nat
  proof -
    have m: "of_char (char_of (48 + m) :: char) = 48 + m" using that by simp
    then show "is_digit (char_of (48 + m))" using that by (simp add: is_digit_def less_eq_char_def)
    have "of_char (char_of (48 + m) :: char) = int (of_char (char_of (48 + m) :: char))"
      by (simp only: of_nat_of_char)
    then show "of_char (char_of (48 + m) :: char) = int (48 + m)" by (simp only: m)
  qed
  show ?case
  proof (cases "n < 10")
    case True
    then show ?thesis using d [OF True] digits_of.simps [of n]
      by (simp add: digits_value_def)
  next
    case False
    have "n mod 10 < 10" "10 * int (n div 10) + int (n mod 10) = int n" by (simp, presburger)
    from d [OF this(1)] this(2) False 1 show ?thesis using digits_of.simps [of n]
      by (simp add: fold_digits_append)
  qed
qed

lemma ParseInt_Itoa: "- (2 ^ 63) \<le> i \<Longrightarrow> i < 2 ^ 63 \<Longrightarrow> ParseInt (Itoa i) = Some i"
proof -
  assume r: "- (2 ^ 63) \<le> i" "i < 2 ^ 63"
  have s: "hd ds \<noteq> CHR ''-'' \<and> hd ds \<noteq> CHR ''+''" if "list_all is_digit ds" "ds \<noteq> []" for ds
    using that by (cases ds) (auto simp: is_digit_def less_eq_char_def)
  show ?thesis
    using r digits_of_value [of "nat i"] digits_of_value [of "nat (- i)"]
      s [of "digits_of (nat i)"] s [of "digits_of (nat (- i))"]
    by (simp add: Itoa_def ParseInt_def Let_def)
qed

end
