(* ===== verification/Go_Json.thy ===== *)
theory Go_Json
  imports Go_Strings
begin

text \<open>
  What the program uses of package \<open>encoding/json\<close>, at the level of JSON values: \<open>Marshal\<close> of
  strings, of string lists and of structs with string fields, and \<open>Unmarshal\<close> into the same
  types, with Go's rules (malformed UTF-8 becomes U+FFFD, field names match without case, \<open>null\<close>
  leaves the target alone, a value of the wrong type is skipped and reported at the end).  A
  document is \<open>None\<close> when the bytes are not JSON, \<open>Some\<close> its value when they are; the concrete
  syntax (white space, escapes) is not modelled.  A \<open>map[string]string\<close> is an association list,
  in the order in which \<open>range\<close> happens to visit it, and \<open>None\<close> for Go's nil map.
\<close>

datatype json = JNull | JBool bool | JNum int | JStr string | JArr "json list" | JObj "(string \<times> json) list"

type_synonym document = "json option"
type_synonym strmap = "(string \<times> string) list"

section \<open>Marshal\<close>

definition marshal_string :: "string \<Rightarrow> json" where
  "marshal_string s = JStr (to_valid_utf8 s)"

text \<open>A slice that is not \<open>nil\<close> (a \<open>nil\<close> slice would be \<open>null\<close>; the only slice marshalled begins with the object key).\<close>

definition marshal_strings :: "string list \<Rightarrow> json" where
  "marshal_strings xs = JArr (map marshal_string xs)"

text \<open>\<open>json.Marshal\<close> of a map writes the keys in sorted order.\<close>

definition marshal_strmap :: "strmap \<Rightarrow> json" where
  "marshal_strmap m = JObj (map (\<lambda>(k, v). (to_valid_utf8 k, marshal_string v)) (sort_key fst m))"

section \<open>Unmarshal\<close>

text \<open>
  Field names compare under simple case folding.  For a field name made of ASCII letters the
  runes that fold to a letter are its two cases and, for k and s, U+212A and U+017F.
\<close>

definition fold_rune :: "nat \<Rightarrow> nat" where
  "fold_rune r =
    (if 65 \<le> r \<and> r \<le> 90 then r + 32
     else if r = 8490 then 107
     else if r = 383 then 115
     else r)"

definition field_matches :: "string \<Rightarrow> string \<Rightarrow> bool" where
  "field_matches name key \<longleftrightarrow> map fold_rune (runes key) = map fold_rune (runes name)"

text \<open>A field of a struct: its name and how a JSON value is stored in it (\<open>None\<close>: wrong type).\<close>

type_synonym 'r field = "string \<times> (json \<Rightarrow> 'r \<Rightarrow> 'r option)"

definition string_field :: "string \<Rightarrow> (string \<Rightarrow> 'r \<Rightarrow> 'r) \<Rightarrow> 'r field" where
  "string_field name put =
    (name, \<lambda>v r. case v of JStr s \<Rightarrow> Some (put s r) | JNull \<Rightarrow> Some r | _ \<Rightarrow> None)"

text \<open>The elements of a \<open>[]string\<close>; a \<open>null\<close> element is the empty string.\<close>

fun unmarshal_elems :: "json list \<Rightarrow> string list option" where
  "unmarshal_elems [] = Some []"
| "unmarshal_elems (JStr s # vs) = map_option ((#) s) (unmarshal_elems vs)"
| "unmarshal_elems (JNull # vs) = map_option ((#) []) (unmarshal_elems vs)"
| "unmarshal_elems (_ # vs) = None"

definition strings_field :: "string \<Rightarrow> (string list \<Rightarrow> 'r \<Rightarrow> 'r) \<Rightarrow> 'r field" where
  "strings_field name put =
    (name, \<lambda>v r. case v of
        JArr vs \<Rightarrow> map_option (\<lambda>xs. put xs r) (unmarshal_elems vs)
      | JNull \<Rightarrow> Some (put [] r)
      | _ \<Rightarrow> None)"

fun unmarshal_fields :: "'r field list \<Rightarrow> (string \<times> json) list \<Rightarrow> 'r \<Rightarrow> bool \<Rightarrow> 'r option" where
  "unmarshal_fields fields [] r ok = (if ok then Some r else None)"
| "unmarshal_fields fields ((k, v) # kvs) r ok =
    (case find (\<lambda>f. field_matches (fst f) k) fields of
       None \<Rightarrow> unmarshal_fields fields kvs r ok
     | Some f \<Rightarrow>
         (case snd f v r of
            Some r' \<Rightarrow> unmarshal_fields fields kvs r' ok
          | None \<Rightarrow> unmarshal_fields fields kvs r False))"

definition unmarshal_struct :: "'r field list \<Rightarrow> 'r \<Rightarrow> document \<Rightarrow> 'r option" where
  "unmarshal_struct fields zero doc =
    (case doc of
       None \<Rightarrow> None
     | Some JNull \<Rightarrow> Some zero
     | Some (JObj kvs) \<Rightarrow> unmarshal_fields fields kvs zero True
     | Some _ \<Rightarrow> None)"

text \<open>
  \<open>json.Unmarshal(raw, &out)\<close> into a \<open>map[string]string\<close> that starts empty: the outer option is
  the error, the inner one the nil map that a JSON \<open>null\<close> leaves.
\<close>

fun unmarshal_entries :: "(string \<times> json) list \<Rightarrow> strmap \<Rightarrow> strmap option" where
  "unmarshal_entries [] m = Some m"
| "unmarshal_entries ((k, JStr v) # kvs) m = unmarshal_entries kvs (AList.update k v m)"
| "unmarshal_entries ((k, JNull) # kvs) m = unmarshal_entries kvs (AList.update k [] m)"
| "unmarshal_entries (_ # kvs) m = None"

definition unmarshal_strmap :: "document \<Rightarrow> strmap option option" where
  "unmarshal_strmap doc =
    (case doc of
       None \<Rightarrow> None
     | Some JNull \<Rightarrow> Some None
     | Some (JObj kvs) \<Rightarrow> map_option Some (unmarshal_entries kvs [])
     | Some _ \<Rightarrow> None)"

section \<open>Round trips\<close>

lemma field_matches_ascii:
  "ascii a \<Longrightarrow> ascii b \<Longrightarrow>
   field_matches a b \<longleftrightarrow> map (\<lambda>c. fold_rune (of_char c)) b = map (\<lambda>c. fold_rune (of_char c)) a"
  by (simp add: field_matches_def runes_ascii comp_def)

lemma unmarshal_elems_marshal: "unmarshal_elems (map marshal_string xs) = Some (map to_valid_utf8 xs)"
  by (induction xs) (auto simp: marshal_string_def)

lemma unmarshal_entries_marshal:
  "unmarshal_entries (map (\<lambda>(k, v). (to_valid_utf8 k, marshal_string v)) kvs) m
   = Some (fold (\<lambda>(k, v). AList.update (to_valid_utf8 k) (to_valid_utf8 v)) kvs m)"
  by (induction kvs arbitrary: m) (auto simp: marshal_string_def)

lemma map_of_fold_update:
  "distinct (map fst kvs) \<Longrightarrow>
   map_of (fold (\<lambda>(k, v). AList.update k v) kvs m) = map_of m ++ map_of kvs"
proof (induction kvs arbitrary: m)
  case (Cons kv kvs)
  obtain k v where kv: "kv = (k, v)" by fastforce
  have "map_of kvs k = None"
    using Cons.prems kv by (simp add: map_of_eq_None_iff)
  then have "(map_of m)(k \<mapsto> v) ++ map_of kvs = map_of m ++ (map_of kvs)(k \<mapsto> v)"
    by (auto simp: fun_eq_iff map_add_def split: option.splits)
  moreover have "map_of (fold (\<lambda>(k, v). AList.update k v) (kv # kvs) m)
      = (map_of m)(k \<mapsto> v) ++ map_of kvs"
    using Cons kv by (simp add: update_conv')
  moreover have "map_of (kv # kvs) = (map_of kvs)(k \<mapsto> v)"
    using kv by simp
  ultimately show ?case by (simp only:)
qed simp

definition utf8_strmap :: "strmap \<Rightarrow> bool" where
  "utf8_strmap m \<longleftrightarrow> distinct (map fst m) \<and> (\<forall>(k, v) \<in> set m. valid_utf8 k \<and> valid_utf8 v)"

text \<open>A map of well-formed strings survives the way through JSON.\<close>

lemma unmarshal_marshal_strmap:
  assumes "utf8_strmap m"
  shows "\<exists>m'. unmarshal_strmap (Some (marshal_strmap m)) = Some (Some m') \<and> map_of m' = map_of m"
proof -
  let ?s = "sort_key fst m"
  have d: "distinct (map fst ?s)"
    using assms by (simp add: utf8_strmap_def distinct_map)
  have "fold (\<lambda>(k, v). AList.update (to_valid_utf8 k) (to_valid_utf8 v)) ?s ([] :: strmap)
      = fold (\<lambda>(k, v). AList.update k v) ?s []"
    using assms by (intro fold_cong) (auto simp: utf8_strmap_def valid_utf8_def)
  moreover have "map_of ?s = map_of m"
    using assms d by (intro map_of_eqI) (auto simp: utf8_strmap_def distinct_map)
  ultimately show ?thesis
    by (auto simp: unmarshal_strmap_def marshal_strmap_def unmarshal_entries_marshal
        map_of_fold_update [OF d])
qed

end
