(* ===== verification/Domain.thy ===== *)
theory Domain
  imports "HOL-Library.Word" Go_Json
begin

text \<open>
  Package \<open>internal/domain\<close>: errors and their classification (\<open>errors.go\<close>), the avatar and its
  constants (\<open>avatar.go\<close>), the events (\<open>events.go\<close>) and the validators (\<open>validate.go\<close>).

  A Go error is a tree: sentinels, texts, errors of packages outside the repository, and the
  wrappers \<open>fmt.Errorf("..: %w", err)\<close> and \<open>fmt.Errorf("%w: %w", a, b)\<close>.
\<close>

section \<open>Errors\<close>

datatype goerr =
    ErrAvatarNotFound | ErrForbidden | ErrInvalidUserID | ErrFileRequired | ErrFileTooLarge
  | ErrInvalidFileFormat | ErrInvalidImage | ErrAlreadyProcessed | ErrAlreadyDeleted
  | ErrInvalidSizeParam | ErrInvalidFormatParam | ErrPermanent | ErrImageTooLarge
  | ErrNoRows                         \<comment> \<open>pgx.ErrNoRows\<close>
  | MaxBytesError                     \<comment> \<open>*http.MaxBytesError\<close>
  | ErrText string                    \<comment> \<open>errors.New or fmt.Errorf without \%w, an encoding/json error\<close>
  | ErrExternal string                \<comment> \<open>an error made by a package or service outside the repository\<close>
  | ErrWrap string goerr              \<comment> \<open>one \%w\<close>
  | ErrWrap2 goerr goerr              \<comment> \<open>two \%w\<close>

type_synonym 'a result = "goerr + 'a"

text \<open>\<open>errors.Is\<close>: the target is somewhere in the tree.\<close>

fun errors_Is :: "goerr \<Rightarrow> goerr \<Rightarrow> bool" where
  "errors_Is (ErrWrap msg e) t = (ErrWrap msg e = t \<or> errors_Is e t)"
| "errors_Is (ErrWrap2 a b) t = (ErrWrap2 a b = t \<or> errors_Is a t \<or> errors_Is b t)"
| "errors_Is e t = (e = t)"

definition Permanent :: "goerr option \<Rightarrow> goerr option" where
  "Permanent err =
    (case err of
       None \<Rightarrow> None
     | Some e \<Rightarrow> if errors_Is e ErrPermanent then Some e else Some (ErrWrap2 ErrPermanent e))"

definition IsPermanent :: "goerr \<Rightarrow> bool" where
  "IsPermanent err \<longleftrightarrow>
     errors_Is err ErrPermanent \<or> errors_Is err ErrInvalidFileFormat \<or>
     errors_Is err ErrInvalidImage \<or> errors_Is err ErrImageTooLarge \<or>
     errors_Is err ErrInvalidSizeParam \<or> errors_Is err ErrInvalidFormatParam"

fun is_wrapper :: "goerr \<Rightarrow> bool" where
  "is_wrapper (ErrWrap msg e) = True"
| "is_wrapper (ErrWrap2 a b) = True"
| "is_wrapper e = False"

text \<open>Marking an error permanent is idempotent and does not hide what the error was.\<close>

lemma errors_Is_refl [simp]: "errors_Is e e"
  by (cases e) auto

lemma Permanent_marks: "Permanent (Some e) = Some e' \<Longrightarrow> errors_Is e' ErrPermanent"
  by (auto simp: Permanent_def split: if_splits)

lemma Permanent_keeps:
  "Permanent (Some e) = Some e' \<Longrightarrow> \<not> is_wrapper t \<Longrightarrow> t \<noteq> ErrPermanent \<Longrightarrow>
   errors_Is e' t = errors_Is e t"
  by (cases t) (auto simp: Permanent_def split: if_splits)

lemma Permanent_idem: "Permanent (Permanent err) = Permanent err"
  by (auto simp: Permanent_def split: option.splits)

section \<open>Constants and records (avatar.go, events.go)\<close>

definition UploadStatusUploading :: string where "UploadStatusUploading = ''uploading''"
definition UploadStatusStored :: string where "UploadStatusStored = ''stored''"
definition UploadStatusFailed :: string where "UploadStatusFailed = ''failed''"
definition ProcessingPending :: string where "ProcessingPending = ''pending''"
definition ProcessingProcessing :: string where "ProcessingProcessing = ''processing''"
definition ProcessingCompleted :: string where "ProcessingCompleted = ''completed''"
definition ProcessingFailed :: string where "ProcessingFailed = ''failed''"
definition SizeOriginal :: string where "SizeOriginal = ''original''"
definition Size100 :: string where "Size100 = ''100x100''"
definition Size300 :: string where "Size300 = ''300x300''"
definition MaxFileSize :: int where "MaxFileSize = 10485760"
definition MaxPixels :: int where "MaxPixels = 20000000"
definition OutboxUpload :: string where "OutboxUpload = ''upload''"
definition OutboxDelete :: string where "OutboxDelete = ''delete''"

lemmas status_defs = UploadStatusUploading_def UploadStatusStored_def UploadStatusFailed_def
  ProcessingPending_def ProcessingProcessing_def ProcessingCompleted_def ProcessingFailed_def
lemmas size_defs = SizeOriginal_def Size100_def Size300_def

lemma processing_distinct [simp]:
  "ProcessingPending \<noteq> ProcessingProcessing" "ProcessingPending \<noteq> ProcessingCompleted"
  "ProcessingPending \<noteq> ProcessingFailed" "ProcessingProcessing \<noteq> ProcessingCompleted"
  "ProcessingProcessing \<noteq> ProcessingFailed" "ProcessingCompleted \<noteq> ProcessingFailed"
  "ProcessingProcessing \<noteq> ProcessingPending" "ProcessingCompleted \<noteq> ProcessingPending"
  "ProcessingFailed \<noteq> ProcessingPending" "ProcessingCompleted \<noteq> ProcessingProcessing"
  "ProcessingFailed \<noteq> ProcessingProcessing" "ProcessingFailed \<noteq> ProcessingCompleted"
  by (simp_all add: status_defs)

definition AllowedSizes :: "string list" where
  "AllowedSizes = [SizeOriginal, Size100, Size300]"

definition AllowedFormats :: "string \<rightharpoonup> string" where
  "AllowedFormats = map_of
     [(''jpeg'', ''image/jpeg''), (''jpg'', ''image/jpeg''), (''png'', ''image/png''),
      (''webp'', ''image/webp'')]"

text \<open>A UUID is 16 bytes; times are microseconds, PostgreSQL's resolution.\<close>

type_synonym uuid = "128 word"
type_synonym time = int

record OutboxEvent =
  oe_ID :: int
  oe_EventID :: string
  oe_Kind :: string
  oe_Payload :: document

record Avatar =
  av_ID :: uuid
  av_UserID :: string
  av_FileName :: string
  av_MimeType :: string
  av_SizeBytes :: int
  av_Width :: int
  av_Height :: int
  av_S3Key :: string
  av_ThumbnailS3Keys :: "strmap option"
  av_UploadStatus :: string
  av_ProcessingStatus :: string
  av_CreatedAt :: time
  av_UpdatedAt :: time
  av_DeletedAt :: "time option"

definition ThumbnailKey :: "Avatar \<Rightarrow> string \<Rightarrow> string \<times> bool" where
  "ThumbnailKey a sz =
    (case av_ThumbnailS3Keys a of
       None \<Rightarrow> ([], False)
     | Some m \<Rightarrow>
         (case map_of m sz of
            None \<Rightarrow> ([], False)
          | Some key \<Rightarrow> (key, key \<noteq> [])))"

text \<open>\<open>json.Marshal\<close> of a \<open>map[string]string\<close> does not fail, so the second fallback is dead.\<close>

definition ThumbnailKeysJSON :: "strmap option \<Rightarrow> json" where
  "ThumbnailKeysJSON m = (case m of None \<Rightarrow> JObj [] | Some kvs \<Rightarrow> marshal_strmap kvs)"

text \<open>The raw column: \<open>None\<close> stands for an empty byte slice.\<close>

definition ParseThumbnailKeys :: "document option \<Rightarrow> strmap option" where
  "ParseThumbnailKeys raw =
    (case raw of
       None \<Rightarrow> Some []
     | Some doc \<Rightarrow>
         (case unmarshal_strmap doc of
            None \<Rightarrow> Some []
          | Some out \<Rightarrow> out))"

definition OriginalObjectKey :: "string \<Rightarrow> string \<Rightarrow> string \<Rightarrow> string" where
  "OriginalObjectKey userID avatarID ext = ''originals/'' @ userID @ ''/'' @ avatarID @ ext"

definition ThumbnailObjectKey :: "string \<Rightarrow> string \<Rightarrow> string \<Rightarrow> string" where
  "ThumbnailObjectKey avatarID sz ext = ''thumbnails/'' @ avatarID @ ''/'' @ sz @ ext"

record AvatarUploadEvent =
  ue_EventID :: string
  ue_AvatarID :: string
  ue_UserID :: string
  ue_S3Key :: string

text \<open>Declared, but not used by the program.\<close>

record ProcessingOp =
  po_Name :: string
  po_Width :: int
  po_Height :: int

record AvatarProcessEvent =
  pe_EventID :: string
  pe_AvatarID :: string
  pe_Operations :: "ProcessingOp list"

record AvatarDeleteEvent =
  de_EventID :: string
  de_AvatarID :: string
  de_S3Keys :: "string list"

definition UploadEventID :: "string \<Rightarrow> string" where
  "UploadEventID avatarID = ''upload:'' @ avatarID"

definition DeleteEventID :: "string \<Rightarrow> string" where
  "DeleteEventID avatarID = ''delete:'' @ avatarID"

definition ProcessEventID :: "string \<Rightarrow> string" where
  "ProcessEventID avatarID = ''process:'' @ avatarID"

text \<open>The JSON form of the events, from the struct tags.\<close>

definition marshal_upload :: "AvatarUploadEvent \<Rightarrow> json" where
  "marshal_upload e = JObj
     [(''event_id'', marshal_string (ue_EventID e)), (''avatar_id'', marshal_string (ue_AvatarID e)),
      (''user_id'', marshal_string (ue_UserID e)), (''s3_key'', marshal_string (ue_S3Key e))]"

definition marshal_delete :: "AvatarDeleteEvent \<Rightarrow> json" where
  "marshal_delete e = JObj
     [(''event_id'', marshal_string (de_EventID e)), (''avatar_id'', marshal_string (de_AvatarID e)),
      (''s3_keys'', marshal_strings (de_S3Keys e))]"

definition unmarshal_upload :: "document \<Rightarrow> AvatarUploadEvent result" where
  "unmarshal_upload doc =
    (case unmarshal_struct
        [string_field ''event_id'' (\<lambda>x r. r\<lparr>ue_EventID := x\<rparr>),
         string_field ''avatar_id'' (\<lambda>x r. r\<lparr>ue_AvatarID := x\<rparr>),
         string_field ''user_id'' (\<lambda>x r. r\<lparr>ue_UserID := x\<rparr>),
         string_field ''s3_key'' (\<lambda>x r. r\<lparr>ue_S3Key := x\<rparr>)]
        \<lparr>ue_EventID = [], ue_AvatarID = [], ue_UserID = [], ue_S3Key = []\<rparr> doc of
       None \<Rightarrow> Inl (ErrText ''json'')
     | Some e \<Rightarrow> Inr e)"

definition unmarshal_delete :: "document \<Rightarrow> AvatarDeleteEvent result" where
  "unmarshal_delete doc =
    (case unmarshal_struct
        [string_field ''event_id'' (\<lambda>x r. r\<lparr>de_EventID := x\<rparr>),
         string_field ''avatar_id'' (\<lambda>x r. r\<lparr>de_AvatarID := x\<rparr>),
         strings_field ''s3_keys'' (\<lambda>x r. r\<lparr>de_S3Keys := x\<rparr>)]
        \<lparr>de_EventID = [], de_AvatarID = [], de_S3Keys = []\<rparr> doc of
       None \<Rightarrow> Inl (ErrText ''json'')
     | Some e \<Rightarrow> Inr e)"

section \<open>Validators (validate.go)\<close>

text \<open>The length is counted in bytes; only the trimmed copy is looked at.\<close>

definition ValidateUserID :: "string \<Rightarrow> goerr option" where
  "ValidateUserID userID0 =
    (let userID = TrimSpace userID0 in
     if userID = [] \<or> length userID > 255 then Some ErrInvalidUserID
     else if list_ex IsControl (runes userID) then Some ErrInvalidUserID
     else None)"

definition NormalizeSize :: "string \<Rightarrow> string result" where
  "NormalizeSize size0 =
    (let sz = TrimSpace (ToLower size0) in
     if sz = [] then Inr SizeOriginal
     else if sz \<notin> set AllowedSizes then Inl ErrInvalidSizeParam
     else Inr sz)"

definition NormalizeFormat :: "string \<Rightarrow> string result" where
  "NormalizeFormat format0 =
    (let format1 = TrimSpace (ToLower format0) in
     if format1 = [] then Inr []
     else let format2 = (if format1 = ''jpg'' then ''jpeg'' else format1) in
       if AllowedFormats format2 = None then Inl ErrInvalidFormatParam
       else Inr format2)"

section \<open>Laws of the validators\<close>

text \<open>Text that lower-casing and trimming leave alone; every allowed parameter value is of this kind.\<close>

definition canonical :: "string \<Rightarrow> bool" where
  "canonical s \<longleftrightarrow> ascii s \<and> no_upper s \<and> (s = [] \<or> printable (hd s) \<and> printable (last s))"

lemma canonical_fixed: "canonical s \<Longrightarrow> TrimSpace (ToLower s) = s"
  by (cases "s = []") (auto simp: canonical_def ToLower_fixed TrimSpace_printable_ends)

lemmas canonical_eval = canonical_def ascii_def no_upper_def printable_def

lemma canonical_sizes: "s \<in> set AllowedSizes \<Longrightarrow> canonical s"
  by (auto simp: AllowedSizes_def size_defs canonical_eval)

lemma AllowedFormats_None: "AllowedFormats f = None \<longleftrightarrow> f \<notin> {''jpeg'', ''jpg'', ''png'', ''webp''}"
  by (auto simp: AllowedFormats_def)

text \<open>
  \<open>NormalizeSize\<close> returns one of the allowed sizes or the size error, never anything else,
  and normalising what it returned changes nothing.
\<close>

lemma NormalizeSize_canonical:
  "case NormalizeSize s of
     Inl e \<Rightarrow> e = ErrInvalidSizeParam
   | Inr t \<Rightarrow> t \<in> set AllowedSizes \<and> NormalizeSize t = Inr t"
  using canonical_sizes canonical_fixed
  by (auto simp: NormalizeSize_def Let_def) (auto simp: AllowedSizes_def size_defs)

text \<open>
  \<open>NormalizeFormat\<close> returns the empty string or one of jpeg, png and webp (never the alias
  jpg), is stable on what it returned, and fails only with the format error.
\<close>

lemma NormalizeFormat_canonical:
  "case NormalizeFormat s of
     Inl e \<Rightarrow> e = ErrInvalidFormatParam
   | Inr f \<Rightarrow> f \<in> {[], ''jpeg'', ''png'', ''webp''} \<and> NormalizeFormat f = Inr f"
proof -
  have fix': "TrimSpace (ToLower ''jpeg'') = ''jpeg''" "TrimSpace (ToLower ''png'') = ''png''"
    "TrimSpace (ToLower ''webp'') = ''webp''"
    by (rule canonical_fixed, simp add: canonical_eval)+
  show ?thesis
    by (simp add: NormalizeFormat_def Let_def fix' AllowedFormats_None)
qed

lemma ValidateUserID_TrimSpace [simp]: "ValidateUserID (TrimSpace u) = ValidateUserID u"
  by (simp add: ValidateUserID_def)

lemma ValidateUserID_error: "ValidateUserID u = Some e \<Longrightarrow> e = ErrInvalidUserID"
  by (auto simp: ValidateUserID_def Let_def split: if_splits)

section \<open>Laws of the object keys\<close>

text \<open>What the code relies on of a UUID's text: 36 bytes, none of them a slash.\<close>

definition uuid_text :: "string \<Rightarrow> bool" where
  "uuid_text s \<longleftrightarrow> length s = 36 \<and> CHR ''/'' \<notin> set s"

lemma slash_split:
  assumes "CHR ''/'' \<notin> set b" "CHR ''/'' \<notin> set d" "a @ CHR ''/'' # b = c @ CHR ''/'' # d"
  shows "a = c \<and> b = d"
proof -
  have "takeWhile (\<lambda>x. x \<noteq> CHR ''/'') (rev (a @ CHR ''/'' # b)) = rev b"
    using assms(1) by (auto simp: takeWhile_tail takeWhile_append)
  moreover have "takeWhile (\<lambda>x. x \<noteq> CHR ''/'') (rev (c @ CHR ''/'' # d)) = rev d"
    using assms(2) by (auto simp: takeWhile_tail takeWhile_append)
  ultimately have "b = d" using assms(3) by simp
  then show ?thesis using assms(3) by simp
qed

text \<open>
  C35. Object keys of originals do not collide: two of them are equal only for the same user id,
  avatar id and extension, whatever the user id holds (slashes included); and no key of an
  original is the key of a thumbnail.
\<close>

theorem OriginalObjectKey_inj:
  assumes "uuid_text i" "uuid_text i'" "CHR ''/'' \<notin> set x" "CHR ''/'' \<notin> set x'"
  shows "(OriginalObjectKey u i x = OriginalObjectKey u' i' x' \<longleftrightarrow> u = u' \<and> i = i' \<and> x = x')
       \<and> OriginalObjectKey u i x \<noteq> ThumbnailObjectKey j sz y"
proof -
  have "u @ CHR ''/'' # (i @ x) = u' @ CHR ''/'' # (i' @ x') \<Longrightarrow> u = u' \<and> i @ x = i' @ x'"
    using assms by (intro slash_split) (auto simp: uuid_text_def)
  then show ?thesis
    using assms by (auto simp: OriginalObjectKey_def ThumbnailObjectKey_def uuid_text_def)
qed

lemma OriginalObjectKey_trimmed:
  assumes "i @ x \<noteq> []" "printable (last (i @ x))"
  shows "TrimSpace (OriginalObjectKey u i x) = OriginalObjectKey u i x"
  using assms by (intro TrimSpace_printable_ends) (auto simp: OriginalObjectKey_def printable_def)

lemma ThumbnailObjectKey_trimmed:
  assumes "sz @ x \<noteq> []" "printable (last (sz @ x))"
  shows "TrimSpace (ThumbnailObjectKey i sz x) = ThumbnailObjectKey i sz x"
  using assms by (intro TrimSpace_printable_ends) (auto simp: ThumbnailObjectKey_def printable_def)

section \<open>Events survive JSON\<close>

lemma event_field_names:
  "field_matches ''event_id'' ''event_id''" "field_matches ''avatar_id'' ''avatar_id''"
  "field_matches ''user_id'' ''user_id''" "field_matches ''s3_key'' ''s3_key''"
  "field_matches ''s3_keys'' ''s3_keys''"
  "\<not> field_matches ''event_id'' ''avatar_id''" "\<not> field_matches ''event_id'' ''user_id''"
  "\<not> field_matches ''event_id'' ''s3_key''" "\<not> field_matches ''avatar_id'' ''user_id''"
  "\<not> field_matches ''avatar_id'' ''s3_key''" "\<not> field_matches ''user_id'' ''s3_key''"
  "\<not> field_matches ''event_id'' ''s3_keys''" "\<not> field_matches ''avatar_id'' ''s3_keys''"
  by (simp_all add: field_matches_ascii ascii_def fold_rune_def)

definition utf8_upload :: "AvatarUploadEvent \<Rightarrow> bool" where
  "utf8_upload e \<longleftrightarrow> valid_utf8 (ue_EventID e) \<and> valid_utf8 (ue_AvatarID e) \<and>
     valid_utf8 (ue_UserID e) \<and> valid_utf8 (ue_S3Key e)"

definition utf8_delete :: "AvatarDeleteEvent \<Rightarrow> bool" where
  "utf8_delete e \<longleftrightarrow> valid_utf8 (de_EventID e) \<and> valid_utf8 (de_AvatarID e) \<and>
     list_all valid_utf8 (de_S3Keys e)"

lemma unmarshal_marshal_upload:
  "unmarshal_upload (Some (marshal_upload e)) =
   Inr \<lparr>ue_EventID = to_valid_utf8 (ue_EventID e), ue_AvatarID = to_valid_utf8 (ue_AvatarID e),
        ue_UserID = to_valid_utf8 (ue_UserID e), ue_S3Key = to_valid_utf8 (ue_S3Key e)\<rparr>"
  by (simp add: unmarshal_upload_def marshal_upload_def unmarshal_struct_def marshal_string_def
      string_field_def event_field_names)

lemma unmarshal_marshal_delete:
  "unmarshal_delete (Some (marshal_delete e)) =
   Inr \<lparr>de_EventID = to_valid_utf8 (de_EventID e), de_AvatarID = to_valid_utf8 (de_AvatarID e),
        de_S3Keys = map to_valid_utf8 (de_S3Keys e)\<rparr>"
  by (simp add: unmarshal_delete_def marshal_delete_def unmarshal_struct_def marshal_strings_def
      string_field_def strings_field_def event_field_names unmarshal_elems_marshal
      marshal_string_def)

text \<open>
  C34. Both event types are read back from their JSON form as they were written, when their strings
  are well-formed UTF-8; the delete event keeps its object keys in order.
\<close>

theorem events_roundtrip:
  assumes "utf8_upload u" "utf8_delete d"
  shows "unmarshal_upload (Some (marshal_upload u)) = Inr u
       \<and> unmarshal_delete (Some (marshal_delete d)) = Inr d"
proof -
  have "map to_valid_utf8 (de_S3Keys d) = de_S3Keys d"
    using assms(2) by (auto simp: utf8_delete_def list_all_iff valid_utf8_def intro: map_idI)
  then show ?thesis
    using assms by (simp add: unmarshal_marshal_upload unmarshal_marshal_delete
        utf8_upload_def utf8_delete_def valid_utf8_def)
qed

theorem OriginalObjectKey_inj_witness:
  "(OriginalObjectKey ''a'' ''6ba7b810-9dad-11d1-80b4-00c04fd430c8'' ''.png''
     = OriginalObjectKey ''a/6ba7b810-9dad-11d1-80b4-00c04fd430c8'' ''6ba7b811-9dad-11d1-80b4-00c04fd430c8'' ''.png''
    \<longleftrightarrow> ''a'' = ''a/6ba7b810-9dad-11d1-80b4-00c04fd430c8''
      \<and> ''6ba7b810-9dad-11d1-80b4-00c04fd430c8'' = ''6ba7b811-9dad-11d1-80b4-00c04fd430c8'' \<and> ''.png'' = ''.png'')
   \<and> OriginalObjectKey ''a'' ''6ba7b810-9dad-11d1-80b4-00c04fd430c8'' ''.png''
     \<noteq> ThumbnailObjectKey ''6ba7b810-9dad-11d1-80b4-00c04fd430c8'' Size100 ''.png''"
  by (rule OriginalObjectKey_inj) (simp_all add: uuid_text_def)

theorem events_roundtrip_witness:
  "unmarshal_upload (Some (marshal_upload \<lparr>ue_EventID = ''upload:7'', ue_AvatarID = ''7'', ue_UserID = ''bob'', ue_S3Key = ''k''\<rparr>))
     = Inr \<lparr>ue_EventID = ''upload:7'', ue_AvatarID = ''7'', ue_UserID = ''bob'', ue_S3Key = ''k''\<rparr>
   \<and> unmarshal_delete (Some (marshal_delete \<lparr>de_EventID = ''delete:7'', de_AvatarID = ''7'', de_S3Keys = [''k'', ''t'']\<rparr>))
     = Inr \<lparr>de_EventID = ''delete:7'', de_AvatarID = ''7'', de_S3Keys = [''k'', ''t'']\<rparr>"
  by (rule events_roundtrip) (simp_all add: utf8_upload_def utf8_delete_def valid_utf8_ascii ascii_def)

end
