(* ===== verification/Image_Util.thy ===== *)
theory Image_Util
  imports Domain
begin

text \<open>
  Package \<open>internal/imageutil\<close> (\<open>image.go\<close>): format detection by magic bytes, inspection,
  decoding with the pixel limit, thumbnails and conversion.  The codecs (packages \<open>image\<close>,
  \<open>image/jpeg\<close>, \<open>image/png\<close>, \<open>x/image/webp\<close>, \<open>imaging\<close>, \<open>nativewebp\<close>) are a parameter: a record of
  functions over an abstract type of decoded images.  Integers are Go's 64-bit \<open>int\<close>; the product
  in \<open>checkPixels\<close> is taken with its wrap-around.
\<close>

record 'i codecs =
  image_DecodeConfig :: "string \<Rightarrow> (int \<times> int) result"
  image_Decode :: "string \<Rightarrow> 'i result"
  imaging_Fill :: "'i \<Rightarrow> int \<Rightarrow> int \<Rightarrow> 'i"
  jpeg_Encode :: "'i \<Rightarrow> string result"
  png_Encode :: "'i \<Rightarrow> string result"
  webp_Encode :: "'i \<Rightarrow> string result"

definition MIMEJPEG :: string where "MIMEJPEG = ''image/jpeg''"
definition MIMEPNG :: string where "MIMEPNG = ''image/png''"
definition MIMEWebP :: string where "MIMEWebP = ''image/webp''"

lemmas mime_defs = MIMEJPEG_def MIMEPNG_def MIMEWebP_def

record Info =
  info_MIME :: string
  info_Ext :: string
  info_Width :: int
  info_Height :: int

definition jpeg_magic :: string where "jpeg_magic = [CHR 0xFF, CHR 0xD8, CHR 0xFF]"
definition png_magic :: string where
  "png_magic = [CHR 0x89, CHR 0x50, CHR 0x4E, CHR 0x47, CHR 0x0D, CHR 0x0A, CHR 0x1A, CHR 0x0A]"

definition DetectMIME :: "string \<Rightarrow> string result" where
  "DetectMIME data =
    (if length data < 12 then Inl ErrInvalidFileFormat
     else if data ! 0 = CHR 0xFF \<and> data ! 1 = CHR 0xD8 \<and> data ! 2 = CHR 0xFF then Inr MIMEJPEG
     else if take 8 data = png_magic then Inr MIMEPNG
     else if take 4 data = ''RIFF'' \<and> take 4 (drop 8 data) = ''WEBP'' then Inr MIMEWebP
     else Inl ErrInvalidFileFormat)"

definition ExtForMIME :: "string \<Rightarrow> string" where
  "ExtForMIME mime =
    (if mime = MIMEJPEG then ''.jpg''
     else if mime = MIMEPNG then ''.png''
     else if mime = MIMEWebP then ''.webp''
     else [])"

definition FormatFromMIME :: "string \<Rightarrow> string" where
  "FormatFromMIME mime =
    (if mime = MIMEJPEG then ''jpeg''
     else if mime = MIMEPNG then ''png''
     else if mime = MIMEWebP then ''webp''
     else [])"

text \<open>Two's complement multiplication of Go's \<open>int\<close>.\<close>

definition wrap64 :: "int \<Rightarrow> int" where
  "wrap64 i = (i + 2 ^ 63) mod 2 ^ 64 - 2 ^ 63"

definition checkPixels :: "int \<Rightarrow> int \<Rightarrow> goerr option" where
  "checkPixels w h =
    (if w \<le> 0 \<or> h \<le> 0 then Some ErrInvalidImage
     else if w > MaxPixels \<or> h > MaxPixels \<or> wrap64 (w * h) > MaxPixels then Some ErrImageTooLarge
     else None)"

definition Inspect :: "'i codecs \<Rightarrow> string \<Rightarrow> Info result" where
  "Inspect c data =
    (case DetectMIME data of
       Inl err \<Rightarrow> Inl err
     | Inr mime \<Rightarrow>
         (case image_DecodeConfig c data of
            Inl _ \<Rightarrow> Inl ErrInvalidImage
          | Inr (w, h) \<Rightarrow>
              (case checkPixels w h of
                 Some err \<Rightarrow> Inl err
               | None \<Rightarrow> Inr \<lparr>info_MIME = mime, info_Ext = ExtForMIME mime,
                                info_Width = w, info_Height = h\<rparr>)))"

definition Decode :: "'i codecs \<Rightarrow> string \<Rightarrow> 'i result" where
  "Decode c data =
    (case image_DecodeConfig c data of
       Inl err \<Rightarrow> Inl (ErrWrap ''image'' ErrInvalidImage)
     | Inr (w, h) \<Rightarrow>
         (case checkPixels w h of
            Some err \<Rightarrow> Inl err
          | None \<Rightarrow>
              (case image_Decode c data of
                 Inl err \<Rightarrow> Inl (ErrWrap ''image'' ErrInvalidImage)
               | Inr img \<Rightarrow> Inr img)))"

definition Resize :: "'i codecs \<Rightarrow> 'i \<Rightarrow> int \<Rightarrow> int \<Rightarrow> 'i" where
  "Resize c src width height = imaging_Fill c src width height"

definition Encode :: "'i codecs \<Rightarrow> 'i \<Rightarrow> string \<Rightarrow> (string \<times> string) result" where
  "Encode c img format0 =
    (let format1 = TrimSpace (ToLower format0);
         format = (if format1 = ''jpg'' then ''jpeg'' else format1) in
     if format = ''jpeg'' \<or> format = [] then
       (case jpeg_Encode c img of Inl err \<Rightarrow> Inl err | Inr b \<Rightarrow> Inr (b, MIMEJPEG))
     else if format = ''png'' then
       (case png_Encode c img of Inl err \<Rightarrow> Inl err | Inr b \<Rightarrow> Inr (b, MIMEPNG))
     else if format = ''webp'' then
       (case webp_Encode c img of Inl err \<Rightarrow> Inl err | Inr b \<Rightarrow> Inr (b, MIMEWebP))
     else Inl ErrInvalidFormatParam)"

definition Convert :: "'i codecs \<Rightarrow> string \<Rightarrow> string \<Rightarrow> (string \<times> string) result" where
  "Convert c data format =
    (case Decode c data of
       Inl err \<Rightarrow> Inl err
     | Inr img \<Rightarrow> Encode c img format)"

definition MakeThumbnail :: "'i codecs \<Rightarrow> string \<Rightarrow> int \<Rightarrow> int \<Rightarrow> string \<Rightarrow> (string \<times> string) result" where
  "MakeThumbnail c data width height format =
    (case Decode c data of
       Inl err \<Rightarrow> Inl err
     | Inr img \<Rightarrow> Encode c (Resize c img width height) format)"

section \<open>The pixel limit\<close>

lemma wrap64_id: "- (2 ^ 63) \<le> i \<Longrightarrow> i < 2 ^ 63 \<Longrightarrow> wrap64 i = i"
  by (simp add: wrap64_def)

lemma checkPixels_None: "checkPixels w h = None \<longleftrightarrow> 0 < w \<and> 0 < h \<and> w * h \<le> 20000000"
proof (cases "0 < w \<and> 0 < h \<and> w \<le> MaxPixels \<and> h \<le> MaxPixels")
  case True
  then have "w * h \<le> MaxPixels * MaxPixels" by (intro mult_mono) (auto simp: MaxPixels_def)
  moreover have "0 < w * h" using True by simp
  ultimately have "wrap64 (w * h) = w * h" by (intro wrap64_id) (auto simp: MaxPixels_def)
  then show ?thesis using True by (auto simp: checkPixels_def MaxPixels_def)
next
  case False
  have "MaxPixels < w * h" if "0 < w" "0 < h" "MaxPixels < w \<or> MaxPixels < h"
  proof -
    have "w \<le> w * h" "h \<le> w * h" using that by (simp_all add: mult_le_cancel_left1 mult_le_cancel_right1)
    then show ?thesis using that(3) by linarith
  qed
  then show ?thesis using False
    by (cases "0 < w \<and> 0 < h") (auto simp: checkPixels_def MaxPixels_def)
qed

text \<open>
  C36. The pixel check is the one on the mathematical area: an image with a side that is not
  positive is invalid, one of more than twenty million pixels is too large, every other is
  accepted.  The guards on the single sides exclude every pair whose 64-bit product wraps around.
\<close>

theorem checkPixels_exact:
  "checkPixels w h =
    (if w \<le> 0 \<or> h \<le> 0 then Some ErrInvalidImage
     else if 20000000 < w * h then Some ErrImageTooLarge
     else None)"
proof (cases "0 < w \<and> 0 < h")
  case True
  then show ?thesis using checkPixels_None [of w h]
    by (cases "checkPixels w h") (auto simp: checkPixels_def split: if_splits)
qed (auto simp: checkPixels_def)

lemma checkPixels_permanent: "checkPixels w h = Some e \<Longrightarrow> IsPermanent e"
  by (auto simp: checkPixels_def IsPermanent_def split: if_splits)

section \<open>Formats\<close>

definition image_mimes :: "string set" where
  "image_mimes = {MIMEJPEG, MIMEPNG, MIMEWebP}"

lemma DetectMIME_mimes: "DetectMIME data = Inr mime \<Longrightarrow> mime \<in> image_mimes"
  by (auto simp: DetectMIME_def image_mimes_def split: if_splits)

lemma FormatFromMIME_canonical: "mime \<in> image_mimes \<Longrightarrow> TrimSpace (ToLower (FormatFromMIME mime)) = FormatFromMIME mime"
  by (intro canonical_fixed) (auto simp: image_mimes_def FormatFromMIME_def mime_defs canonical_eval)

lemma Encode_mime:
  "mime \<in> image_mimes \<Longrightarrow> Encode c img (FormatFromMIME mime) = Inr (b, m) \<Longrightarrow> m = mime"
  by (simp add: Encode_def Let_def FormatFromMIME_canonical)
    (auto simp: image_mimes_def FormatFromMIME_def mime_defs split: sum.splits)

lemma Encode_mimes: "Encode c img format = Inr (b, m) \<Longrightarrow> m \<in> image_mimes"
  by (auto simp: Encode_def Let_def image_mimes_def split: if_splits sum.splits)

lemma MakeThumbnail_mimes: "MakeThumbnail c data w h format = Inr (b, m) \<Longrightarrow> m \<in> image_mimes"
  by (auto simp: MakeThumbnail_def split: sum.splits dest: Encode_mimes)

lemma ExtForMIME_ends: "mime \<in> image_mimes \<Longrightarrow> ExtForMIME mime \<noteq> [] \<and> printable (last (ExtForMIME mime))
    \<and> CHR ''/'' \<notin> set (ExtForMIME mime)"
  by (auto simp: image_mimes_def ExtForMIME_def mime_defs printable_def)

lemma image_mimes_not_Nil: "mime \<in> image_mimes \<Longrightarrow> mime \<noteq> []"
  by (auto simp: image_mimes_def mime_defs)

lemma Inspect_Inr:
  assumes "Inspect c data = Inr info"
  shows "info_MIME info \<in> image_mimes" "info_Ext info = ExtForMIME (info_MIME info)"
    "0 < info_Width info" "0 < info_Height info" "DetectMIME data = Inr (info_MIME info)"
  using assms DetectMIME_mimes checkPixels_None
  by (auto simp: Inspect_def split: sum.splits prod.splits option.splits)

text \<open>
  C37. What \<open>Inspect\<close> accepts: the data is at least 12 bytes long and of one of the three formats,
  the extension is the format's, and the dimensions are within the pixel limit; and every error of
  \<open>Inspect\<close> is permanent, so the worker never retries on it.
\<close>

theorem Inspect_sound:
  "case Inspect c data of
     Inl err \<Rightarrow> IsPermanent err
   | Inr info \<Rightarrow> 12 \<le> length data \<and> DetectMIME data = Inr (info_MIME info)
       \<and> info_MIME info \<in> image_mimes \<and> info_Ext info = ExtForMIME (info_MIME info)
       \<and> image_DecodeConfig c data = Inr (info_Width info, info_Height info)
       \<and> 0 < info_Width info \<and> 0 < info_Height info
       \<and> info_Width info * info_Height info \<le> 20000000"
proof (cases "DetectMIME data")
  case (Inl e)
  then have "IsPermanent e" by (auto simp: DetectMIME_def IsPermanent_def split: if_splits)
  with Inl show ?thesis by (simp add: Inspect_def)
next
  case mime: (Inr mime)
  then have len: "12 \<le> length data" by (auto simp: DetectMIME_def split: if_splits)
  show ?thesis
  proof (cases "image_DecodeConfig c data")
    case (Inl e)
    with mime show ?thesis by (simp add: Inspect_def IsPermanent_def)
  next
    case (Inr wh)
    obtain w h where wh: "wh = (w, h)" by fastforce
    show ?thesis
      using mime Inr wh len checkPixels_None [of w h] checkPixels_permanent [of w h]
        DetectMIME_mimes [OF mime]
      by (cases "checkPixels w h") (simp_all add: Inspect_def)
  qed
qed

text \<open>
  A thumbnail made in the format of its original has the MIME type of the original, hence the
  same extension; and an error on the way is permanent unless an encoder made it.
\<close>

lemma MakeThumbnail_format:
  assumes "mime \<in> image_mimes"
  shows "case MakeThumbnail c data w h (FormatFromMIME mime) of
           Inr (body, m) \<Rightarrow> m = mime
         | Inl err \<Rightarrow> IsPermanent err \<or>
             (\<exists>img. jpeg_Encode c img = Inl err \<or> png_Encode c img = Inl err \<or> webp_Encode c img = Inl err)"
proof -
  have dec: "IsPermanent e" if "Decode c data = Inl e" for e
    using that checkPixels_permanent
    by (auto simp: Decode_def IsPermanent_def [of "ErrWrap m ErrInvalidImage" for m]
        split: sum.splits option.splits prod.splits)
  have enc: "\<exists>img. jpeg_Encode c img = Inl e \<or> png_Encode c img = Inl e \<or> webp_Encode c img = Inl e"
    if "Encode c img (FormatFromMIME mime) = Inl e" for img e
    using that assms by (simp add: Encode_def Let_def FormatFromMIME_canonical)
      (auto simp: image_mimes_def FormatFromMIME_def mime_defs split: sum.splits if_splits)
  show ?thesis
    using dec enc Encode_mime [OF assms]
    by (auto simp: MakeThumbnail_def split: sum.splits)
qed

text \<open>A toy set of codecs: every image is one pixel.\<close>

definition pixel_codecs :: "unit codecs" where
  "pixel_codecs = \<lparr>image_DecodeConfig = (\<lambda>_. Inr (1, 1)), image_Decode = (\<lambda>_. Inr ()),
     imaging_Fill = (\<lambda>i w h. i), jpeg_Encode = (\<lambda>_. Inr ''jpeg''), png_Encode = (\<lambda>_. Inr ''png''),
     webp_Encode = (\<lambda>_. Inr ''webp'')\<rparr>"

lemma MakeThumbnail_format_witness:
  "case MakeThumbnail pixel_codecs ''data'' 100 100 (FormatFromMIME MIMEPNG) of
     Inr (body, m) \<Rightarrow> m = MIMEPNG
   | Inl err \<Rightarrow> IsPermanent err \<or>
       (\<exists>img. jpeg_Encode pixel_codecs img = Inl err \<or> png_Encode pixel_codecs img = Inl err
          \<or> webp_Encode pixel_codecs img = Inl err)"
  by (rule MakeThumbnail_format) (simp add: image_mimes_def)

end
