(* ===== verification/Observability.thy ===== *)
theory Observability
  imports Domain
begin

text \<open>
  Package \<open>internal/observability\<close>.  The metrics (\<open>metrics.go\<close>) are calls into the Prometheus
  client; the model keeps the trace of these calls, one constructor per collector with the labels
  and the value the code passes.  Spans and log lines are in \<open>Tracing\<close>.
\<close>

datatype metric =
    UploadsTotal string
  | UploadDuration string
  | DeletesTotal string
  | ProcessedTotal string string
  | StorageUsage_Add int
  | StorageUsage_Sub int
  | OutboxUnpublished_Set int
  | KafkaMessages string string string
  | HTTPRequests string string string
  | HTTPDuration string string

definition StatusOK :: "goerr option \<Rightarrow> string" where
  "StatusOK err = (if err \<noteq> None then ''error'' else ''ok'')"

text \<open>The storage gauge, as the trace determines it.\<close>

definition storage_usage :: "metric list \<Rightarrow> int" where
  "storage_usage ms =
    sum_list (map (\<lambda>m. case m of StorageUsage_Add n \<Rightarrow> n | StorageUsage_Sub n \<Rightarrow> - n | _ \<Rightarrow> 0) ms)"

lemma storage_usage_simps [simp]:
  "storage_usage [] = 0"
  "storage_usage (ms @ ns) = storage_usage ms + storage_usage ns"
  by (simp_all add: storage_usage_def)

section \<open>Trace context in message headers (kafka.go)\<close>

text \<open>
  \<open>strings.EqualFold\<close> against a name made of ASCII characters (propagators use no others): the
  runes agree after simple folding.
\<close>

definition EqualFold :: "string \<Rightarrow> string \<Rightarrow> bool" where
  "EqualFold s t \<longleftrightarrow> map fold_rune (runes s) = map fold_rune (runes t)"

type_synonym header = "string \<times> string"

definition carrier_Get :: "header list \<Rightarrow> string \<Rightarrow> string" where
  "carrier_Get c key =
    (case find (\<lambda>h. EqualFold (fst h) key) c of None \<Rightarrow> [] | Some h \<Rightarrow> snd h)"

fun carrier_Set :: "header list \<Rightarrow> string \<Rightarrow> string \<Rightarrow> header list" where
  "carrier_Set [] key val = [(key, val)]"
| "carrier_Set (h # c) key val =
    (if EqualFold (fst h) key then (fst h, val) # c else h # carrier_Set c key val)"

definition carrier_Keys :: "header list \<Rightarrow> string list" where
  "carrier_Keys c = map fst c"

text \<open>The propagator sets a list of pairs that the context determines.\<close>

definition InjectKafka :: "(string \<times> string) list \<Rightarrow> header list \<Rightarrow> header list" where
  "InjectKafka pairs headers = fold (\<lambda>(k, v) c. carrier_Set c k v) pairs headers"

lemma EqualFold_refl [simp]: "EqualFold s s"
  by (simp add: EqualFold_def)

lemma EqualFold_sym: "EqualFold s t \<longleftrightarrow> EqualFold t s"
  by (auto simp: EqualFold_def)

lemma EqualFold_trans: "EqualFold s t \<Longrightarrow> EqualFold t u \<Longrightarrow> EqualFold s u"
  by (simp add: EqualFold_def)

lemma carrier_Get_Set: "carrier_Get (carrier_Set c k v) k' = (if EqualFold k k' then v else carrier_Get c k')"
  by (induction c) (auto simp: carrier_Get_def EqualFold_def)

definition no_dups :: "header list \<Rightarrow> bool" where
  "no_dups c \<longleftrightarrow> distinct (map (\<lambda>h. map fold_rune (runes (fst h))) c)"

lemma carrier_Set_keys:
  "map (\<lambda>h. map fold_rune (runes (fst h))) (carrier_Set c k v) =
   (let ks = map (\<lambda>h. map fold_rune (runes (fst h))) c; f = map fold_rune (runes k) in
    if f \<in> set ks then ks else ks @ [f])"
  by (induction c) (auto simp: Let_def EqualFold_def)

text \<open>
  The header carrier is a map whose keys are compared without case: \<open>Get\<close> after \<open>Set\<close> returns
  the value for every spelling of the key and leaves the other keys as they were, and \<open>Set\<close> never
  makes a second header of the same name.
\<close>

lemma carrier_is_a_map:
  "carrier_Get (carrier_Set c k v) k' = (if EqualFold k k' then v else carrier_Get c k')
   \<and> (no_dups (carrier_Set c k v) \<longleftrightarrow> no_dups c)"
  by (auto simp: carrier_Get_Set no_dups_def carrier_Set_keys Let_def)

end
