(* ===== verification/Interfaces.thy ===== *)
theory Interfaces
  imports Image_Util Observability
begin

text \<open>
  \<open>internal/services/deps.go\<close>: the three interfaces that the avatar service is written against, as
  records of operations on an abstract state, and what it uses of the packages outside the
  repository.  The locales state the contracts: for every operation what it does to the view of
  the state it works on, in the case of success and of an error.  An error never says whether the
  effect took place (the reply may be lost), so after an error both are possible.
\<close>

section \<open>The interfaces\<close>

record 's AvatarStore =
  CreateWithOutbox :: "Avatar \<Rightarrow> OutboxEvent \<Rightarrow> ('s, int result) op"
  GetByID :: "uuid \<Rightarrow> ('s, Avatar result) op"
  GetLatestByUserID :: "string \<Rightarrow> ('s, Avatar result) op"
  ListByUserID :: "string \<Rightarrow> ('s, Avatar list result) op"
  SoftDeleteOwnedWithOutbox :: "uuid \<Rightarrow> string \<Rightarrow> OutboxEvent \<Rightarrow> ('s, (Avatar \<times> int) result) op"
  MarkProcessing :: "uuid \<Rightarrow> ('s, bool result) op"
  CompleteProcessing :: "uuid \<Rightarrow> strmap option \<Rightarrow> int \<Rightarrow> int \<Rightarrow> ('s, goerr option) op"
  FailProcessing :: "uuid \<Rightarrow> ('s, goerr option) op"
  ListUnpublished :: "int \<Rightarrow> ('s, OutboxEvent list result) op"
  MarkOutboxPublished :: "int \<Rightarrow> ('s, goerr option) op"
  ListStuckUploads :: "int \<Rightarrow> ('s, Avatar list result) op"

record 's ObjectStore =
  os_Upload :: "string \<Rightarrow> string \<Rightarrow> string \<Rightarrow> ('s, goerr option) op"
  os_Download :: "string \<Rightarrow> ('s, (string \<times> string) result) op"
  os_Delete :: "string list \<Rightarrow> ('s, goerr option) op"

record 's EventPublisher =
  PublishUpload :: "AvatarUploadEvent \<Rightarrow> ('s, goerr option) op"
  PublishDelete :: "AvatarDeleteEvent \<Rightarrow> ('s, goerr option) op"

text \<open>
  Packages: the codecs, \<open>github.com/google/uuid\<close>, the clock, and the \<open>select\<close> between a timer and
  the cancellation of the context (\<open>Some err\<close>: the context is done).
\<close>

record ('s, 'i) packages =
  codecs :: "'i codecs"
  uuid_String :: "uuid \<Rightarrow> string"
  uuid_Parse :: "string \<Rightarrow> uuid result"
  uuid_New :: "('s, uuid) op"
  time_Now :: "('s, time) op"
  wait_or_done :: "int \<Rightarrow> ('s, goerr option) op"
  observe :: "metric \<Rightarrow> 's \<Rightarrow> 's"

section \<open>The contract of the store\<close>

text \<open>One call of any operation of the store.\<close>

inductive store_step :: "'s AvatarStore \<Rightarrow> 's \<Rightarrow> 's \<Rightarrow> bool" for st where
  step_create: "CreateWithOutbox st a ev s = (r1, t) \<Longrightarrow> store_step st s t"
| step_get: "GetByID st i s = (r2, t) \<Longrightarrow> store_step st s t"
| step_latest: "GetLatestByUserID st u s = (r3, t) \<Longrightarrow> store_step st s t"
| step_list: "ListByUserID st u s = (r4, t) \<Longrightarrow> store_step st s t"
| step_soft_delete: "SoftDeleteOwnedWithOutbox st i u ev s = (r5, t) \<Longrightarrow> store_step st s t"
| step_mark: "MarkProcessing st i s = (r6, t) \<Longrightarrow> store_step st s t"
| step_complete: "CompleteProcessing st i thumbs w h s = (r7, t) \<Longrightarrow> store_step st s t"
| step_fail: "FailProcessing st i s = (r8, t) \<Longrightarrow> store_step st s t"
| step_unpublished: "ListUnpublished st n s = (r9, t) \<Longrightarrow> store_step st s t"
| step_published: "MarkOutboxPublished st k s = (r10, t) \<Longrightarrow> store_step st s t"
| step_stuck: "ListStuckUploads st n s = (r11, t) \<Longrightarrow> store_step st s t"

text \<open>Identifiers short enough for their columns, so that the store keeps them as they are.\<close>

definition short_event :: "OutboxEvent \<Rightarrow> bool" where
  "short_event ev \<longleftrightarrow> length (oe_EventID ev) \<le> 255 \<and> length (oe_Kind ev) \<le> 50"

text \<open>What the store keeps of an avatar that is inserted or updated.\<close>

definition same_core :: "Avatar \<Rightarrow> Avatar \<Rightarrow> bool" where
  "same_core a b \<longleftrightarrow> av_ID a = av_ID b \<and> av_SizeBytes a = av_SizeBytes b \<and> av_CreatedAt a = av_CreatedAt b"

text \<open>
  The view of a store: \<open>used\<close> are the ids of all avatars it ever held, \<open>live\<close> maps an id to the avatar that is not deleted, \<open>events\<close> an event id to
  the kind and the payload of its outbox entry, and \<open>unpub\<close> lists the unpublished entries in the
  order of their ids.  \<open>ok\<close> is the store's own invariant and \<open>view\<close> is everything in the state that
  is not the store's.
\<close>

locale avatar_store =
  fixes st :: "'s AvatarStore"
    and ok :: "'s \<Rightarrow> bool"
    and used :: "'s \<Rightarrow> uuid set"
    and live :: "'s \<Rightarrow> uuid \<Rightarrow> Avatar option"
    and events :: "'s \<Rightarrow> string \<Rightarrow> (string \<times> json) option"
    and unpub :: "'s \<Rightarrow> OutboxEvent list"
    and view :: "'s \<Rightarrow> 'o"
  assumes ok_step: "store_step st s t \<Longrightarrow> ok s \<Longrightarrow> ok t"
    and used_step: "store_step st s t \<Longrightarrow> ok s \<Longrightarrow> used s \<subseteq> used t"
    and live_used: "ok s \<Longrightarrow> dom (live s) \<subseteq> used s"
    and view_step: "store_step st s t \<Longrightarrow> view t = view s"
    and get_law: "GetByID st i s = (r2, t) \<Longrightarrow> ok s \<Longrightarrow>
      live t = live s \<and> events t = events s \<and> unpub t = unpub s \<and>
      (\<forall>a. r2 = Inr a \<longrightarrow> live s i = Some a \<and> av_ID a = i) \<and>
      (\<forall>e. r2 = Inl e \<longrightarrow> errors_Is e ErrAvatarNotFound \<longrightarrow> live s i = None)"
    and latest_law: "GetLatestByUserID st u s = (r2, t) \<Longrightarrow> ok s \<Longrightarrow>
      live t = live s \<and> events t = events s \<and> unpub t = unpub s \<and>
      (\<forall>a. r2 = Inr a \<longrightarrow> live s (av_ID a) = Some a \<and> av_UserID a = u)"
    and list_law: "ListByUserID st u s = (r4, t) \<Longrightarrow> ok s \<Longrightarrow>
      live t = live s \<and> events t = events s \<and> unpub t = unpub s \<and>
      (\<forall>as. r4 = Inr as \<longrightarrow> set as = {a \<in> ran (live s). av_UserID a = u})"
    and create_law: "CreateWithOutbox st a ev s = (r1, t) \<Longrightarrow> ok s \<Longrightarrow> short_event ev \<Longrightarrow>
      (live t = live s \<and> events t = events s \<and> unpub t = unpub s \<and> (\<exists>e. r1 = Inl e)) \<or>
      (av_ID a \<notin> used s \<and> av_ID a \<in> used t \<and>
       (\<exists>a' p. same_core a a'
          \<and> (length (av_ProcessingStatus a) \<le> 50 \<longrightarrow> av_ProcessingStatus a' = av_ProcessingStatus a)
          \<and> (length (av_UserID a) \<le> 255 \<longrightarrow> av_UserID a' = av_UserID a)
          \<and> (length (av_S3Key a) \<le> 500 \<longrightarrow> av_S3Key a' = av_S3Key a)
          \<and> live t = (live s)(av_ID a \<mapsto> a')
          \<and> oe_Payload ev = Some p \<and> events t = (events s)(oe_EventID ev \<mapsto> (oe_Kind ev, p))) \<and>
       (events s (oe_EventID ev) = None \<longrightarrow> (\<exists>n. unpub t = unpub s @ [ev\<lparr>oe_ID := n\<rparr>])))"
    and soft_delete_law: "SoftDeleteOwnedWithOutbox st i u ev s = (r5, t) \<Longrightarrow> ok s \<Longrightarrow> short_event ev \<Longrightarrow>
      (live t = live s \<and> events t = events s \<and> unpub t = unpub s \<and> (\<exists>e. r5 = Inl e)) \<or>
      (\<exists>a p. live s i = Some a \<and> av_UserID a = u \<and> live t = (live s)(i := None)
         \<and> oe_Payload ev = Some p \<and> events t = (events s)(oe_EventID ev \<mapsto> (oe_Kind ev, p)) \<and>
       (events s (oe_EventID ev) = None \<longrightarrow> (\<exists>n. unpub t = unpub s @ [ev\<lparr>oe_ID := n\<rparr>])))"
    and unpublished_law: "ListUnpublished st n s = (r9, t) \<Longrightarrow> ok s \<Longrightarrow> 0 < n \<Longrightarrow>
      live t = live s \<and> events t = events s \<and> unpub t = unpub s \<and>
      (\<forall>items. r9 = Inr items \<longrightarrow> items = take (nat n) (unpub s))"
    and published_law: "MarkOutboxPublished st k s = (r10, t) \<Longrightarrow> ok s \<Longrightarrow>
      live t = live s \<and> events t = events s \<and>
      (unpub t = filter (\<lambda>e. oe_ID e \<noteq> k) (unpub s) \<or> r10 \<noteq> None \<and> unpub t = unpub s)"
    and mark_law: "MarkProcessing st i s = (r6, t) \<Longrightarrow> ok s \<Longrightarrow>
      events t = events s \<and> unpub t = unpub s \<and>
      (live t = live s \<and> r6 \<noteq> Inr True \<or>
       r6 \<noteq> Inr False \<and> (\<exists>a now. live s i = Some a \<and> av_ProcessingStatus a \<noteq> ProcessingCompleted \<and>
         live t = (live s)(i \<mapsto> a\<lparr>av_ProcessingStatus := ProcessingProcessing, av_UpdatedAt := now\<rparr>)))"
    and refused_law: "MarkProcessing st i s = (Inr False, t) \<Longrightarrow> ok s \<Longrightarrow> live s i = Some a \<Longrightarrow>
      av_ProcessingStatus a \<noteq> ProcessingPending"
    and complete_law: "CompleteProcessing st i (Some m) w h s = (r7, t) \<Longrightarrow> ok s \<Longrightarrow>
      events t = events s \<and> unpub t = unpub s \<and>
      (live t = live s \<and> r7 \<noteq> None \<or>
       (\<exists>a now. live s i = Some a \<and>
         live t = (live s)(i \<mapsto> a\<lparr>av_Width := (if w > 0 then w else av_Width a),
           av_Height := (if h > 0 then h else av_Height a),
           av_ThumbnailS3Keys := ParseThumbnailKeys (Some (Some (ThumbnailKeysJSON (Some m)))),
           av_UploadStatus := UploadStatusStored, av_ProcessingStatus := ProcessingCompleted,
           av_UpdatedAt := now\<rparr>)))"
    and fail_law: "FailProcessing st i s = (r8, t) \<Longrightarrow> ok s \<Longrightarrow>
      events t = events s \<and> unpub t = unpub s \<and>
      (live t = live s \<or>
       (\<exists>a now. live s i = Some a \<and>
         live t = (live s)(i \<mapsto> a\<lparr>av_ProcessingStatus := ProcessingFailed, av_UpdatedAt := now\<rparr>)))"
    and stuck_law: "ListStuckUploads st n s = (r4, t) \<Longrightarrow> ok s \<Longrightarrow> 0 < n \<Longrightarrow>
      live t = live s \<and> events t = events s \<and> unpub t = unpub s \<and>
      (\<forall>as. r4 = Inr as \<longrightarrow>
        (\<forall>a \<in> set as. live s (av_ID a) = Some a \<and> av_ProcessingStatus a \<noteq> ProcessingCompleted))"
    and unpub_events: "ok s \<Longrightarrow> ev \<in> set (unpub s) \<Longrightarrow>
      \<exists>p. oe_Payload ev = Some p \<and> events s (oe_EventID ev) = Some (oe_Kind ev, p)"
    and unpub_ids: "ok s \<Longrightarrow> distinct (map oe_ID (unpub s)) \<and> distinct (map oe_EventID (unpub s))"

section \<open>The contracts of the object store and the publisher\<close>

definition real_keys :: "string list \<Rightarrow> string set" where
  "real_keys keys = {k. k \<noteq> [] \<and> k \<in> TrimSpace ` set keys}"

locale object_store =
  fixes ob :: "'s ObjectStore"
    and blobs :: "'s \<Rightarrow> string \<Rightarrow> (string \<times> string) option"
    and view :: "'s \<Rightarrow> 'o"
  assumes upload_law: "os_Upload ob k ct d s = (r, t) \<Longrightarrow> ct \<noteq> [] \<Longrightarrow>
      view t = view s \<and> (blobs t = (blobs s)(k \<mapsto> (ct, d)) \<or> r \<noteq> None \<and> blobs t = blobs s)"
    and download_law: "os_Download ob k s = (r', t) \<Longrightarrow>
      view t = view s \<and> blobs t = blobs s \<and> (\<forall>d ct. r' = Inr (d, ct) \<longrightarrow> blobs s k = Some (ct, d))"
    and delete_law: "os_Delete ob ks s = (r, t) \<Longrightarrow>
      view t = view s \<and>
      (\<exists>K \<subseteq> real_keys ks. blobs t = blobs s |` (- K) \<and> (r = None \<longrightarrow> K = real_keys ks))"

locale event_publisher =
  fixes pb :: "'s EventPublisher"
    and ulog :: "'s \<Rightarrow> document list"
    and dlog :: "'s \<Rightarrow> document list"
    and view :: "'s \<Rightarrow> 'o"
  assumes publish_upload_law: "PublishUpload pb ue s = (r, t) \<Longrightarrow>
      view t = view s \<and> dlog t = dlog s \<and>
      (ulog t = ulog s @ [Some (marshal_upload ue)] \<or> r \<noteq> None \<and> ulog t = ulog s)"
    and publish_delete_law: "PublishDelete pb de s = (r, t) \<Longrightarrow>
      view t = view s \<and> ulog t = ulog s \<and>
      (dlog t = dlog s @ [Some (marshal_delete de)] \<or> r \<noteq> None \<and> dlog t = dlog s)"

section \<open>Other frames\<close>

text \<open>A contract holds for every part of the state that its frame determines.\<close>

lemma avatar_store_frame:
  assumes "avatar_store st ok used live events unpub v" "\<And>s t. v t = v s \<Longrightarrow> v' t = v' s"
  shows "avatar_store st ok used live events unpub v'"
proof -
  have frame: "store_step st s t \<Longrightarrow> v' t = v' s" for s t
    using avatar_store.view_step [OF assms(1)] assms(2) by blast
  note laws = avatar_store.ok_step avatar_store.used_step avatar_store.live_used avatar_store.get_law
    avatar_store.latest_law avatar_store.list_law avatar_store.create_law avatar_store.soft_delete_law
    avatar_store.unpublished_law avatar_store.published_law avatar_store.mark_law avatar_store.refused_law
    avatar_store.complete_law avatar_store.fail_law avatar_store.stuck_law avatar_store.unpub_events
    avatar_store.unpub_ids
  show ?thesis
    by (rule avatar_store.intro; (erule frame | rule laws [OF assms(1)]; assumption))
qed

lemma object_store_frame:
  assumes "object_store ob blobs v" "\<And>s t. v t = v s \<Longrightarrow> v' t = v' s"
  shows "object_store ob blobs v'"
proof (rule object_store.intro)
  show "v' t = v' s \<and> (blobs t = (blobs s)(k \<mapsto> (ct, d)) \<or> r \<noteq> None \<and> blobs t = blobs s)"
    if "os_Upload ob k ct d s = (r, t)" "ct \<noteq> []" for k ct d s r t
    using object_store.upload_law [OF assms(1) that] assms(2) by blast
  show "v' t = v' s \<and> blobs t = blobs s \<and> (\<forall>d ct. r' = Inr (d, ct) \<longrightarrow> blobs s k = Some (ct, d))"
    if "os_Download ob k s = (r', t)" for k s r' t
    using object_store.download_law [OF assms(1) that] assms(2) by blast
  show "v' t = v' s \<and> (\<exists>K \<subseteq> real_keys ks. blobs t = blobs s |` (- K) \<and> (r = None \<longrightarrow> K = real_keys ks))"
    if "os_Delete ob ks s = (r, t)" for ks s r t
    using object_store.delete_law [OF assms(1) that] assms(2) by blast
qed

lemma event_publisher_frame:
  assumes "event_publisher pb ulog dlog v" "\<And>s t. v t = v s \<Longrightarrow> v' t = v' s"
  shows "event_publisher pb ulog dlog v'"
proof (rule event_publisher.intro)
  show "v' t = v' s \<and> dlog t = dlog s \<and> (ulog t = ulog s @ [Some (marshal_upload ue)] \<or> r \<noteq> None \<and> ulog t = ulog s)"
    if "PublishUpload pb ue s = (r, t)" for ue s r t
    using event_publisher.publish_upload_law [OF assms(1) that] assms(2) by blast
  show "v' t = v' s \<and> ulog t = ulog s \<and> (dlog t = dlog s @ [Some (marshal_delete de)] \<or> r \<noteq> None \<and> dlog t = dlog s)"
    if "PublishDelete pb de s = (r, t)" for de s r t
    using event_publisher.publish_delete_law [OF assms(1) that] assms(2) by blast
qed

end
