(* ===== verification/Sha256.thy ===== *)
theory Sha256
  imports Go_Strings "HOL-Library.Word"
begin

text \<open>
  \<open>sha256.Sum256\<close> and \<open>hex.EncodeToString\<close> of Go's standard library, which
  \<open>internal/services/avatar.go\<close> uses to make the ETag of an image: SHA-256 (FIPS 180-4) on 32-bit
  words, and lower-case hexadecimal text.
\<close>

unbundle bit_operations_syntax

type_synonym w32 = "32 word"

text \<open>
  The constants of the standard are the leading 32 bits of the fractional parts of the cube roots
  (round constants) and square roots (initial state) of the first primes.  \<open>root_bits n k x r\<close>
  extends \<open>r\<close>, bit by bit from bit \<open>n\<close> down, to the largest number whose power \<open>k\<close> is at most \<open>x\<close>.
\<close>

fun root_bits :: "nat \<Rightarrow> nat \<Rightarrow> int \<Rightarrow> int \<Rightarrow> int" where
  "root_bits 0 k x r = r"
| "root_bits (Suc n) k x r = root_bits n k x (if (r + 2 ^ n) ^ k \<le> x then r + 2 ^ n else r)"

definition root_fraction :: "nat \<Rightarrow> int \<Rightarrow> w32" where
  "root_fraction k p = word_of_int (root_bits 40 k (p * 2 ^ (32 * k)) 0)"

definition first_primes :: "int list" where
  "first_primes = filter (\<lambda>p. list_all (\<lambda>d. p mod d \<noteq> 0) [2..p - 1]) [2..311]"

definition sha_K :: "w32 list" where
  "sha_K = map (root_fraction 3) first_primes"

definition sha_H0 :: "w32 list" where
  "sha_H0 = map (root_fraction 2) [2, 3, 5, 7, 11, 13, 17, 19]"

definition rotr :: "nat \<Rightarrow> w32 \<Rightarrow> w32" where
  "rotr n x = word_rotr n x"

definition small_sigma0 :: "w32 \<Rightarrow> w32" where
  "small_sigma0 x = rotr 7 x XOR rotr 18 x XOR drop_bit 3 x"

definition small_sigma1 :: "w32 \<Rightarrow> w32" where
  "small_sigma1 x = rotr 17 x XOR rotr 19 x XOR drop_bit 10 x"

definition big_sigma0 :: "w32 \<Rightarrow> w32" where
  "big_sigma0 x = rotr 2 x XOR rotr 13 x XOR rotr 22 x"

definition big_sigma1 :: "w32 \<Rightarrow> w32" where
  "big_sigma1 x = rotr 6 x XOR rotr 11 x XOR rotr 25 x"

text \<open>The message schedule, latest word first: \<open>n\<close> words are added to the sixteen of the block.\<close>

fun extend_schedule :: "nat \<Rightarrow> w32 list \<Rightarrow> w32 list" where
  "extend_schedule 0 ws = ws"
| "extend_schedule (Suc n) ws =
     extend_schedule n
       ((small_sigma1 (ws ! 1) + ws ! 6 + small_sigma0 (ws ! 14) + ws ! 15) # ws)"

fun sha_round :: "w32 list \<Rightarrow> w32 \<times> w32 \<Rightarrow> w32 list" where
  "sha_round [a, b, c, d, e, f, g, h] (k, w) =
    (let t1 = h + big_sigma1 e + ((e AND f) XOR (NOT e AND g)) + k + w;
         t2 = big_sigma0 a + ((a AND b) XOR (a AND c) XOR (b AND c))
     in [t1 + t2, a, b, c, d + t1, e, f, g])"
| "sha_round st kw = st"

definition sha_block :: "w32 list \<Rightarrow> w32 list \<Rightarrow> w32 list" where
  "sha_block st block =
    (let ws = rev (extend_schedule 48 (rev block))
     in map2 (+) st (foldl sha_round st (zip sha_K ws)))"

fun be_word :: "string \<Rightarrow> w32" where
  "be_word s = foldl (\<lambda>w c. push_bit 8 w OR of_char c) 0 s"

definition be_bytes :: "nat \<Rightarrow> 'a::len word \<Rightarrow> string" where
  "be_bytes n w = map (\<lambda>i. char_of (unat (take_bit 8 (drop_bit (8 * i) w)))) (rev [0..<n])"

function chunks :: "nat \<Rightarrow> string \<Rightarrow> string list" where
  "chunks n s = (if n = 0 \<or> s = [] then [] else take n s # chunks n (drop n s))"
  by pat_completeness auto
termination
  by (relation "measure (\<lambda>(n, s). length s)") auto

declare chunks.simps [simp del]

definition sha_pad :: "string \<Rightarrow> string" where
  "sha_pad s = s @ CHR 0x80 # replicate ((119 - length s mod 64) mod 64) CHR 0x00
     @ be_bytes 8 (word_of_nat (8 * length s) :: 64 word)"

definition Sum256 :: "string \<Rightarrow> string" where
  "Sum256 s = concat (map (\<lambda>w. be_bytes 4 w)
     (foldl (\<lambda>st b. sha_block st (map be_word (chunks 4 b))) sha_H0 (chunks 64 (sha_pad s))))"

definition hex_digit :: "nat \<Rightarrow> char" where
  "hex_digit n = ''0123456789abcdef'' ! (n mod 16)"

definition EncodeToString :: "string \<Rightarrow> string" where
  "EncodeToString s = concat (map (\<lambda>c. [hex_digit (of_char c div 16), hex_digit (of_char c)]) s)"

section \<open>Shape of the digest\<close>

lemma length_be_bytes [simp]: "length (be_bytes n x) = n"
  by (simp add: be_bytes_def)

lemma sha_pad_blocks: "length (sha_pad s) mod 64 = 0"
proof -
  let ?r = "length s mod 64"
  have "length (sha_pad s) mod 64 = (length s + (119 - ?r) mod 64 + 9) mod 64"
    by (simp add: sha_pad_def ac_simps)
  also have "\<dots> = (?r + (119 - ?r) + 9) mod 64"
  proof -
    have "(a + x mod 64) mod 64 = (a mod 64 + x) mod 64" for a x :: nat
      by (simp only: mod_add_left_eq mod_add_right_eq)
    from this [of "length s" "119 - ?r"] show ?thesis by (rule mod_add_cong) simp
  qed
  also have "?r + (119 - ?r) = 119"
    using mod_less_divisor [of 64 "length s"] by linarith
  finally show ?thesis by simp
qed

lemma length_sha_round: "length st = 8 \<Longrightarrow> length (sha_round st kw) = 8"
  by (cases "(st, kw)" rule: sha_round.cases) (auto simp: Let_def)

lemma length_foldl: "(\<And>st x. length st = n \<Longrightarrow> length (f st x) = n) \<Longrightarrow> length st = n \<Longrightarrow> length (foldl f st xs) = n"
  by (induction xs arbitrary: st) auto

lemma length_sha_block: "length st = 8 \<Longrightarrow> length (sha_block st b) = 8"
  using length_foldl [of 8 sha_round st] by (simp add: sha_block_def Let_def length_sha_round)

lemma length_Sum256 [simp]: "length (Sum256 s) = 32"
proof -
  let ?ws = "foldl (\<lambda>st b. sha_block st (map be_word (chunks 4 b))) sha_H0 (chunks 64 (sha_pad s))"
  have "length ?ws = 8"
    by (rule length_foldl) (simp_all add: length_sha_block sha_H0_def)
  moreover have "length (concat (map (\<lambda>w. be_bytes 4 w) ws)) = 4 * length ws" for ws :: "w32 list"
    by (induction ws) auto
  ultimately show ?thesis by (simp add: Sum256_def)
qed

lemma length_EncodeToString [simp]: "length (EncodeToString s) = 2 * length s"
  by (induction s) (auto simp: EncodeToString_def)

end
