(* ===== verification/Avatar_Service.thy ===== *)
theory Avatar_Service
  imports Interfaces Sha256
begin

text \<open>
  \<open>internal/services/avatar.go\<close>: the avatar service.  Every method is a definition over the record
  \<open>AvatarService\<close> (the Go struct: the three interfaces, the public URL, the size limit), the
  packages and the state; errors are returned where the code returns them.
\<close>

record 's AvatarService =
  svc_repo :: "'s AvatarStore"
  svc_objects :: "'s ObjectStore"
  svc_publisher :: "'s EventPublisher"
  svc_publicURL :: string
  svc_maxBytes :: int

definition NewAvatarService ::
    "'s AvatarStore \<Rightarrow> 's ObjectStore \<Rightarrow> 's EventPublisher \<Rightarrow> string \<Rightarrow> int \<Rightarrow> 's AvatarService" where
  "NewAvatarService r o' p publicURL maxBytes =
    \<lparr>svc_repo = r, svc_objects = o', svc_publisher = p,
     svc_publicURL = TrimRight publicURL ''/'',
     svc_maxBytes = (if maxBytes \<le> 0 then MaxFileSize else maxBytes)\<rparr>"

section \<open>Upload\<close>

definition sanitizeFileName :: "string \<Rightarrow> string \<Rightarrow> string" where
  "sanitizeFileName name0 ext =
    (let name = ReplaceByte (Base (TrimSpace name0)) (CHR 0x5C) (CHR ''_'') in
     if name = [] \<or> name = ''.'' \<or> name = ''..'' then ''avatar'' @ ext
     else if length name > 255 then take 255 name
     else name)"

text \<open>\<open>json.Marshal\<close> of the two event structs does not fail, so neither does \<open>newOutboxEvent\<close>.\<close>

definition newOutboxEvent :: "string \<Rightarrow> string \<Rightarrow> json \<Rightarrow> OutboxEvent result" where
  "newOutboxEvent kind eventID payload =
    Inr \<lparr>oe_ID = 0, oe_EventID = eventID, oe_Kind = kind, oe_Payload = Some payload\<rparr>"

definition upload ::
    "('s, 'i) packages \<Rightarrow> 's AvatarService \<Rightarrow> string \<Rightarrow> string \<Rightarrow> string \<Rightarrow> ('s, Avatar result) op" where
  "upload P svc userID fileName data s =
    (case ValidateUserID userID of
       Some err \<Rightarrow> (Inl err, s)
     | None \<Rightarrow>
    if data = [] then (Inl ErrFileRequired, s)
    else if int (length data) > svc_maxBytes svc then (Inl ErrFileTooLarge, s)
    else
    (case Inspect (codecs P) data of
       Inl err \<Rightarrow> (Inl err, s)
     | Inr info \<Rightarrow>
    (case time_Now P s of (now, s) \<Rightarrow>
    (case uuid_New P s of (aid, s) \<Rightarrow>
    let key = OriginalObjectKey userID (uuid_String P aid) (info_Ext info);
        avatar = \<lparr>av_ID = aid, av_UserID = userID,
                  av_FileName = sanitizeFileName fileName (info_Ext info),
                  av_MimeType = info_MIME info, av_SizeBytes = int (length data),
                  av_Width = info_Width info, av_Height = info_Height info,
                  av_S3Key = key, av_ThumbnailS3Keys = Some [],
                  av_UploadStatus = UploadStatusStored, av_ProcessingStatus = ProcessingPending,
                  av_CreatedAt = now, av_UpdatedAt = now, av_DeletedAt = None\<rparr>
    in
    (case os_Upload (svc_objects svc) key (info_MIME info) data s of
       (Some err, s) \<Rightarrow> (Inl err, s)
     | (None, s) \<Rightarrow>
    let event = \<lparr>ue_EventID = UploadEventID (uuid_String P aid), ue_AvatarID = uuid_String P aid,
                 ue_UserID = userID, ue_S3Key = key\<rparr>
    in
    (case newOutboxEvent OutboxUpload (ue_EventID event) (marshal_upload event) of
       Inl err \<Rightarrow> (case os_Delete (svc_objects svc) [key] s of (_, s) \<Rightarrow> (Inl err, s))
     | Inr ev \<Rightarrow>
    (case CreateWithOutbox (svc_repo svc) avatar ev s of
       (Inl err, s) \<Rightarrow> (case os_Delete (svc_objects svc) [key] s of (_, s) \<Rightarrow> (Inl err, s))
     | (Inr _, s) \<Rightarrow> (Inr avatar, s))))))))"

definition err_of :: "'a result \<Rightarrow> goerr option" where
  "err_of r = (case r of Inl e \<Rightarrow> Some e | Inr _ \<Rightarrow> None)"

lemma err_of_simps [simp]: "err_of (Inl e) = Some e" "err_of (Inr x) = None"
  by (simp_all add: err_of_def)

definition Upload ::
    "('s, 'i) packages \<Rightarrow> 's AvatarService \<Rightarrow> string \<Rightarrow> string \<Rightarrow> string \<Rightarrow> ('s, Avatar result) op" where
  "Upload P svc userID fileName data s =
    (case upload P svc userID fileName data s of (r, s) \<Rightarrow>
     let status = StatusOK (err_of r);
         s = observe P (UploadDuration status) (observe P (UploadsTotal status) s) in
     (case r of
        Inl err \<Rightarrow> (Inl err, s)
      | Inr avatar \<Rightarrow> (Inr avatar, observe P (StorageUsage_Add (av_SizeBytes avatar)) s)))"

section \<open>Reading\<close>

definition Get :: "'s AvatarService \<Rightarrow> uuid \<Rightarrow> ('s, Avatar result) op" where
  "Get svc aid = GetByID (svc_repo svc) aid"

definition GetLatest :: "'s AvatarService \<Rightarrow> string \<Rightarrow> ('s, Avatar result) op" where
  "GetLatest svc userID s =
    (case ValidateUserID userID of
       Some err \<Rightarrow> (Inl err, s)
     | None \<Rightarrow> GetLatestByUserID (svc_repo svc) userID s)"

definition List_svc :: "'s AvatarService \<Rightarrow> string \<Rightarrow> ('s, Avatar list result) op" where
  "List_svc svc userID s =
    (case ValidateUserID userID of
       Some err \<Rightarrow> (Inl err, s)
     | None \<Rightarrow> ListByUserID (svc_repo svc) userID s)"

section \<open>Deletion\<close>

text \<open>
  Go ranges over the map of thumbnails in an order that is not specified, here it is that of the list; the
  properties only speak of the set of the keys.
\<close>

definition deleteOutboxEvent :: "('s, 'i) packages \<Rightarrow> Avatar \<Rightarrow> OutboxEvent result" where
  "deleteOutboxEvent P a =
    (let thumbs = (case av_ThumbnailS3Keys a of None \<Rightarrow> [] | Some m \<Rightarrow> map snd m);
         keys = av_S3Key a # filter (\<lambda>k. k \<noteq> []) thumbs;
         event = \<lparr>de_EventID = DeleteEventID (uuid_String P (av_ID a)),
                  de_AvatarID = uuid_String P (av_ID a), de_S3Keys = keys\<rparr>
     in newOutboxEvent OutboxDelete (de_EventID event) (marshal_delete event))"

definition delete ::
    "('s, 'i) packages \<Rightarrow> 's AvatarService \<Rightarrow> uuid \<Rightarrow> string \<Rightarrow> ('s, goerr option) op" where
  "delete P svc aid userID s =
    (case ValidateUserID userID of
       Some err \<Rightarrow> (Some err, s)
     | None \<Rightarrow>
    (case GetByID (svc_repo svc) aid s of
       (Inl err, s) \<Rightarrow> (Some err, s)
     | (Inr existing, s) \<Rightarrow>
    if av_UserID existing \<noteq> userID then (Some ErrForbidden, s)
    else
    (case deleteOutboxEvent P existing of
       Inl err \<Rightarrow> (Some err, s)
     | Inr ev \<Rightarrow>
    (case SoftDeleteOwnedWithOutbox (svc_repo svc) aid userID ev s of
       (Inl err, s) \<Rightarrow> (Some err, s)
     | (Inr _, s) \<Rightarrow> (None, observe P (StorageUsage_Sub (av_SizeBytes existing)) s)))))"

definition Delete ::
    "('s, 'i) packages \<Rightarrow> 's AvatarService \<Rightarrow> uuid \<Rightarrow> string \<Rightarrow> ('s, goerr option) op" where
  "Delete P svc aid userID s =
    (case delete P svc aid userID s of (err, s) \<Rightarrow> (err, observe P (DeletesTotal (StatusOK err)) s))"

definition DeleteLatest ::
    "('s, 'i) packages \<Rightarrow> 's AvatarService \<Rightarrow> string \<Rightarrow> ('s, goerr option) op" where
  "DeleteLatest P svc userID s =
    (case ValidateUserID userID of
       Some err \<Rightarrow> (Some err, s)
     | None \<Rightarrow>
    (case GetLatestByUserID (svc_repo svc) userID s of
       (Inl err, s) \<Rightarrow> (Some err, s)
     | (Inr current, s) \<Rightarrow> Delete P svc (av_ID current) userID s))"

section \<open>Outbox and recovery\<close>

definition publishKind :: "'s AvatarService \<Rightarrow> string \<Rightarrow> document \<Rightarrow> ('s, goerr option) op" where
  "publishKind svc kind body s =
    (if kind = OutboxUpload then
       (case unmarshal_upload body of
          Inl err \<Rightarrow> (Some err, s)
        | Inr event \<Rightarrow> PublishUpload (svc_publisher svc) event s)
     else if kind = OutboxDelete then
       (case unmarshal_delete body of
          Inl err \<Rightarrow> (Some err, s)
        | Inr event \<Rightarrow> PublishDelete (svc_publisher svc) event s)
     else (Some (ErrText (''unknown outbox kind '' @ kind)), s))"

text \<open>
  The retry loop: \<open>n\<close> attempts are left, the next pause is \<open>backoff\<close> milliseconds, \<open>lasterr\<close> is the
  error so far.
\<close>

fun publish_attempts ::
    "(int \<Rightarrow> ('s, goerr option) op) \<Rightarrow> nat \<Rightarrow> int \<Rightarrow> ('s, goerr option) op \<Rightarrow> goerr option
     \<Rightarrow> ('s, goerr option) op" where
  "publish_attempts wait 0 backoff fn lasterr s = (lasterr, s)"
| "publish_attempts wait (Suc n) backoff fn lasterr s =
    (case fn s of
       (None, s) \<Rightarrow> (None, s)
     | (Some err, s) \<Rightarrow>
         if n = 0 then (Some err, s)
         else (case wait backoff s of
                 (Some done, s) \<Rightarrow> (Some done, s)
               | (None, s) \<Rightarrow> publish_attempts wait n (backoff * 2) fn (Some err) s))"

definition publishWithRetry ::
    "('s, 'i) packages \<Rightarrow> nat \<Rightarrow> ('s, goerr option) op \<Rightarrow> ('s, goerr option) op" where
  "publishWithRetry P attempts fn s = publish_attempts (wait_or_done P) attempts 100 fn None s"

definition flush_item ::
    "('s, 'i) packages \<Rightarrow> 's AvatarService \<Rightarrow> OutboxEvent \<Rightarrow> ('s, goerr option) op" where
  "flush_item P svc item s =
    (case publishWithRetry P 3 (publishKind svc (oe_Kind item) (oe_Payload item)) s of
       (Some err, s) \<Rightarrow> (Some err, s)
     | (None, s) \<Rightarrow> MarkOutboxPublished (svc_repo svc) (oe_ID item) s)"

definition FlushOutbox :: "('s, 'i) packages \<Rightarrow> 's AvatarService \<Rightarrow> ('s, goerr option) op" where
  "FlushOutbox P svc s =
    (case ListUnpublished (svc_repo svc) 50 s of
       (Inl err, s) \<Rightarrow> (Some err, s)
     | (Inr items, s) \<Rightarrow>
         for_first (flush_item P svc) items None
           (observe P (OutboxUnpublished_Set (int (length items))) s))"

section \<open>Serving an image\<close>

record ImagePayload =
  ip_Data :: string
  ip_ContentType :: string
  ip_ETag :: string

definition etag :: "('s, 'i) packages \<Rightarrow> Avatar \<Rightarrow> string \<Rightarrow> string \<Rightarrow> string \<Rightarrow> string" where
  "etag P avatar sz format data =
    ''\"'' @ EncodeToString (take 8 (Sum256
       (uuid_String P (av_ID avatar) @ ''|'' @ sz @ ''|'' @ format @ ''|'' @ data))) @ ''\"''"

definition FetchImage ::
    "('s, 'i) packages \<Rightarrow> 's AvatarService \<Rightarrow> Avatar \<Rightarrow> string \<Rightarrow> string \<Rightarrow> ('s, ImagePayload result) op" where
  "FetchImage P svc avatar size0 format0 s =
    (case NormalizeSize size0 of
       Inl err \<Rightarrow> (Inl err, s)
     | Inr sz \<Rightarrow>
    (case NormalizeFormat format0 of
       Inl err \<Rightarrow> (Inl err, s)
     | Inr format \<Rightarrow>
    let key = (if sz \<noteq> SizeOriginal then
                 (case ThumbnailKey avatar sz of (thumb, ok) \<Rightarrow> if ok then thumb else av_S3Key avatar)
               else av_S3Key avatar)
    in
    (case os_Download (svc_objects svc) key s of
       (Inl err, s) \<Rightarrow> (Inl err, s)
     | (Inr (data, contentType), s) \<Rightarrow>
    let current0 = FormatFromMIME contentType;
        current = (if current0 = [] then FormatFromMIME (av_MimeType avatar) else current0)
    in
    (case (if format \<noteq> [] \<and> format \<noteq> current then Convert (codecs P) data format
           else Inr (data, if contentType = [] then av_MimeType avatar else contentType)) of
       Inl convErr \<Rightarrow> (Inl convErr, s)
     | Inr (data, contentType) \<Rightarrow>
         (Inr \<lparr>ip_Data = data, ip_ContentType = contentType,
               ip_ETag = etag P avatar sz format data\<rparr>, s)))))"

definition PublicURL :: "('s, 'i) packages \<Rightarrow> 's AvatarService \<Rightarrow> uuid \<Rightarrow> string \<Rightarrow> string" where
  "PublicURL P svc aid sz =
    (let u = svc_publicURL svc @ ''/api/v1/avatars/'' @ uuid_String P aid
     in if sz \<noteq> [] \<and> sz \<noteq> SizeOriginal then u @ ''?size='' @ sz else u)"

section \<open>Processing\<close>

definition thumb_specs :: "(string \<times> int \<times> int) list" where
  "thumb_specs = [(Size100, 100, 100), (Size300, 300, 300)]"

fun make_thumbs ::
    "('s, 'i) packages \<Rightarrow> 's AvatarService \<Rightarrow> uuid \<Rightarrow> string \<Rightarrow> string \<Rightarrow> string
     \<Rightarrow> (string \<times> int \<times> int) list \<Rightarrow> strmap \<Rightarrow> ('s, strmap result) op" where
  "make_thumbs P svc aid avatarID data mime0 [] thumbs s = (Inr thumbs, s)"
| "make_thumbs P svc aid avatarID data mime0 ((sz, w, h) # specs) thumbs s =
    (case MakeThumbnail (codecs P) data w h (FormatFromMIME mime0) of
       Inl err \<Rightarrow> (case FailProcessing (svc_repo svc) aid s of (_, s) \<Rightarrow> (Inl err, s))
     | Inr (body, mime) \<Rightarrow>
         let key = ThumbnailObjectKey avatarID sz (ExtForMIME mime) in
         (case os_Upload (svc_objects svc) key mime body s of
            (Some err, s) \<Rightarrow> (case FailProcessing (svc_repo svc) aid s of (_, s) \<Rightarrow> (Inl err, s))
          | (None, s) \<Rightarrow>
              make_thumbs P svc aid avatarID data mime0 specs (AList.update sz key thumbs) s))"

definition processUpload ::
    "('s, 'i) packages \<Rightarrow> 's AvatarService \<Rightarrow> AvatarUploadEvent \<Rightarrow> ('s, goerr option) op" where
  "processUpload P svc event s =
    (case uuid_Parse P (ue_AvatarID event) of
       Inl err \<Rightarrow> (Permanent (Some (ErrWrap ''invalid avatar_id'' err)), s)
     | Inr aid \<Rightarrow>
    (case GetByID (svc_repo svc) aid s of
       (Inl err, s) \<Rightarrow> if errors_Is err ErrAvatarNotFound then (None, s) else (Some err, s)
     | (Inr avatar, s) \<Rightarrow>
    if av_ProcessingStatus avatar = ProcessingCompleted then (None, s)
    else
    let s3key = (if ue_S3Key event = [] then av_S3Key avatar else ue_S3Key event) in
    (case MarkProcessing (svc_repo svc) aid s of
       (Inl err, s) \<Rightarrow> (Some err, s)
     | (Inr ok, s) \<Rightarrow>
    if \<not> ok then (None, s)
    else
    (case os_Download (svc_objects svc) s3key s of
       (Inl err, s) \<Rightarrow> (case FailProcessing (svc_repo svc) aid s of (_, s) \<Rightarrow> (Some err, s))
     | (Inr (data, _), s) \<Rightarrow>
    (case Inspect (codecs P) data of
       Inl err \<Rightarrow> (case FailProcessing (svc_repo svc) aid s of (_, s) \<Rightarrow> (None, s))
     | Inr info \<Rightarrow>
    (case make_thumbs P svc aid (ue_AvatarID event) data (info_MIME info) thumb_specs [] s of
       (Inl err, s) \<Rightarrow> (Some err, s)
     | (Inr thumbs, s) \<Rightarrow>
         CompleteProcessing (svc_repo svc) aid (Some thumbs) (info_Width info) (info_Height info) s))))))"

definition ProcessUpload ::
    "('s, 'i) packages \<Rightarrow> 's AvatarService \<Rightarrow> AvatarUploadEvent \<Rightarrow> ('s, goerr option) op" where
  "ProcessUpload P svc event s =
    (case processUpload P svc event s of (err, s) \<Rightarrow>
       (err, observe P (ProcessedTotal ''upload'' (StatusOK err)) s))"

definition recover_event :: "('s, 'i) packages \<Rightarrow> Avatar \<Rightarrow> AvatarUploadEvent" where
  "recover_event P a =
    \<lparr>ue_EventID = UploadEventID (uuid_String P (av_ID a)), ue_AvatarID = uuid_String P (av_ID a),
     ue_UserID = av_UserID a, ue_S3Key = av_S3Key a\<rparr>"

definition RecoverStuck :: "('s, 'i) packages \<Rightarrow> 's AvatarService \<Rightarrow> ('s, goerr option) op" where
  "RecoverStuck P svc s =
    (case ListStuckUploads (svc_repo svc) 20 s of
       (Inl err, s) \<Rightarrow> (Some err, s)
     | (Inr items, s) \<Rightarrow> for_first (\<lambda>a. ProcessUpload P svc (recover_event P a)) items None s)"

definition ProcessDelete ::
    "('s, 'i) packages \<Rightarrow> 's AvatarService \<Rightarrow> AvatarDeleteEvent \<Rightarrow> ('s, goerr option) op" where
  "ProcessDelete P svc event s =
    (case os_Delete (svc_objects svc) (de_S3Keys event) s of (err, s) \<Rightarrow>
       (err, observe P (ProcessedTotal ''delete'' (StatusOK err)) s))"

end
