(* ===== verification/Service_Laws.thy ===== *)
theory Service_Laws
  imports Avatar_Service
begin

text \<open>
  The avatar service over any backend that keeps the contracts of the three interfaces and does not
  mix up their parts of the state: what each method does to the avatars, the outbox, the objects
  and the topics, on success and on every error.  \<open>recorded\<close> is the promise that ties the parts
  together: every live avatar has its upload event, every deleted one its delete event, and an
  event that left the outbox has been written to its topic.
\<close>

section \<open>Backends\<close>

text \<open>An outbox entry has reached its topic.\<close>

definition delivered :: "document list \<Rightarrow> document list \<Rightarrow> string \<Rightarrow> json \<Rightarrow> bool" where
  "delivered us ds kind payload \<longleftrightarrow>
     kind = OutboxUpload \<and> (\<exists>e. unmarshal_upload (Some payload) = Inr e \<and> Some (marshal_upload e) \<in> set us) \<or>
     kind = OutboxDelete \<and> (\<exists>e. unmarshal_delete (Some payload) = Inr e \<and> Some (marshal_delete e) \<in> set ds)"

definition uuids_print :: "('s, 'i) packages \<Rightarrow> bool" where
  "uuids_print P \<longleftrightarrow> (\<forall>i. uuid_text (uuid_String P i) \<and> ascii (uuid_String P i) \<and>
     uuid_Parse P (uuid_String P i) = Inr i)"

text \<open>The object key that \<open>upload\<close> gives to a new avatar.\<close>

definition upload_key :: "('s, 'i) packages \<Rightarrow> string \<Rightarrow> uuid \<Rightarrow> string \<Rightarrow> string" where
  "upload_key P u i x = OriginalObjectKey u (uuid_String P i) x"

locale avatar_backend =
  avatar_store "svc_repo svc" ok used live events unpub "\<lambda>s. (blobs s, ulog s, dlog s)" +
  object_store "svc_objects svc" blobs "\<lambda>s. (ok s, used s, live s, events s, unpub s, ulog s, dlog s)" +
  event_publisher "svc_publisher svc" ulog dlog "\<lambda>s. (ok s, used s, live s, events s, unpub s, blobs s)"
  for svc :: "'s AvatarService"
    and ok :: "'s \<Rightarrow> bool"
    and used :: "'s \<Rightarrow> uuid set"
    and live :: "'s \<Rightarrow> uuid \<Rightarrow> Avatar option"
    and events :: "'s \<Rightarrow> string \<Rightarrow> (string \<times> json) option"
    and unpub :: "'s \<Rightarrow> OutboxEvent list"
    and blobs :: "'s \<Rightarrow> string \<Rightarrow> (string \<times> string) option"
    and ulog dlog :: "'s \<Rightarrow> document list" +
  fixes P :: "('s, 'i) packages"
  assumes new_law: "keeps (\<lambda>s. (ok s, used s, live s, events s, unpub s, blobs s, ulog s, dlog s)) (uuid_New P)"
    and now_law: "keeps (\<lambda>s. (ok s, used s, live s, events s, unpub s, blobs s, ulog s, dlog s)) (time_Now P)"
    and wait_law: "keeps (\<lambda>s. (ok s, used s, live s, events s, unpub s, blobs s, ulog s, dlog s)) (wait_or_done P n)"
    and observe_law: "ok (observe P m s) = ok s" "used (observe P m s) = used s"
      "live (observe P m s) = live s" "events (observe P m s) = events s"
      "unpub (observe P m s) = unpub s" "blobs (observe P m s) = blobs s"
      "ulog (observe P m s) = ulog s" "dlog (observe P m s) = dlog s"
    and uuid_law: "uuids_print P"
begin

declare observe_law [simp]

lemma uuid_facts: "length (uuid_String P i) = 36" "CHR ''/'' \<notin> set (uuid_String P i)"
  "ascii (uuid_String P i)" "uuid_Parse P (uuid_String P i) = Inr i"
  using uuid_law unfolding uuids_print_def uuid_text_def by blast+

lemma uuid_String_inj [simp]: "uuid_String P i = uuid_String P j \<longleftrightarrow> i = j"
  by (metis uuid_facts(4) sum.inject(2))

lemma event_ids [simp]:
  "UploadEventID (uuid_String P i) = UploadEventID (uuid_String P j) \<longleftrightarrow> i = j"
  "DeleteEventID (uuid_String P i) = DeleteEventID (uuid_String P j) \<longleftrightarrow> i = j"
  "UploadEventID x \<noteq> DeleteEventID y" "DeleteEventID y \<noteq> UploadEventID x"
  by (auto simp: UploadEventID_def DeleteEventID_def)

lemma new_frame: "uuid_New P s = (i, t) \<Longrightarrow> ok t = ok s \<and> used t = used s \<and> live t = live s
    \<and> events t = events s \<and> unpub t = unpub s \<and> blobs t = blobs s \<and> ulog t = ulog s \<and> dlog t = dlog s"
  using keepsD [OF new_law] by auto

lemma now_frame: "time_Now P s = (n, t) \<Longrightarrow> ok t = ok s \<and> used t = used s \<and> live t = live s
    \<and> events t = events s \<and> unpub t = unpub s \<and> blobs t = blobs s \<and> ulog t = ulog s \<and> dlog t = dlog s"
  using keepsD [OF now_law] by auto

lemma wait_frame: "wait_or_done P k s = (r, t) \<Longrightarrow> ok t = ok s \<and> used t = used s \<and> live t = live s
    \<and> events t = events s \<and> unpub t = unpub s \<and> blobs t = blobs s \<and> ulog t = ulog s \<and> dlog t = dlog s"
  using keepsD [OF wait_law] by auto

lemma store_frame: "store_step (svc_repo svc) s t \<Longrightarrow> blobs t = blobs s \<and> ulog t = ulog s \<and> dlog t = dlog s"
  using view_step by simp

lemma os_upload_frame:
  "os_Upload (svc_objects svc) k ct d s = (r, t) \<Longrightarrow> ct \<noteq> [] \<Longrightarrow>
   ok t = ok s \<and> used t = used s \<and> live t = live s \<and> events t = events s \<and> unpub t = unpub s
   \<and> ulog t = ulog s \<and> dlog t = dlog s \<and> (blobs t = (blobs s)(k \<mapsto> (ct, d)) \<or> r \<noteq> None \<and> blobs t = blobs s)"
  using upload_law by auto

lemma os_download_frame:
  "os_Download (svc_objects svc) k s = (r, t) \<Longrightarrow>
   ok t = ok s \<and> used t = used s \<and> live t = live s \<and> events t = events s \<and> unpub t = unpub s
   \<and> ulog t = ulog s \<and> dlog t = dlog s \<and> blobs t = blobs s
   \<and> (\<forall>d ct. r = Inr (d, ct) \<longrightarrow> blobs s k = Some (ct, d))"
  using download_law by auto

lemma os_delete_frame:
  "os_Delete (svc_objects svc) ks s = (r, t) \<Longrightarrow>
   ok t = ok s \<and> used t = used s \<and> live t = live s \<and> events t = events s \<and> unpub t = unpub s
   \<and> ulog t = ulog s \<and> dlog t = dlog s
   \<and> (\<exists>K \<subseteq> real_keys ks. blobs t = blobs s |` (- K) \<and> (r = None \<longrightarrow> K = real_keys ks))"
  using delete_law by auto

lemma publish_frame:
  "PublishUpload (svc_publisher svc) ue s = (r, t) \<Longrightarrow>
   ok t = ok s \<and> used t = used s \<and> live t = live s \<and> events t = events s \<and> unpub t = unpub s \<and> blobs t = blobs s
   \<and> dlog t = dlog s \<and> (ulog t = ulog s @ [Some (marshal_upload ue)] \<or> r \<noteq> None \<and> ulog t = ulog s)"
  "PublishDelete (svc_publisher svc) de s = (r', t) \<Longrightarrow>
   ok t = ok s \<and> used t = used s \<and> live t = live s \<and> events t = events s \<and> unpub t = unpub s \<and> blobs t = blobs s
   \<and> ulog t = ulog s \<and> (dlog t = dlog s @ [Some (marshal_delete de)] \<or> r' \<noteq> None \<and> dlog t = dlog s)"
  using publish_upload_law publish_delete_law by auto

section \<open>Upload\<close>

lemma upload_rejects:
  assumes "upload P svc u name data s = (r, t)"
    and "ValidateUserID u \<noteq> None \<or> data = [] \<or> svc_maxBytes svc < int (length data) \<or> Inspect (codecs P) data = Inl e"
  shows "t = s \<and> (\<exists>err. r = Inl err \<and> err \<in> {ErrInvalidUserID, ErrFileRequired, ErrFileTooLarge, e})"
  using assms ValidateUserID_error by (auto simp: upload_def split: option.splits if_splits)

lemma upload_event_short: "short_event \<lparr>oe_ID = 0, oe_EventID = UploadEventID (uuid_String P i), oe_Kind = OutboxUpload, oe_Payload = p\<rparr>"
  by (simp add: short_event_def UploadEventID_def uuid_facts(1) OutboxUpload_def)

text \<open>The end of \<open>upload\<close>: the transaction, and the object taken back when it failed.\<close>

definition create_or_undo :: "Avatar \<Rightarrow> OutboxEvent \<Rightarrow> ('s, Avatar result) op" where
  "create_or_undo a ev s =
    (case CreateWithOutbox (svc_repo svc) a ev s of
       (Inl err, s) \<Rightarrow> (case os_Delete (svc_objects svc) [av_S3Key a] s of (_, s) \<Rightarrow> (Inl err, s))
     | (Inr _, s) \<Rightarrow> (Inr a, s))"

lemma create_effect:
  assumes "create_or_undo a ev s = (r, t)" "ok s" "short_event ev"
  shows "ok t" "used s \<subseteq> used t" "ulog t = ulog s" "dlog t = dlog s"
    and "r = Inr a \<and> blobs t = blobs s \<or> (\<exists>err. r = Inl err)"
    and "(\<exists>err. r = Inl err) \<and> live t = live s \<and> events t = events s \<and> unpub t = unpub s
     \<or> av_ID a \<notin> used s \<and> av_ID a \<in> used t \<and> (\<exists>a' p. same_core a a'
          \<and> (length (av_ProcessingStatus a) \<le> 50 \<longrightarrow> av_ProcessingStatus a' = av_ProcessingStatus a)
          \<and> (length (av_UserID a) \<le> 255 \<longrightarrow> av_UserID a' = av_UserID a)
          \<and> (length (av_S3Key a) \<le> 500 \<longrightarrow> av_S3Key a' = av_S3Key a)
          \<and> live t = (live s)(av_ID a \<mapsto> a') \<and> oe_Payload ev = Some p
          \<and> events t = (events s)(oe_EventID ev \<mapsto> (oe_Kind ev, p)))
          \<and> (events s (oe_EventID ev) = None \<longrightarrow> (\<exists>n. unpub t = unpub s @ [ev\<lparr>oe_ID := n\<rparr>]))"
proof -
  obtain rc s1 where cr: "CreateWithOutbox (svc_repo svc) a ev s = (rc, s1)" by fastforce
  obtain rd s2 where d: "os_Delete (svc_objects svc) [av_S3Key a] s1 = (rd, s2)" by fastforce
  note st = step_create [OF cr]
  note sf = ok_step [OF st assms(2)] used_step [OF st assms(2)] store_frame [OF st] os_delete_frame [OF d]
  have t: "t = s1 \<and> r = Inr a \<and> (\<exists>n. rc = Inr n) \<or> t = s2 \<and> (\<exists>err. rc = Inl err \<and> r = Inl err)"
    using assms(1) cr d by (auto simp: create_or_undo_def split: sum.splits)
  then have t1: "used t = used s1" "live t = live s1" "events t = events s1" "unpub t = unpub s1" using sf by auto
  show "ok t" "used s \<subseteq> used t" "ulog t = ulog s" "dlog t = dlog s" "r = Inr a \<and> blobs t = blobs s \<or> (\<exists>err. r = Inl err)"
    using t sf by auto
  have "(\<exists>e. rc = Inl e) \<Longrightarrow> \<exists>err. r = Inl err" using t by auto
  with create_law [OF cr assms(2,3)] show "(\<exists>err. r = Inl err) \<and> live t = live s \<and> events t = events s \<and> unpub t = unpub s
     \<or> av_ID a \<notin> used s \<and> av_ID a \<in> used t \<and> (\<exists>a' p. same_core a a'
          \<and> (length (av_ProcessingStatus a) \<le> 50 \<longrightarrow> av_ProcessingStatus a' = av_ProcessingStatus a)
          \<and> (length (av_UserID a) \<le> 255 \<longrightarrow> av_UserID a' = av_UserID a)
          \<and> (length (av_S3Key a) \<le> 500 \<longrightarrow> av_S3Key a' = av_S3Key a)
          \<and> live t = (live s)(av_ID a \<mapsto> a') \<and> oe_Payload ev = Some p
          \<and> events t = (events s)(oe_EventID ev \<mapsto> (oe_Kind ev, p)))
          \<and> (events s (oe_EventID ev) = None \<longrightarrow> (\<exists>n. unpub t = unpub s @ [ev\<lparr>oe_ID := n\<rparr>]))"
    unfolding t1 by blast
qed

text \<open>The avatar and the outbox entry that \<open>upload\<close> makes.\<close>

definition new_avatar :: "string \<Rightarrow> string \<Rightarrow> string \<Rightarrow> Info \<Rightarrow> uuid \<Rightarrow> time \<Rightarrow> Avatar" where
  "new_avatar u name data info i now = \<lparr>av_ID = i, av_UserID = u, av_FileName = sanitizeFileName name (info_Ext info),
     av_MimeType = info_MIME info, av_SizeBytes = int (length data), av_Width = info_Width info,
     av_Height = info_Height info, av_S3Key = upload_key P u i (info_Ext info),
     av_ThumbnailS3Keys = Some [], av_UploadStatus = UploadStatusStored,
     av_ProcessingStatus = ProcessingPending, av_CreatedAt = now, av_UpdatedAt = now, av_DeletedAt = None\<rparr>"

definition upload_entry :: "Avatar \<Rightarrow> OutboxEvent" where
  "upload_entry a = \<lparr>oe_ID = 0, oe_EventID = UploadEventID (uuid_String P (av_ID a)), oe_Kind = OutboxUpload,
     oe_Payload = Some (marshal_upload (recover_event P a))\<rparr>"

lemma upload_stored:
  assumes "upload P svc u name data s = (r, t)" "ValidateUserID u = None" "data \<noteq> []"
    and "int (length data) \<le> svc_maxBytes svc" "Inspect (codecs P) data = Inr info"
    and "time_Now P s = (now, s1)" "uuid_New P s1 = (i, s2)"
    and "os_Upload (svc_objects svc) (av_S3Key a) (info_MIME info) data s2 = (ru, s3)" "a = new_avatar u name data info i now"
  shows "case ru of Some err \<Rightarrow> r = Inl err \<and> t = s3 | None \<Rightarrow> create_or_undo a (upload_entry a) s3 = (r, t)"
  using assms
  by (auto simp: upload_def create_or_undo_def Let_def new_avatar_def upload_key_def newOutboxEvent_def upload_entry_def
      recover_event_def split: prod.splits sum.splits option.splits)

lemma upload_effect:
  assumes "upload P svc u name data s = (r, t)" "ok s"
  obtains (unchanged) err where "r = Inl err" "ok t" "used s \<subseteq> used t" "live t = live s" "events t = events s"
      "unpub t = unpub s" "ulog t = ulog s" "dlog t = dlog s"
  | (committed) info a a' where "ValidateUserID u = None" "data \<noteq> []" "int (length data) \<le> svc_maxBytes svc"
      "Inspect (codecs P) data = Inr info" "av_UserID a = u" "av_S3Key a = upload_key P u (av_ID a) (info_Ext info)"
      "av_MimeType a = info_MIME info" "av_SizeBytes a = int (length data)" "av_ProcessingStatus a = ProcessingPending"
      "av_ID a \<notin> used s" "av_ID a \<in> used t" "used s \<subseteq> used t" "same_core a a'"
      "av_ProcessingStatus a' = ProcessingPending" "length u \<le> 255 \<longrightarrow> av_UserID a' = u"
      "length (av_S3Key a) \<le> 500 \<longrightarrow> av_S3Key a' = av_S3Key a"
      "live t = (live s)(av_ID a \<mapsto> a')"
      "events t = (events s)(UploadEventID (uuid_String P (av_ID a)) \<mapsto> (OutboxUpload, marshal_upload (recover_event P a)))"
      "events s (UploadEventID (uuid_String P (av_ID a))) = None \<longrightarrow>
         (\<exists>ev. unpub t = unpub s @ [ev] \<and> oe_EventID ev = UploadEventID (uuid_String P (av_ID a)))"
      "ok t" "ulog t = ulog s" "dlog t = dlog s"
      "r = Inr a \<and> blobs t = (blobs s)(av_S3Key a \<mapsto> (info_MIME info, data)) \<or> (\<exists>err. r = Inl err)"
proof (cases "ValidateUserID u \<noteq> None \<or> data = [] \<or> svc_maxBytes svc < int (length data) \<or> (\<exists>e. Inspect (codecs P) data = Inl e)")
  case True
  then show thesis using unchanged upload_rejects [OF assms(1)] assms(2) by auto
next
  case False
  then obtain info where g: "ValidateUserID u = None" "data \<noteq> []" "int (length data) \<le> svc_maxBytes svc"
    "Inspect (codecs P) data = Inr info"
    by (cases "Inspect (codecs P) data") auto
  have mime: "info_MIME info \<noteq> []" using Inspect_Inr [OF g(4)] image_mimes_not_Nil by blast
  obtain now s1 where n: "time_Now P s = (now, s1)" by fastforce
  obtain i s2 where i: "uuid_New P s1 = (i, s2)" by fastforce
  define a where "a = new_avatar u name data info i now"
  obtain ru s3 where up: "os_Upload (svc_objects svc) (av_S3Key a) (info_MIME info) data s2 = (ru, s3)" by fastforce
  note f = now_frame [OF n] new_frame [OF i] os_upload_frame [OF up mime]
  note c = upload_stored [OF assms(1) g n i up a_def]
  show thesis
  proof (cases ru)
    case (Some err)
    then show thesis using unchanged f assms(2) c by auto
  next
    case None
    have "ok s3" "short_event (upload_entry a)" using f assms(2) upload_event_short by (auto simp: upload_entry_def)
    note c' = create_effect [OF c [unfolded None option.case] this]
    have fr: "used s3 = used s" "live s3 = live s" "events s3 = events s" "unpub s3 = unpub s" "ulog s3 = ulog s"
      "dlog s3 = dlog s" "blobs s3 = (blobs s)(av_S3Key a \<mapsto> (info_MIME info, data))"
      using f None by simp_all
    have as: "av_UserID a = u" "av_S3Key a = upload_key P u (av_ID a) (info_Ext info)"
      "av_MimeType a = info_MIME info" "av_SizeBytes a = int (length data)" "av_ProcessingStatus a = ProcessingPending"
      "length (av_ProcessingStatus a) \<le> 50"
      by (simp_all add: a_def new_avatar_def ProcessingPending_def)
    from c'(6) show thesis
    proof (elim disjE exE conjE)
      fix err assume "r = Inl err" "live t = live s3" "events t = events s3" "unpub t = unpub s3"
      then show thesis using unchanged c'(1-4) fr by simp
    next
      fix a' p
      assume c: "av_ID a \<notin> used s3" "av_ID a \<in> used t" "same_core a a'"
        "length (av_ProcessingStatus a) \<le> 50 \<longrightarrow> av_ProcessingStatus a' = av_ProcessingStatus a"
        "length (av_UserID a) \<le> 255 \<longrightarrow> av_UserID a' = av_UserID a"
        "length (av_S3Key a) \<le> 500 \<longrightarrow> av_S3Key a' = av_S3Key a" "live t = (live s3)(av_ID a \<mapsto> a')"
        and e: "oe_Payload (upload_entry a) = Some p"
        "events t = (events s3)(oe_EventID (upload_entry a) \<mapsto> (oe_Kind (upload_entry a), p))"
        "events s3 (oe_EventID (upload_entry a)) = None \<longrightarrow> (\<exists>n. unpub t = unpub s3 @ [upload_entry a\<lparr>oe_ID := n\<rparr>])"
      show thesis
        by (rule committed [of info a a'])
          (use g c c'(1-5) as e [unfolded upload_entry_def fr] in \<open>simp_all add: fr, auto\<close>)
    qed
  qed
qed

lemma real_key_trimmed: "TrimSpace k = k \<Longrightarrow> real_keys [k] \<subseteq> {k}"
  by (auto simp: real_keys_def)

lemma upload_blobs:
  assumes "upload P svc u name data s = (r, t)"
  shows "\<exists>i x. \<forall>k. k \<noteq> upload_key P u i x \<longrightarrow> blobs t k = blobs s k"
proof (cases "ValidateUserID u \<noteq> None \<or> data = [] \<or> svc_maxBytes svc < int (length data) \<or> (\<exists>e. Inspect (codecs P) data = Inl e)")
  case True
  then show ?thesis using upload_rejects [OF assms] by auto
next
  case False
  then obtain info where g: "ValidateUserID u = None" "data \<noteq> []" "int (length data) \<le> svc_maxBytes svc"
    "Inspect (codecs P) data = Inr info"
    by (cases "Inspect (codecs P) data") auto
  have mime: "info_MIME info \<noteq> []" using Inspect_Inr [OF g(4)] image_mimes_not_Nil by blast
  obtain now s1 where n: "time_Now P s = (now, s1)" by fastforce
  obtain i s2 where i: "uuid_New P s1 = (i, s2)" by fastforce
  let ?k = "upload_key P u i (info_Ext info)"
  have "info_MIME info \<in> image_mimes" "info_Ext info = ExtForMIME (info_MIME info)"
    using Inspect_Inr [OF g(4)] by blast+
  then have "info_Ext info \<noteq> [] \<and> printable (last (info_Ext info))"
    by (auto simp: image_mimes_def ExtForMIME_def mime_defs printable_def)
  then have trim: "TrimSpace ?k = ?k"
    unfolding upload_key_def by (intro OriginalObjectKey_trimmed) auto
  have fr: "blobs s2 = blobs s" using now_frame [OF n] new_frame [OF i] by simp
  obtain ru s3 where up: "os_Upload (svc_objects svc) ?k (info_MIME info) data s2 = (ru, s3)" by fastforce
  have b3: "blobs s3 k = blobs s k" if "k \<noteq> ?k" for k
    using os_upload_frame [OF up mime] fr that by auto
  have del: "blobs s5 k = blobs s4 k" if d: "os_Delete (svc_objects svc) [?k] s4 = (rd, s5)" and k: "k \<noteq> ?k" for rd s4 s5 k
  proof -
    obtain K where "K \<subseteq> real_keys [?k]" "blobs s5 = blobs s4 |` (- K)" using os_delete_frame [OF d] by blast
    then show ?thesis using k real_key_trimmed [OF trim] by (auto simp: restrict_map_def)
  qed
  have cr: "blobs s4 = blobs s3" if "CreateWithOutbox (svc_repo svc) a ev s3 = (rc, s4)" for a ev rc s4
    using store_frame [OF step_create [OF that]] by simp
  have "blobs t k = blobs s k" if "k \<noteq> ?k" for k
    using assms g n i up b3 [OF that] del [OF _ that]
    by (auto simp: upload_def Let_def newOutboxEvent_def simp flip: upload_key_def dest!: cr split: option.splits sum.splits prod.splits)
  then show ?thesis by blast
qed

text \<open>A successful \<open>Upload\<close> has stored everything.\<close>

lemma Upload_success:
  assumes "Upload P svc u name data s = (Inr a, t)" "ok s"
  shows "\<exists>info a'. Inspect (codecs P) data = Inr info \<and> av_UserID a = u
    \<and> av_MimeType a = info_MIME info \<and> av_SizeBytes a = int (length data)
    \<and> av_ID a \<notin> used s \<and> same_core a a' \<and> av_ProcessingStatus a' = ProcessingPending
    \<and> live t = (live s)(av_ID a \<mapsto> a') \<and> blobs t = (blobs s)(av_S3Key a \<mapsto> (info_MIME info, data))
    \<and> events t = (events s)(UploadEventID (uuid_String P (av_ID a)) \<mapsto> (OutboxUpload, marshal_upload (recover_event P a)))
    \<and> ulog t = ulog s"
proof -
  obtain s1 where up: "upload P svc u name data s = (Inr a, s1)"
    and t: "live t = live s1" "events t = events s1" "blobs t = blobs s1" "ulog t = ulog s1"
    using assms(1) by (auto simp: Upload_def Let_def split: prod.splits sum.splits)
  show ?thesis
  proof (cases rule: upload_effect [OF up assms(2), case_names unchanged committed])
    case (committed info a2 a')
    then show ?thesis by (intro exI [of _ info] exI [of _ a']) (simp add: t)
  qed simp
qed

end

section \<open>Deletion\<close>

definition object_keys :: "Avatar \<Rightarrow> string list" where
  "object_keys a = av_S3Key a # filter (\<lambda>k. k \<noteq> [])
     (case av_ThumbnailS3Keys a of None \<Rightarrow> [] | Some m \<Rightarrow> map snd m)"

definition delete_event :: "('s, 'i) packages \<Rightarrow> Avatar \<Rightarrow> AvatarDeleteEvent" where
  "delete_event P a =
    \<lparr>de_EventID = DeleteEventID (uuid_String P (av_ID a)), de_AvatarID = uuid_String P (av_ID a),
     de_S3Keys = object_keys a\<rparr>"

lemma deleteOutboxEvent_eq:
  "deleteOutboxEvent P a = Inr \<lparr>oe_ID = 0, oe_EventID = DeleteEventID (uuid_String P (av_ID a)),
     oe_Kind = OutboxDelete, oe_Payload = Some (marshal_delete (delete_event P a))\<rparr>"
  by (simp add: deleteOutboxEvent_def newOutboxEvent_def delete_event_def object_keys_def Let_def)

context avatar_backend
begin

lemma delete_event_short: "short_event \<lparr>oe_ID = 0, oe_EventID = DeleteEventID (uuid_String P i), oe_Kind = OutboxDelete, oe_Payload = p\<rparr>"
  by (simp add: short_event_def DeleteEventID_def uuid_facts(1) OutboxDelete_def)

lemma delete_effect:
  assumes "delete P svc i u s = (r, t)" "ok s"
  obtains (unchanged) err where "r = Some err" "ok t" "used s \<subseteq> used t" "live t = live s" "events t = events s"
      "unpub t = unpub s" "ulog t = ulog s" "dlog t = dlog s" "blobs t = blobs s"
      "\<And>a. live s i = Some a \<Longrightarrow> av_UserID a \<noteq> u \<Longrightarrow> \<not> errors_Is err ErrAvatarNotFound"
  | (deleted) a where "ValidateUserID u = None" "live s i = Some a" "av_ID a = i" "av_UserID a = u"
      "live t = (live s)(i := None)" "used s \<subseteq> used t"
      "events t = (events s)(DeleteEventID (uuid_String P i) \<mapsto> (OutboxDelete, marshal_delete (delete_event P a)))"
      "events s (DeleteEventID (uuid_String P i)) = None \<longrightarrow>
         (\<exists>ev. unpub t = unpub s @ [ev] \<and> oe_EventID ev = DeleteEventID (uuid_String P i))"
      "ok t" "ulog t = ulog s" "dlog t = dlog s" "blobs t = blobs s"
proof (cases "ValidateUserID u")
  case (Some err)
  then have "err = ErrInvalidUserID" by (rule ValidateUserID_error)
  then show thesis using assms Some by (intro unchanged [of err]) (auto simp: delete_def)
next
  case v: None
  obtain rg s1 where g: "GetByID (svc_repo svc) i s = (rg, s1)" by fastforce
  have st: "store_step (svc_repo svc) s s1" using g by (rule step_get)
  note gl = get_law [OF g assms(2)] ok_step [OF st assms(2)] used_step [OF st assms(2)] store_frame [OF st]
  show thesis
  proof (cases rg)
    case (Inl err)
    then show thesis using assms(1) v g gl
      by (intro unchanged [of err]) (auto simp: delete_def)
  next
    case (Inr a)
    have a: "live s i = Some a" "av_ID a = i" using gl Inr by auto
    show thesis
    proof (cases "av_UserID a = u")
      case False
      then show thesis using assms(1) v g gl Inr
        by (intro unchanged [of ErrForbidden]) (auto simp: delete_def)
    next
      case True
      define ev where "ev = \<lparr>oe_ID = 0, oe_EventID = DeleteEventID (uuid_String P i),
         oe_Kind = OutboxDelete, oe_Payload = Some (marshal_delete (delete_event P a))\<rparr>"
      obtain rd s2 where d: "SoftDeleteOwnedWithOutbox (svc_repo svc) i u ev s1 = (rd, s2)" by fastforce
      have st2: "store_step (svc_repo svc) s1 s2" using d by (rule step_soft_delete)
      note sf = ok_step [OF st2] used_step [OF st2] store_frame [OF st2]
      have del: "delete P svc i u s = (case rd of Inl err \<Rightarrow> (Some err, s2)
          | Inr _ \<Rightarrow> (None, observe P (StorageUsage_Sub (av_SizeBytes a)) s2))"
        using v g Inr True d by (simp add: delete_def deleteOutboxEvent_eq ev_def a split: sum.split)
      have t4: "used t = used s2" "live t = live s2" "events t = events s2" "unpub t = unpub s2" "ok t"
        "ulog t = ulog s" "dlog t = dlog s" "blobs t = blobs s"
        using assms(1) gl sf unfolding del by (auto split: sum.splits)
      have us: "used s \<subseteq> used t" using gl sf t4(1) by auto
      have sh: "short_event ev" unfolding ev_def by (rule delete_event_short)
      have fr: "live s1 = live s" "events s1 = events s" "unpub s1 = unpub s" using gl by auto
      have ok1: "ok s1" using gl by simp
      from soft_delete_law [OF d ok1 sh] show thesis
      proof (elim disjE conjE exE)
        fix e
        assume "live s2 = live s1" "events s2 = events s1" "unpub s2 = unpub s1" "rd = Inl e"
        moreover from this have "r = Some e" using assms(1) del by simp
        ultimately show thesis using unchanged [of e] t4 us fr a True by simp
      next
        fix a' p
        assume "live s2 = (live s1)(i := None)" "oe_Payload ev = Some p"
          "events s2 = (events s1)(oe_EventID ev \<mapsto> (oe_Kind ev, p))"
          "events s1 (oe_EventID ev) = None \<longrightarrow> (\<exists>n. unpub s2 = unpub s1 @ [ev\<lparr>oe_ID := n\<rparr>])"
        then show thesis using deleted [of a] v a True us t4 fr by (auto simp: ev_def)
      qed
    qed
  qed
qed

end

section \<open>The outbox\<close>

lemma publish_attempts_cases:
  assumes "publish_attempts wait n b fn e s = (r, t)"
    and "\<And>k s r t. wait k s = (r, t) \<Longrightarrow> R s t" "\<And>s r t. fn s = (r, t) \<Longrightarrow> R s t"
    and "\<And>s. R s s" "\<And>s t u. R s t \<Longrightarrow> R t u \<Longrightarrow> R s u"
  shows "R s t \<and> (r = None \<longrightarrow> n = 0 \<and> e = None \<or> (\<exists>s1. R s s1 \<and> fn s1 = (None, t)))"
  using assms(1)
proof (induction n arbitrary: b e s)
  case 0
  then show ?case using assms(4) by auto
next
  case (Suc n)
  obtain r1 s1 where f: "fn s = (r1, s1)" by fastforce
  have R1: "R s s1" using assms(3) [OF f] .
  show ?case
  proof (cases r1)
    case None
    then show ?thesis using Suc.prems f R1 assms(4) by auto
  next
    case (Some err)
    show ?thesis
    proof (cases "n = 0")
      case True
      then show ?thesis using Suc.prems f Some R1 by auto
    next
      case False
      obtain r2 s2 where w: "wait b s1 = (r2, s2)" by fastforce
      have R2: "R s s2" using R1 assms(2) [OF w] assms(5) by blast
      show ?thesis
      proof (cases r2)
        case None
        then have "publish_attempts wait n (b * 2) fn (Some err) s2 = (r, t)"
          using Suc.prems f Some False w by simp
        from Suc.IH [OF this] False show ?thesis using R2 assms(5) by blast
      next
        case (Some err2)
        then show ?thesis using Suc.prems f \<open>r1 = Some err\<close> False w R2 by auto
      qed
    qed
  qed
qed

lemma delivered_mono:
  "delivered us ds k p \<Longrightarrow> set us \<subseteq> set us' \<Longrightarrow> set ds \<subseteq> set ds' \<Longrightarrow> delivered us' ds' k p"
  by (auto simp: delivered_def)

context avatar_backend
begin

text \<open>Steps that at most write to the topics.\<close>

definition writes :: "'s \<Rightarrow> 's \<Rightarrow> bool" where
  "writes s t \<longleftrightarrow> ok t = ok s \<and> used t = used s \<and> live t = live s \<and> events t = events s
     \<and> unpub t = unpub s \<and> blobs t = blobs s \<and> prefix (ulog s) (ulog t) \<and> prefix (dlog s) (dlog t)"

lemma writes_refl: "writes s s"
  by (simp add: writes_def)

lemma writes_trans: "writes s t \<Longrightarrow> writes t u \<Longrightarrow> writes s u"
  by (auto simp: writes_def)

lemma publishKind_law:
  assumes "publishKind svc k body s = (r, t)"
  shows "writes s t \<and> (r = None \<longrightarrow> (\<exists>p. body = Some p \<and> delivered (ulog t) (dlog t) k p))"
proof (cases "k = OutboxUpload")
  case True
  show ?thesis
  proof (cases "unmarshal_upload body")
    case (Inl err)
    then show ?thesis using assms True writes_refl by (auto simp: publishKind_def)
  next
    case (Inr e)
    then have p: "PublishUpload (svc_publisher svc) e s = (r, t)" using assms True by (simp add: publishKind_def)
    obtain p where "body = Some p" using Inr by (cases body) (auto simp: unmarshal_upload_def unmarshal_struct_def)
    then show ?thesis using publish_frame(1) [OF p] True Inr by (auto simp: writes_def delivered_def)
  qed
next
  case False
  show ?thesis
  proof (cases "k = OutboxDelete")
    case True
    show ?thesis
    proof (cases "unmarshal_delete body")
      case (Inl err)
      then show ?thesis using assms False True writes_refl by (auto simp: publishKind_def)
    next
      case (Inr e)
      then have p: "PublishDelete (svc_publisher svc) e s = (r, t)" using assms False True by (simp add: publishKind_def)
      obtain p where "body = Some p" using Inr by (cases body) (auto simp: unmarshal_delete_def unmarshal_struct_def)
      then show ?thesis using publish_frame(2) [OF p] True Inr by (auto simp: writes_def delivered_def)
    qed
  qed (use assms False writes_refl in \<open>auto simp: publishKind_def\<close>)
qed

lemma flush_item_law:
  assumes "flush_item P svc item s = (r, t)" "ok s"
  shows "ok t \<and> used s \<subseteq> used t \<and> live t = live s \<and> events t = events s \<and> blobs t = blobs s
    \<and> prefix (ulog s) (ulog t) \<and> prefix (dlog s) (dlog t)
    \<and> (unpub t = filter (\<lambda>e. oe_ID e \<noteq> oe_ID item) (unpub s)
         \<and> (\<exists>p. oe_Payload item = Some p \<and> delivered (ulog t) (dlog t) (oe_Kind item) p)
       \<or> r \<noteq> None \<and> unpub t = unpub s)"
proof -
  let ?fn = "publishKind svc (oe_Kind item) (oe_Payload item)"
  obtain r1 s1 where p: "publishWithRetry P 3 ?fn s = (r1, s1)" by fastforce
  have a: "publish_attempts (wait_or_done P) 3 100 ?fn None s = (r1, s1)"
    using p by (simp add: publishWithRetry_def)
  have w: "writes s s1 \<and> (r1 = None \<longrightarrow> 3 = (0::nat) \<and> None = (None :: goerr option)
      \<or> (\<exists>s0. writes s s0 \<and> ?fn s0 = (None, s1)))"
    by (rule publish_attempts_cases [OF a])
      (auto simp: writes_def dest: wait_frame publishKind_law [unfolded writes_def] intro: prefix_order.trans)
  show ?thesis
  proof (cases r1)
    case (Some err)
    then show ?thesis using assms p w by (auto simp: flush_item_def writes_def)
  next
    case None
    then have m: "MarkOutboxPublished (svc_repo svc) (oe_ID item) s1 = (r, t)"
      using assms(1) p by (simp add: flush_item_def)
    have ok1: "ok s1" using w assms(2) by (simp add: writes_def)
    have st: "store_step (svc_repo svc) s1 t" using m by (rule step_published)
    obtain s0 where "?fn s0 = (None, s1)" using w None by auto
    then obtain p where "oe_Payload item = Some p" "delivered (ulog s1) (dlog s1) (oe_Kind item) p"
      using publishKind_law by blast
    then show ?thesis
      using published_law [OF m ok1] ok_step [OF st ok1] used_step [OF st ok1] store_frame [OF st] w
      by (auto simp: writes_def)
  qed
qed

lemma flush_items_law:
  assumes "for_first (flush_item P svc) items first s = (r, t)" "ok s"
  shows "ok t \<and> used s \<subseteq> used t \<and> live t = live s \<and> events t = events s \<and> blobs t = blobs s
    \<and> prefix (ulog s) (ulog t) \<and> prefix (dlog s) (dlog t)
    \<and> (\<exists>D \<subseteq> set items. unpub t = filter (\<lambda>e. oe_ID e \<notin> oe_ID ` D) (unpub s)
         \<and> (\<forall>item \<in> D. \<exists>p. oe_Payload item = Some p \<and> delivered (ulog t) (dlog t) (oe_Kind item) p)
         \<and> (r = None \<longrightarrow> D = set items))"
  using assms
proof (induction items arbitrary: first s)
  case Nil
  then show ?case by simp
next
  case (Cons item items)
  obtain r1 s1 where f: "flush_item P svc item s = (r1, s1)" by fastforce
  note l = flush_item_law [OF f Cons.prems(2)]
  have rest: "for_first (flush_item P svc) items (if first = None then r1 else first) s1 = (r, t)"
    using Cons.prems(1) f by simp
  have ok1: "ok s1" using l by simp
  have first: "r \<noteq> None" if nr: "r1 \<noteq> None"
  proof -
    obtain e where "(if first = None then r1 else first) = Some e"
      using nr by (cases first; cases r1) auto
    then have "for_first (flush_item P svc) items (Some e) s1 = (r, t)" using rest by simp
    then show ?thesis using for_first_Some [of "flush_item P svc" items e s1] by simp
  qed
  from Cons.IH [OF rest ok1] obtain D where D: "D \<subseteq> set items"
    "unpub t = filter (\<lambda>e. oe_ID e \<notin> oe_ID ` D) (unpub s1)"
    "\<forall>item \<in> D. \<exists>p. oe_Payload item = Some p \<and> delivered (ulog t) (dlog t) (oe_Kind item) p"
    "r = None \<longrightarrow> D = set items"
    and t: "ok t" "used s1 \<subseteq> used t" "live t = live s1" "events t = events s1" "blobs t = blobs s1"
      "prefix (ulog s1) (ulog t)" "prefix (dlog s1) (dlog t)" by blast
  have fr: "ok t \<and> used s \<subseteq> used t \<and> live t = live s \<and> events t = events s \<and> blobs t = blobs s
    \<and> prefix (ulog s) (ulog t) \<and> prefix (dlog s) (dlog t)"
    using l t by (auto intro: prefix_order.trans)
  have "\<exists>D' \<subseteq> set (item # items). unpub t = filter (\<lambda>e. oe_ID e \<notin> oe_ID ` D') (unpub s)
         \<and> (\<forall>item \<in> D'. \<exists>p. oe_Payload item = Some p \<and> delivered (ulog t) (dlog t) (oe_Kind item) p)
         \<and> (r = None \<longrightarrow> D' = set (item # items))"
  proof (cases "unpub s1 = unpub s \<and> r1 \<noteq> None")
    case True
    then show ?thesis using D first by (intro exI [of _ D]) auto
  next
    case False
    then have u: "unpub s1 = filter (\<lambda>e. oe_ID e \<noteq> oe_ID item) (unpub s)"
      "\<exists>p. oe_Payload item = Some p \<and> delivered (ulog s1) (dlog s1) (oe_Kind item) p"
      using l by auto
    then have d: "\<exists>p. oe_Payload item = Some p \<and> delivered (ulog t) (dlog t) (oe_Kind item) p"
      using delivered_mono t(6,7) set_mono_prefix by metis
    show ?thesis
      using D u(1) d by (intro exI [of _ "insert item D"]) (auto simp: conj_commute intro!: filter_cong)
  qed
  then show ?case using fr by blast
qed

lemma flush_effect:
  assumes "FlushOutbox P svc s = (r, t)" "ok s"
  shows "ok t \<and> used s \<subseteq> used t \<and> live t = live s \<and> events t = events s \<and> blobs t = blobs s
    \<and> prefix (ulog s) (ulog t) \<and> prefix (dlog s) (dlog t)
    \<and> (\<exists>D \<subseteq> set (take 50 (unpub s)). unpub t = filter (\<lambda>e. e \<notin> D) (unpub s)
         \<and> (\<forall>e \<in> D. \<exists>p. oe_Payload e = Some p \<and> delivered (ulog t) (dlog t) (oe_Kind e) p)
         \<and> (r = None \<longrightarrow> unpub t = drop 50 (unpub s)))"
proof -
  obtain r1 s1 where l: "ListUnpublished (svc_repo svc) 50 s = (r1, s1)" by fastforce
  have st: "store_step (svc_repo svc) s s1" using l by (rule step_unpublished)
  note ll = unpublished_law [OF l assms(2)] ok_step [OF st assms(2)] used_step [OF st assms(2)] store_frame [OF st]
  show ?thesis
  proof (cases r1)
    case (Inl err)
    then show ?thesis using assms(1) l ll by (auto simp: FlushOutbox_def intro!: exI [of _ "{}"])
  next
    case (Inr items)
    let ?s2 = "observe P (OutboxUnpublished_Set (int (length items))) s1"
    have f: "for_first (flush_item P svc) items None ?s2 = (r, t)" and ok2: "ok ?s2"
      using assms l Inr ll by (auto simp: FlushOutbox_def)
    have items: "items = take 50 (unpub s)" using ll Inr by simp
    from flush_items_law [OF f ok2] obtain D where D: "D \<subseteq> set items"
      "unpub t = filter (\<lambda>e. oe_ID e \<notin> oe_ID ` D) (unpub s)"
      "\<forall>item \<in> D. \<exists>p. oe_Payload item = Some p \<and> delivered (ulog t) (dlog t) (oe_Kind item) p"
      "r = None \<longrightarrow> D = set items" and fr: "ok t \<and> used s \<subseteq> used t \<and> live t = live s \<and> events t = events s
         \<and> blobs t = blobs s \<and> prefix (ulog s) (ulog t) \<and> prefix (dlog s) (dlog t)"
      using ll by auto
    have d: "distinct (map oe_ID (unpub s))" using unpub_ids [OF assms(2)] by simp
    have "D \<subseteq> set (unpub s)" using D(1) items by (auto dest: in_set_takeD)
    then have "oe_ID e \<in> oe_ID ` D \<longleftrightarrow> e \<in> D" if "e \<in> set (unpub s)" for e
      using d that by (auto simp: distinct_map inj_on_def subset_iff)
    then have u: "unpub t = filter (\<lambda>e. e \<notin> D) (unpub s)" using D(2) by (auto intro: filter_cong)
    have "filter (\<lambda>e. e \<notin> set (take 50 (unpub s))) (unpub s) = drop 50 (unpub s)"
    proof -
      have dd: "distinct (unpub s)" using d by (simp add: distinct_map)
      then have "set (take 50 (unpub s)) \<inter> set (drop 50 (unpub s)) = {}"
        by (simp add: set_take_disj_set_drop_if_distinct)
      then have "filter (\<lambda>e. e \<notin> set (take 50 (unpub s))) (take 50 (unpub s) @ drop 50 (unpub s)) = drop 50 (unpub s)"
        by (auto simp: filter_empty_conv filter_id_conv simp del: append_take_drop_id)
      then show ?thesis by simp
    qed
    then have "r = None \<longrightarrow> unpub t = drop 50 (unpub s)" using D(4) u items by simp
    then show ?thesis using D(1,3) fr u items by blast
  qed
qed

end

section \<open>Processing\<close>

text \<open>What a status change of an avatar leaves alone.\<close>

definition same_avatar :: "Avatar \<Rightarrow> Avatar \<Rightarrow> bool" where
  "same_avatar a b \<longleftrightarrow> same_core a b \<and> av_UserID b = av_UserID a \<and> av_FileName b = av_FileName a
     \<and> av_MimeType b = av_MimeType a \<and> av_S3Key b = av_S3Key a"

lemma same_avatar_refl [simp]: "same_avatar a a"
  by (simp add: same_avatar_def same_core_def)

lemma same_avatar_trans: "same_avatar a b \<Longrightarrow> same_avatar b c \<Longrightarrow> same_avatar a c"
  by (simp add: same_avatar_def same_core_def)

lemma same_avatar_update [simp]:
  "same_avatar a (a\<lparr>av_ProcessingStatus := p, av_UpdatedAt := n\<rparr>)"
  "same_avatar a (a\<lparr>av_Width := w, av_Height := h, av_ThumbnailS3Keys := m, av_UploadStatus := u,
      av_ProcessingStatus := p, av_UpdatedAt := n\<rparr>)"
  by (simp_all add: same_avatar_def same_core_def)

text \<open>Only the avatar \<open>i\<close> changes, and it stays the same avatar.\<close>

definition at_most :: "uuid \<Rightarrow> (uuid \<Rightarrow> Avatar option) \<Rightarrow> (uuid \<Rightarrow> Avatar option) \<Rightarrow> bool" where
  "at_most i m m' \<longleftrightarrow> (\<forall>j. j \<noteq> i \<longrightarrow> m' j = m j) \<and> rel_option same_avatar (m i) (m' i)"

lemma at_most_refl [simp]: "at_most i m m"
  by (cases "m i") (auto simp: at_most_def)

lemma at_most_trans: "at_most i m m' \<Longrightarrow> at_most i m' m'' \<Longrightarrow> at_most i m m''"
  by (auto simp: at_most_def elim!: option.rel_cases intro: same_avatar_trans)

lemma at_most_update: "m i = Some a \<Longrightarrow> same_avatar a a' \<Longrightarrow> at_most i m (m(i \<mapsto> a'))"
  by (simp add: at_most_def)

definition thumb_key :: "string \<Rightarrow> string \<Rightarrow> bool" where
  "thumb_key avatarID k \<longleftrightarrow> (\<exists>sz x. k = ThumbnailObjectKey avatarID sz x)"

context avatar_backend
begin

text \<open>Work on one avatar: only its row changes, and only objects that are its thumbnails.\<close>

definition works_on :: "string \<Rightarrow> uuid \<Rightarrow> 's \<Rightarrow> 's \<Rightarrow> bool" where
  "works_on aid i s t \<longleftrightarrow> ok t \<and> used s \<subseteq> used t \<and> events t = events s \<and> unpub t = unpub s
     \<and> ulog t = ulog s \<and> dlog t = dlog s \<and> at_most i (live s) (live t)
     \<and> (\<forall>k. \<not> thumb_key aid k \<longrightarrow> blobs t k = blobs s k)"

lemma works_on_refl: "ok s \<Longrightarrow> works_on aid i s s"
  by (simp add: works_on_def)

lemma works_on_trans: "works_on aid i s t \<Longrightarrow> works_on aid i t u \<Longrightarrow> works_on aid i s u"
  by (auto simp: works_on_def intro: at_most_trans)

lemma fail_works:
  assumes f: "FailProcessing (svc_repo svc) i s = (r, t)" and "ok s"
  shows "works_on aid i s t"
proof -
  have st: "store_step (svc_repo svc) s t" using f by (rule step_fail)
  have "at_most i (live s) (live t)"
    using fail_law [OF f assms(2)] at_most_update [OF _ same_avatar_update(1)] by (elim conjE disjE exE) simp_all
  then show ?thesis
    using fail_law [OF f assms(2)] ok_step [OF st assms(2)] used_step [OF st assms(2)] store_frame [OF st]
    by (simp add: works_on_def)
qed

lemma thumb_step:
  assumes "make_thumbs P svc i aid data mime0 ((sz, w, h) # specs) thumbs s = (r, t)" "ok s"
  obtains (failed) err where "r = Inl err" "works_on aid i s t"
  | (stored) body mime s1 where "MakeThumbnail (codecs P) data w h (FormatFromMIME mime0) = Inr (body, mime)"
      "works_on aid i s s1" "live s1 = live s"
      "blobs s1 = (blobs s)(ThumbnailObjectKey aid sz (ExtForMIME mime) \<mapsto> (mime, body))"
      "make_thumbs P svc i aid data mime0 specs
         (AList.update sz (ThumbnailObjectKey aid sz (ExtForMIME mime)) thumbs) s1 = (r, t)"
proof -
  let ?m = "MakeThumbnail (codecs P) data w h (FormatFromMIME mime0)"
  show thesis
  proof (cases ?m)
    case (Inl err)
    obtain rf s1 where f: "FailProcessing (svc_repo svc) i s = (rf, s1)" by fastforce
    then show thesis using failed [of err] assms Inl fail_works [OF f assms(2)] by auto
  next
    case (Inr bm)
    obtain body mime where bm: "bm = (body, mime)" by fastforce
    let ?key = "ThumbnailObjectKey aid sz (ExtForMIME mime)"
    have m: "mime \<noteq> []" using MakeThumbnail_mimes [of "codecs P"] Inr bm image_mimes_not_Nil by blast
    obtain ru s1 where u: "os_Upload (svc_objects svc) ?key mime body s = (ru, s1)" by fastforce
    note uf = os_upload_frame [OF u m]
    have tk: "\<not> thumb_key aid k \<Longrightarrow> k \<noteq> ?key" for k by (auto simp: thumb_key_def)
    have w1: "works_on aid i s s1" using uf tk assms(2) by (auto simp: works_on_def)
    show thesis
    proof (cases ru)
      case (Some err)
      obtain rf s2 where f: "FailProcessing (svc_repo svc) i s1 = (rf, s2)" by fastforce
      have "works_on aid i s s2" using w1 fail_works [OF f] works_on_trans uf assms(2) by blast
      then show thesis using failed [of err] assms(1) Inr bm u Some f by (auto simp: Let_def)
    next
      case None
      then show thesis using stored assms(1) Inr bm u uf w1 by (auto simp: Let_def)
    qed
  qed
qed

lemma thumbs_effect:
  assumes "make_thumbs P svc i aid data mime0 thumb_specs [] s = (r, t)" "ok s"
  shows "works_on aid i s t \<and> (\<forall>m. r = Inr m \<longrightarrow> live t = live s \<and>
     (\<exists>b1 m1 b2 m2. MakeThumbnail (codecs P) data 100 100 (FormatFromMIME mime0) = Inr (b1, m1)
        \<and> MakeThumbnail (codecs P) data 300 300 (FormatFromMIME mime0) = Inr (b2, m2)
        \<and> m = [(Size100, ThumbnailObjectKey aid Size100 (ExtForMIME m1)),
               (Size300, ThumbnailObjectKey aid Size300 (ExtForMIME m2))]
        \<and> blobs t (ThumbnailObjectKey aid Size100 (ExtForMIME m1)) = Some (m1, b1)
        \<and> blobs t (ThumbnailObjectKey aid Size300 (ExtForMIME m2)) = Some (m2, b2)))"
  using assms unfolding thumb_specs_def
proof (cases rule: thumb_step)
  case (failed err)
  then show ?thesis by simp
next
  case (stored b1 m1 s1)
  have ok1: "ok s1" using stored(2) by (simp add: works_on_def)
  have ne: "Size300 \<noteq> Size100" "ThumbnailObjectKey aid Size300 x \<noteq> ThumbnailObjectKey aid Size100 y" for x y
    by (simp_all add: size_defs ThumbnailObjectKey_def)
  from stored(5) ok1 show ?thesis
  proof (cases rule: thumb_step)
    case (failed err)
    then show ?thesis using works_on_trans [OF stored(2)] by simp
  next
    case stored2: (stored b2 m2 s2)
    then have "t = s2" "r = Inr [(Size100, ThumbnailObjectKey aid Size100 (ExtForMIME m1)),
               (Size300, ThumbnailObjectKey aid Size300 (ExtForMIME m2))]"
      using ne by auto
    then show ?thesis using works_on_trans [OF stored(2) stored2(2)] stored stored2 ne(2)
      by (simp add: ne(2) [symmetric])
  qed
qed

end

text \<open>
  An avatar whose processing is finished: both thumbnails have been made from the data, are stored
  under the avatar's thumbnail keys and are entered in its row.
\<close>

definition processed ::
    "'i codecs \<Rightarrow> string \<Rightarrow> string \<Rightarrow> (string \<Rightarrow> (string \<times> string) option) \<Rightarrow> Avatar \<Rightarrow> bool" where
  "processed c aid data bs a \<longleftrightarrow> av_ProcessingStatus a = ProcessingCompleted
     \<and> (\<exists>info b1 m1 b2 m2. Inspect c data = Inr info
        \<and> MakeThumbnail c data 100 100 (FormatFromMIME (info_MIME info)) = Inr (b1, m1)
        \<and> MakeThumbnail c data 300 300 (FormatFromMIME (info_MIME info)) = Inr (b2, m2)
        \<and> av_Width a = info_Width info \<and> av_Height a = info_Height info
        \<and> av_ThumbnailS3Keys a = ParseThumbnailKeys (Some (Some (ThumbnailKeysJSON
             (Some [(Size100, ThumbnailObjectKey aid Size100 (ExtForMIME m1)),
                    (Size300, ThumbnailObjectKey aid Size300 (ExtForMIME m2))]))))
        \<and> bs (ThumbnailObjectKey aid Size100 (ExtForMIME m1)) = Some (m1, b1)
        \<and> bs (ThumbnailObjectKey aid Size300 (ExtForMIME m2)) = Some (m2, b2))"

context avatar_backend
begin

lemma mark_works:
  assumes m: "MarkProcessing (svc_repo svc) i s = (r, t)" and "ok s"
  shows "works_on aid i s t \<and> blobs t = blobs s \<and>
    (r = Inr False \<longrightarrow> live t = live s) \<and>
    (r = Inr True \<longrightarrow> (\<exists>a. live s i = Some a \<and> av_ProcessingStatus a \<noteq> ProcessingCompleted))"
proof -
  have st: "store_step (svc_repo svc) s t" using m by (rule step_mark)
  have "at_most i (live s) (live t)"
    using mark_law [OF m assms(2)] at_most_update [OF _ same_avatar_update(1)]
    by (elim conjE disjE exE) simp_all
  then show ?thesis
    using mark_law [OF m assms(2)] ok_step [OF st assms(2)] used_step [OF st assms(2)] store_frame [OF st]
    by (auto simp: works_on_def)
qed

lemma complete_works:
  assumes c: "CompleteProcessing (svc_repo svc) i (Some m) w h s = (r, t)" and "ok s"
  shows "works_on aid i s t \<and> blobs t = blobs s \<and>
    (r = None \<longrightarrow> (\<exists>a a'. live s i = Some a \<and> live t i = Some a' \<and> same_avatar a a'
       \<and> av_ProcessingStatus a' = ProcessingCompleted
       \<and> (0 < w \<longrightarrow> av_Width a' = w) \<and> (0 < h \<longrightarrow> av_Height a' = h)
       \<and> av_ThumbnailS3Keys a' = ParseThumbnailKeys (Some (Some (ThumbnailKeysJSON (Some m))))))"
proof -
  have st: "store_step (svc_repo svc) s t" using c by (rule step_complete)
  have "at_most i (live s) (live t)"
    using complete_law [OF c assms(2)] at_most_update [OF _ same_avatar_update(2)]
    by (elim conjE disjE exE) simp_all
  then show ?thesis
    using complete_law [OF c assms(2)] ok_step [OF st assms(2)] used_step [OF st assms(2)] store_frame [OF st]
    by (auto simp: works_on_def)
qed

lemma download_works:
  "os_Download (svc_objects svc) k s = (r, t) \<Longrightarrow> ok s \<Longrightarrow> works_on aid i s t \<and> live t = live s \<and> blobs t = blobs s
    \<and> (\<forall>d ct. r = Inr (d, ct) \<longrightarrow> blobs s k = Some (ct, d))"
  using os_download_frame by (simp add: works_on_def)

lemma get_works:
  assumes g: "GetByID (svc_repo svc) i s = (r, t)" and "ok s"
  shows "works_on aid i s t \<and> live t = live s \<and> blobs t = blobs s \<and> (\<forall>a. r = Inr a \<longrightarrow> live s i = Some a)
    \<and> (\<forall>e. r = Inl e \<longrightarrow> errors_Is e ErrAvatarNotFound \<longrightarrow> live s i = None)"
proof -
  have st: "store_step (svc_repo svc) s t" using g by (rule step_get)
  show ?thesis
    using get_law [OF g assms(2)] ok_step [OF st assms(2)] used_step [OF st assms(2)] store_frame [OF st]
    by (simp add: works_on_def)
qed

text \<open>
  What the handling of an upload event does.  It ends without an error only when the avatar is
  gone, was completed, is being worked on, is not an image (a failure that is recorded and not
  retried), or has been processed.
\<close>

lemma complete_effect:
  assumes th: "make_thumbs P svc i aid data (info_MIME info) thumb_specs [] s = (Inr tm, s1)" and "ok s"
    and info: "Inspect (codecs P) data = Inr info"
    and c: "CompleteProcessing (svc_repo svc) i (Some tm) (info_Width info) (info_Height info) s1 = (r, t)"
  shows "works_on aid i s t \<and> (r = None \<longrightarrow> (\<exists>a. live t i = Some a \<and> processed (codecs P) aid data (blobs t) a))"
proof -
  note th' = thumbs_effect [OF th assms(2)]
  then have "ok s1" by (simp add: works_on_def)
  note c' = complete_works [OF c this, of aid]
  have "\<exists>a. live t i = Some a \<and> processed (codecs P) aid data (blobs t) a" if rn: "r = None"
  proof -
    obtain a where a: "live t i = Some a" "av_ProcessingStatus a = ProcessingCompleted"
      "av_Width a = info_Width info" "av_Height a = info_Height info"
      "av_ThumbnailS3Keys a = ParseThumbnailKeys (Some (Some (ThumbnailKeysJSON (Some tm))))"
      using c' rn Inspect_Inr(3,4) [OF info] by blast
    obtain b1 m1 b2 m2 where
      "MakeThumbnail (codecs P) data 100 100 (FormatFromMIME (info_MIME info)) = Inr (b1, m1)"
      "MakeThumbnail (codecs P) data 300 300 (FormatFromMIME (info_MIME info)) = Inr (b2, m2)"
      "tm = [(Size100, ThumbnailObjectKey aid Size100 (ExtForMIME m1)), (Size300, ThumbnailObjectKey aid Size300 (ExtForMIME m2))]"
      "blobs s1 (ThumbnailObjectKey aid Size100 (ExtForMIME m1)) = Some (m1, b1)"
      "blobs s1 (ThumbnailObjectKey aid Size300 (ExtForMIME m2)) = Some (m2, b2)"
      using th' by blast
    then show ?thesis using c' a info by (auto simp: processed_def)
  qed
  then show ?thesis using works_on_trans th' c' by blast
qed

text \<open>What follows once the lease is taken.\<close>

definition leased :: "uuid \<Rightarrow> string \<Rightarrow> string \<Rightarrow> ('s, goerr option) op" where
  "leased i aid key s =
    (case os_Download (svc_objects svc) key s of
       (Inl err, s) \<Rightarrow> (case FailProcessing (svc_repo svc) i s of (_, s) \<Rightarrow> (Some err, s))
     | (Inr (data, _), s) \<Rightarrow>
    (case Inspect (codecs P) data of
       Inl err \<Rightarrow> (case FailProcessing (svc_repo svc) i s of (_, s) \<Rightarrow> (None, s))
     | Inr info \<Rightarrow>
    (case make_thumbs P svc i aid data (info_MIME info) thumb_specs [] s of
       (Inl err, s) \<Rightarrow> (Some err, s)
     | (Inr thumbs, s) \<Rightarrow>
         CompleteProcessing (svc_repo svc) i (Some thumbs) (info_Width info) (info_Height info) s)))"

lemma leased_effect:
  assumes "leased i aid key s = (r, t)" "ok s"
  shows "works_on aid i s t \<and> (r = None \<longrightarrow> (\<exists>data ct. blobs s key = Some (ct, data) \<and>
      (blobs t = blobs s \<and> (\<exists>err. Inspect (codecs P) data = Inl err)
       \<or> (\<exists>a. live t i = Some a \<and> processed (codecs P) aid data (blobs t) a))))"
proof -
  obtain rd s1 where d: "os_Download (svc_objects svc) key s = (rd, s1)" by fastforce
  note d' = download_works [OF d assms(2), of aid i]
  then have ok1: "ok s1" by (simp add: works_on_def)
  obtain rf s2 where f: "FailProcessing (svc_repo svc) i s1 = (rf, s2)" by fastforce
  have w2: "works_on aid i s s2" using works_on_trans d' fail_works [OF f ok1] by blast
  have b2: "blobs s2 = blobs s" using store_frame [OF step_fail [OF f]] d' by simp
  consider (no_data) err where "rd = Inl err" | (no_image) data ct err where "rd = Inr (data, ct)" "Inspect (codecs P) data = Inl err"
    | (image) data ct info where "rd = Inr (data, ct)" "Inspect (codecs P) data = Inr info"
    by (cases rd) (auto, metis sum.exhaust)
  then show ?thesis
  proof cases
    case no_data
    then show ?thesis using assms(1) d f w2 by (auto simp: leased_def)
  next
    case no_image
    then have "r = None" "t = s2" using assms(1) d f by (auto simp: leased_def)
    then show ?thesis using no_image w2 b2 d' by auto
  next
    case image
    obtain rt s3 where th: "make_thumbs P svc i aid data (info_MIME info) thumb_specs [] s1 = (rt, s3)" by fastforce
    have res: "(case rt of Inl err \<Rightarrow> (Some err, s3) | Inr tm \<Rightarrow>
        CompleteProcessing (svc_repo svc) i (Some tm) (info_Width info) (info_Height info) s3) = (r, t)"
      using assms(1) d image th by (simp add: leased_def split: sum.splits)
    show ?thesis
    proof (cases rt)
      case (Inl err)
      then show ?thesis using res works_on_trans d' thumbs_effect [OF th ok1] by auto
    next
      case (Inr tm)
      then show ?thesis
        using complete_effect [OF th [unfolded Inr] ok1 image(2)] res works_on_trans d' image(1) by (simp, blast)
    qed
  qed
qed

text \<open>An avatar that waits for its thumbnails gets them, when nothing fails.\<close>

lemma pending_processed:
  assumes "processUpload P svc ev s = (None, t)" "ok s" "uuid_Parse P (ue_AvatarID ev) = Inr i"
    and "live s i = Some a" "av_ProcessingStatus a = ProcessingPending"
    and "blobs s (if ue_S3Key ev = [] then av_S3Key a else ue_S3Key ev) = Some (ct, data)" "Inspect (codecs P) data = Inr info"
  shows "\<exists>a'. live t i = Some a' \<and> same_avatar a a' \<and> processed (codecs P) (ue_AvatarID ev) data (blobs t) a'"
proof -
  obtain rg s1 where g: "GetByID (svc_repo svc) i s = (rg, s1)" by fastforce
  note g' = get_works [OF g assms(2), of "ue_AvatarID ev"]
  obtain rm s2 where m: "MarkProcessing (svc_repo svc) i s1 = (rm, s2)" by fastforce
  have ok1: "ok s1" using g' by (simp add: works_on_def)
  note m' = mark_works [OF m ok1, of "ue_AvatarID ev"]
  have w2: "works_on (ue_AvatarID ev) i s s2" using works_on_trans g' m' by blast
  have ra: "rg = Inr a" using assms(1,3,4) g g' by (cases rg) (auto simp: processUpload_def split: if_splits)
  have "av_ProcessingStatus a \<noteq> ProcessingCompleted"
    using assms(5) by (simp add: ProcessingPending_def ProcessingCompleted_def)
  moreover have "rm \<noteq> Inr False" using refused_law [of i s1 s2 a] m ok1 g' assms(4,5) by auto
  ultimately have l: "rm = Inr True"
    "leased i (ue_AvatarID ev) (if ue_S3Key ev = [] then av_S3Key a else ue_S3Key ev) s2 = (None, t)"
    using assms(1,3) g ra m by (auto simp: processUpload_def leased_def split: sum.splits if_splits)
  have "ok s2" "blobs s2 = blobs s" using w2 g' m' by (simp_all add: works_on_def)
  note l' = leased_effect [OF l(2) this(1)] this(2)
  then obtain a' where a': "live t i = Some a'" "processed (codecs P) (ue_AvatarID ev) data (blobs t) a'"
    using assms(6,7) by auto
  have "works_on (ue_AvatarID ev) i s t" using works_on_trans [OF w2] l' by blast
  then have "same_avatar a a'" using a' assms(4) by (simp add: works_on_def at_most_def)
  then show ?thesis using a' by blast
qed

lemma processUpload_effect:
  assumes "processUpload P svc ev s = (r, t)" "ok s" "uuid_Parse P (ue_AvatarID ev) = Inr i"
  shows "works_on (ue_AvatarID ev) i s t \<and>
    (r = None \<longrightarrow>
       live s i = None \<and> live t = live s \<and> blobs t = blobs s
     \<or> (\<exists>a. live s i = Some a \<and>
          (live t = live s \<and> blobs t = blobs s
           \<or> (\<exists>data ct. blobs s (if ue_S3Key ev = [] then av_S3Key a else ue_S3Key ev) = Some (ct, data) \<and>
               (blobs t = blobs s \<and> (\<exists>err. Inspect (codecs P) data = Inl err)
                \<or> (\<exists>a'. live t i = Some a' \<and> same_avatar a a'
                    \<and> processed (codecs P) (ue_AvatarID ev) data (blobs t) a'))))))"
proof -
  obtain rg s1 where g: "GetByID (svc_repo svc) i s = (rg, s1)" by fastforce
  note g' = get_works [OF g assms(2), of "ue_AvatarID ev"]
  obtain rm s2 where m: "MarkProcessing (svc_repo svc) i s1 = (rm, s2)" by fastforce
  have "ok s1" using g' by (simp add: works_on_def)
  note m' = mark_works [OF m this, of "ue_AvatarID ev"]
  have w2: "works_on (ue_AvatarID ev) i s s2" using works_on_trans g' m' by blast
  show ?thesis
  proof (cases rg)
    case (Inl err)
    then show ?thesis using assms g g' by (auto simp: processUpload_def split: if_splits)
  next
    case (Inr a)
    have a: "live s i = Some a" using g' Inr by simp
    show ?thesis
    proof (cases "av_ProcessingStatus a \<noteq> ProcessingCompleted \<and> rm = Inr True")
      case False
      then show ?thesis using assms g g' Inr m m' w2 a
        by (cases rm) (auto simp: processUpload_def split: if_splits)
    next
      case True
      let ?key = "if ue_S3Key ev = [] then av_S3Key a else ue_S3Key ev"
      have l: "leased i (ue_AvatarID ev) ?key s2 = (r, t)"
        using assms(1,3) g Inr True m by (simp add: processUpload_def leased_def)
      have "ok s2" using w2 by (simp add: works_on_def)
      note l' = leased_effect [OF l this]
      have w: "works_on (ue_AvatarID ev) i s t" using works_on_trans [OF w2] l' by blast
      then have "live t i = Some a' \<Longrightarrow> same_avatar a a'" for a' using a by (simp add: works_on_def at_most_def)
      moreover have "blobs s2 = blobs s" using g' m' by simp
      ultimately show ?thesis using w a l' by (intro conjI) (simp, metis)
    qed
  qed
qed

end

end
