(* ===== verification/Service_Invariant.thy ===== *)
theory Service_Invariant
  imports Service_Laws
begin

text \<open>
  The promise of the transactional outbox, as an invariant of every sequence of service calls:
  \<open>recorded\<close> says that the event of every avatar that was stored or deleted is in the outbox in readable form, and
  that an event which is not waiting there any more has been written to its topic.  \<open>svc_step\<close> is one
  call of any method of the service, with any arguments and any outcome of the calls below it.
\<close>

section \<open>The invariant\<close>

text \<open>An outbox entry that \<open>publishKind\<close> can read.\<close>

definition decodes :: "string \<Rightarrow> json \<Rightarrow> bool" where
  "decodes k p \<longleftrightarrow> k = OutboxUpload \<and> (\<exists>e. unmarshal_upload (Some p) = Inr e)
     \<or> k = OutboxDelete \<and> (\<exists>e. unmarshal_delete (Some p) = Inr e)"

lemma decodes_marshal [simp]:
  "decodes OutboxUpload (marshal_upload e)" "decodes OutboxDelete (marshal_delete d)"
  by (simp_all add: decodes_def unmarshal_marshal_upload unmarshal_marshal_delete)

definition recorded ::
    "(uuid \<Rightarrow> string) \<Rightarrow> uuid set \<Rightarrow> (uuid \<Rightarrow> Avatar option) \<Rightarrow> (string \<Rightarrow> (string \<times> json) option)
     \<Rightarrow> OutboxEvent list \<Rightarrow> document list \<Rightarrow> document list \<Rightarrow> bool" where
  "recorded str used live events unpub us ds \<longleftrightarrow>
     (\<forall>i. live i \<noteq> None \<longrightarrow> (\<exists>p. events (UploadEventID (str i)) = Some (OutboxUpload, p))) \<and>
     (\<forall>i. events (UploadEventID (str i)) \<noteq> None \<longrightarrow> live i = None \<longrightarrow>
        (\<exists>p. events (DeleteEventID (str i)) = Some (OutboxDelete, p))) \<and>
     (\<forall>i. events (DeleteEventID (str i)) \<noteq> None \<longrightarrow> live i = None \<and> i \<in> used) \<and>
     (\<forall>i. events (UploadEventID (str i)) \<noteq> None \<longrightarrow> i \<in> used) \<and>
     (\<forall>eid k p. events eid = Some (k, p) \<longrightarrow> eid \<in> oe_EventID ` set unpub \<or> delivered us ds k p) \<and>
     (\<forall>eid k p. events eid = Some (k, p) \<longrightarrow> decodes k p)"

section \<open>One call of the service\<close>

inductive svc_step :: "('s, 'i) packages \<Rightarrow> 's AvatarService \<Rightarrow> 's \<Rightarrow> 's \<Rightarrow> bool" for P svc where
  svc_Upload: "Upload P svc u name data s = (r1, t) \<Longrightarrow> svc_step P svc s t"
| svc_Get: "Get svc i s = (r2, t) \<Longrightarrow> svc_step P svc s t"
| svc_GetLatest: "GetLatest svc u s = (r2, t) \<Longrightarrow> svc_step P svc s t"
| svc_List: "List_svc svc u s = (r3, t) \<Longrightarrow> svc_step P svc s t"
| svc_Delete: "Delete P svc i u s = (r4, t) \<Longrightarrow> svc_step P svc s t"
| svc_DeleteLatest: "DeleteLatest P svc u s = (r4, t) \<Longrightarrow> svc_step P svc s t"
| svc_FlushOutbox: "FlushOutbox P svc s = (r4, t) \<Longrightarrow> svc_step P svc s t"
| svc_RecoverStuck: "RecoverStuck P svc s = (r4, t) \<Longrightarrow> svc_step P svc s t"
| svc_FetchImage: "FetchImage P svc a sz f s = (r5, t) \<Longrightarrow> svc_step P svc s t"
| svc_ProcessUpload: "ProcessUpload P svc ue s = (r4, t) \<Longrightarrow> svc_step P svc s t"
| svc_ProcessDelete: "ProcessDelete P svc de s = (r4, t) \<Longrightarrow> svc_step P svc s t"

context avatar_backend
begin

definition inv :: "'s \<Rightarrow> bool" where
  "inv s \<longleftrightarrow> ok s \<and> recorded (uuid_String P) (used s) (live s) (events s) (unpub s) (ulog s) (dlog s)"

text \<open>Steps that neither make nor delete avatars or events keep the promise.\<close>

lemma inv_quiet:
  assumes "inv s" "ok t" "used s \<subseteq> used t" "\<And>i. live t i = None \<longleftrightarrow> live s i = None"
    "events t = events s" "unpub t = unpub s" "ulog t = ulog s" "dlog t = dlog s"
  shows "inv t"
proof -
  have "live s i = None \<longleftrightarrow> live t i = None" for i using assms(4) by simp
  then show ?thesis using assms unfolding inv_def recorded_def by (auto simp del: not_None_eq)
qed

lemma inv_upload:
  assumes "Upload P svc u name data s = (r, t)" "inv s"
  shows "inv t"
proof -
  obtain r1 s1 where up: "upload P svc u name data s = (r1, s1)" by fastforce
  have t: "ok t = ok s1" "used t = used s1" "live t = live s1" "events t = events s1" "unpub t = unpub s1"
    "ulog t = ulog s1" "dlog t = dlog s1"
    using assms(1) up by (auto simp: Upload_def Let_def split: sum.splits)
  have oks: "ok s" and rec: "recorded (uuid_String P) (used s) (live s) (events s) (unpub s) (ulog s) (dlog s)"
    using assms(2) by (auto simp: inv_def)
  from up oks have "inv s1"
  proof (cases rule: upload_effect)
    case (unchanged err)
    then show ?thesis using inv_quiet [OF assms(2)] by simp
  next
    case (committed info a a')
    let ?i = "av_ID a"
    have none: "events s (UploadEventID (uuid_String P ?i)) = None"
      "events s (DeleteEventID (uuid_String P ?i)) = None"
      using rec committed(10) unfolding recorded_def by blast+
    obtain ev where ev: "unpub s1 = unpub s @ [ev]" "oe_EventID ev = UploadEventID (uuid_String P ?i)"
      using committed(19) none(1) by blast
    have "recorded (uuid_String P) (used s1) (live s1) (events s1) (unpub s1) (ulog s1) (dlog s1)"
      using rec committed(10-12) none ev unfolding recorded_def committed(17,18,21,22)
      by (intro conjI) (auto simp: subset_iff)
    then show ?thesis using committed(20) by (simp add: inv_def)
  qed
  then show ?thesis by (simp add: inv_def t)
qed

lemma inv_delete:
  assumes "Delete P svc i u s = (r, t)" "inv s"
  shows "inv t"
proof -
  obtain r1 s1 where d: "delete P svc i u s = (r1, s1)" by fastforce
  have t: "ok t = ok s1" "used t = used s1" "live t = live s1" "events t = events s1" "unpub t = unpub s1"
    "ulog t = ulog s1" "dlog t = dlog s1"
    using assms(1) d by (auto simp: Delete_def)
  have oks: "ok s" and rec: "recorded (uuid_String P) (used s) (live s) (events s) (unpub s) (ulog s) (dlog s)"
    using assms(2) by (auto simp: inv_def)
  from d oks have "inv s1"
  proof (cases rule: delete_effect)
    case (unchanged err)
    then show ?thesis using inv_quiet [OF assms(2)] by simp
  next
    case (deleted a)
    have none: "events s (DeleteEventID (uuid_String P i)) = None"
      using rec deleted(2) unfolding recorded_def by (metis option.discI)
    have used: "i \<in> used s" using live_used [OF oks] deleted(2) by blast
    obtain ev where ev: "unpub s1 = unpub s @ [ev]" "oe_EventID ev = DeleteEventID (uuid_String P i)"
      using deleted(8) none by blast
    have "recorded (uuid_String P) (used s1) (live s1) (events s1) (unpub s1) (ulog s1) (dlog s1)"
      using rec deleted(6) none ev used unfolding recorded_def deleted(5,7,10,11)
      by (intro conjI) (auto simp: subset_iff)
    then show ?thesis using deleted(9) by (simp add: inv_def)
  qed
  then show ?thesis by (simp add: inv_def t)
qed

lemma inv_flush:
  assumes "FlushOutbox P svc s = (r, t)" "inv s"
  shows "inv t"
proof -
  have oks: "ok s" and rec: "recorded (uuid_String P) (used s) (live s) (events s) (unpub s) (ulog s) (dlog s)"
    using assms(2) by (auto simp: inv_def)
  from flush_effect [OF assms(1) oks] obtain D where D: "D \<subseteq> set (take 50 (unpub s))"
    "unpub t = filter (\<lambda>e. e \<notin> D) (unpub s)"
    "\<forall>e \<in> D. \<exists>p. oe_Payload e = Some p \<and> delivered (ulog t) (dlog t) (oe_Kind e) p"
    and fr: "ok t" "used s \<subseteq> used t" "live t = live s" "events t = events s"
      "prefix (ulog s) (ulog t)" "prefix (dlog s) (dlog t)" by blast
  have "eid \<in> oe_EventID ` set (unpub t) \<or> delivered (ulog t) (dlog t) k p" if e: "events s eid = Some (k, p)" for eid k p
  proof -
    have "eid \<in> oe_EventID ` set (unpub s) \<or> delivered (ulog s) (dlog s) k p"
      using rec e unfolding recorded_def by blast
    then show ?thesis
    proof
      assume "eid \<in> oe_EventID ` set (unpub s)"
      then obtain ev where ev: "ev \<in> set (unpub s)" "eid = oe_EventID ev" by blast
      show ?thesis
      proof (cases "ev \<in> D")
        case True
        then show ?thesis using D(3) unpub_events [OF oks ev(1)] ev(2) e by fastforce
      next
        case False
        then show ?thesis using ev D(2) by auto
      qed
    next
      assume "delivered (ulog s) (dlog s) k p"
      then show ?thesis using delivered_mono fr(5,6) set_mono_prefix by blast
    qed
  qed
  then show ?thesis using rec fr unfolding inv_def recorded_def by (auto simp: subset_iff)
qed

lemma works_on_inv:
  assumes "works_on aid i s t" "inv s"
  shows "inv t"
proof -
  have l: "live t j = None \<longleftrightarrow> live s j = None" for j
  proof (cases "j = i")
    case True
    have "rel_option same_avatar (live s i) (live t i)" using assms(1) by (simp add: works_on_def at_most_def)
    then show ?thesis using True by (cases "live s i"; cases "live t i") auto
  next
    case False
    then show ?thesis using assms(1) by (simp add: works_on_def at_most_def)
  qed
  show ?thesis using assms by (intro inv_quiet [OF assms(2) _ _ l]) (auto simp: works_on_def)
qed

lemma inv_observe [simp]: "inv (observe P m s) = inv s"
  by (simp add: inv_def)

lemma inv_process:
  assumes "ProcessUpload P svc ev s = (r, t)" "inv s"
  shows "inv t"
proof -
  obtain r1 s1 where p: "processUpload P svc ev s = (r1, s1)" by fastforce
  then have t: "t = observe P (ProcessedTotal ''upload'' (StatusOK r1)) s1"
    using assms(1) by (auto simp: ProcessUpload_def)
  show ?thesis
  proof (cases "uuid_Parse P (ue_AvatarID ev)")
    case (Inl err)
    then show ?thesis using p t assms(2) by (simp add: processUpload_def)
  next
    case (Inr i)
    have "ok s" using assms(2) by (simp add: inv_def)
    from processUpload_effect [OF p this Inr] have "works_on (ue_AvatarID ev) i s s1" by blast
    then show ?thesis using works_on_inv assms(2) t by simp
  qed
qed

lemma inv_recover:
  assumes "RecoverStuck P svc s = (r, t)" "inv s"
  shows "inv t"
proof -
  obtain r1 s1 where l: "ListStuckUploads (svc_repo svc) 20 s = (r1, s1)" by fastforce
  have st: "store_step (svc_repo svc) s s1" using l by (rule step_stuck)
  have oks: "ok s" using assms(2) by (simp add: inv_def)
  have i1: "inv s1"
    using stuck_law [OF l oks] ok_step [OF st oks] used_step [OF st oks] store_frame [OF st]
    by (intro inv_quiet [OF assms(2)]) auto
  show ?thesis
  proof (cases r1)
    case (Inl err)
    then show ?thesis using assms(1) l i1 by (simp add: RecoverStuck_def)
  next
    case (Inr items)
    have "preserves inv (for_first (\<lambda>a. ProcessUpload P svc (recover_event P a)) items None)"
      by (rule for_first_preserves) (auto intro!: preservesI dest: inv_process)
    then show ?thesis using assms(1) l Inr i1 by (auto simp: RecoverStuck_def intro: preservesD)
  qed
qed

lemma inv_read:
  assumes "store_step (svc_repo svc) s t" "inv s" "live t = live s" "events t = events s" "unpub t = unpub s"
  shows "inv t"
proof -
  have oks: "ok s" using assms(2) by (simp add: inv_def)
  show ?thesis using assms ok_step [OF assms(1) oks] used_step [OF assms(1) oks] store_frame [OF assms(1)]
    by (intro inv_quiet [OF assms(2)]) auto
qed

lemma inv_get_latest:
  assumes "GetLatestByUserID (svc_repo svc) u s = (r, t)" "inv s"
  shows "inv t"
  using latest_law [OF assms(1)] assms(2) by (intro inv_read [OF step_latest [OF assms(1)] assms(2)]) (auto simp: inv_def)

lemma inv_fetch:
  assumes "FetchImage P svc a sz f s = (r, t)" "inv s"
  shows "inv t"
proof -
  have "inv t" if "os_Download (svc_objects svc) k s = (r', t)" for k r'
    using os_download_frame [OF that] by (intro inv_quiet [OF assms(2)]) (use assms(2) in \<open>auto simp: inv_def\<close>)
  then show ?thesis using assms
    by (auto simp: FetchImage_def Let_def split: sum.splits prod.splits if_splits)
qed

lemma inv_step:
  assumes "svc_step P svc s t" "inv s"
  shows "inv t"
  using assms(1)
proof cases
  case (svc_Get i r)
  then have "GetByID (svc_repo svc) i s = (r, t)" by (simp add: Get_def)
  then show ?thesis using get_law assms(2)
    by (intro inv_read [OF step_get assms(2)]) (auto simp: inv_def)
next
  case (svc_GetLatest u r)
  then show ?thesis using assms(2)
    by (auto simp: GetLatest_def split: option.splits dest: inv_get_latest)
next
  case (svc_List u r)
  have "inv t" if l: "ListByUserID (svc_repo svc) u s = (r', t)" for r'
    using list_law [OF l] assms(2) by (intro inv_read [OF step_list [OF l] assms(2)]) (auto simp: inv_def)
  then show ?thesis using svc_List assms(2) by (auto simp: List_svc_def split: option.splits)
next
  case (svc_DeleteLatest u r)
  then show ?thesis using assms(2)
    by (auto simp: DeleteLatest_def split: option.splits sum.splits prod.splits
        dest: inv_get_latest inv_delete)
next
  case (svc_ProcessDelete de r)
  obtain r1 s1 where d: "os_Delete (svc_objects svc) (de_S3Keys de) s = (r1, s1)" by fastforce
  have "inv s1" using os_delete_frame [OF d]
    by (intro inv_quiet [OF assms(2)]) (use assms(2) in \<open>auto simp: inv_def\<close>)
  then show ?thesis using svc_ProcessDelete d by (auto simp: ProcessDelete_def)
qed (use assms(2) in \<open>auto dest: inv_upload inv_delete inv_flush inv_recover inv_fetch inv_process\<close>)

lemma inv_reachable: "(svc_step P svc)\<^sup>*\<^sup>* s t \<Longrightarrow> inv s \<Longrightarrow> inv t"
  by (induction rule: rtranclp_induct) (auto dest: inv_step)

end

end
