(* ===== verification/Repository.thy ===== *)
theory Repository
  imports Interfaces
begin

text \<open>
  \<open>internal/repository/postgres.go\<close> over the schema of \<open>migrations/0001_init.sql\<close> and
  \<open>migrations/0002_outbox.sql\<close>.

  The tables are lists of rows; an SQL statement of the source is a function of the time \<open>NOW()\<close>
  and the tables.  Which statements reach the server and whose replies reach the program is not in
  the program's hands: the driver (pgx and the server behind it) is a parameter that decides, for
  every call, between the three outcomes of \<open>reply\<close>.  Statements run one at a time; a transaction
  works on the tables and restores them unless it commits.
\<close>

section \<open>Tables\<close>

record avatar_row =
  c_id :: uuid
  c_user_id :: string
  c_file_name :: string
  c_mime_type :: string
  c_size_bytes :: int
  c_width :: int
  c_height :: int
  c_s3_key :: string
  c_thumbnail_s3_keys :: "json option"
  c_upload_status :: string
  c_processing_status :: string
  c_created_at :: time
  c_updated_at :: time
  c_deleted_at :: "time option"

record outbox_row =
  o_id :: int
  o_event_id :: string
  o_kind :: string
  o_payload :: json
  o_published_at :: "time option"

record db =
  t_avatars :: "avatar_row list"
  t_outbox :: "outbox_row list"
  outbox_seq :: int               \<comment> \<open>the last value the BIGSERIAL column has handed out\<close>

text \<open>The state of the whole system: the tables, everything outside the process, the metrics sent.\<close>

record 'e sys =
  tables :: db
  outside :: 'e
  metrics :: "metric list"

text \<open>
  Column types.  A text value must be UTF-8 without NUL; \<open>VARCHAR(n)\<close> refuses a value of more than
  \<open>n\<close> characters unless the surplus is blanks, which are cut off.
\<close>

definition varchar :: "nat \<Rightarrow> string \<Rightarrow> string option" where
  "varchar n s =
    (if \<not> valid_utf8 s \<or> CHR 0x00 \<in> set s then None
     else let rs = runes s in
       if length rs \<le> n then Some s
       else if list_all (\<lambda>r. r = 32) (drop n rs) then Some (utf8 (take n rs))
       else None)"

definition int4 :: "int \<Rightarrow> bool" where
  "int4 i \<longleftrightarrow> - (2 ^ 31) \<le> i \<and> i < 2 ^ 31"

fun no_nul :: "json \<Rightarrow> bool" where
  "no_nul (JStr s) = (CHR 0x00 \<notin> set s)"
| "no_nul (JArr vs) = list_all no_nul vs"
| "no_nul (JObj kvs) = list_all (\<lambda>(k, v). CHR 0x00 \<notin> set k \<and> no_nul v) kvs"
| "no_nul _ = True"

section \<open>Statements\<close>

type_synonym 'a stmt = "time \<Rightarrow> db \<Rightarrow> 'a result \<times> db"

definition constraint_error :: goerr where
  "constraint_error = ErrExternal ''constraint violation''"

definition insert_avatar :: "Avatar \<Rightarrow> unit stmt" where
  "insert_avatar a t d =
    (case those [varchar 255 (av_UserID a), varchar 255 (av_FileName a), varchar 100 (av_MimeType a),
                 varchar 500 (av_S3Key a), varchar 50 (av_UploadStatus a),
                 varchar 50 (av_ProcessingStatus a)] of
       Some [u, f, m, k, us, ps] \<Rightarrow>
         if av_ID a \<in> c_id ` set (t_avatars d) \<or> \<not> int4 (av_Width a) \<or> \<not> int4 (av_Height a)
           \<or> \<not> no_nul (ThumbnailKeysJSON (av_ThumbnailS3Keys a))
         then (Inl constraint_error, d)
         else (Inr (), d\<lparr>t_avatars := t_avatars d @
           [\<lparr>c_id = av_ID a, c_user_id = u, c_file_name = f, c_mime_type = m,
             c_size_bytes = av_SizeBytes a, c_width = av_Width a, c_height = av_Height a,
             c_s3_key = k, c_thumbnail_s3_keys = Some (ThumbnailKeysJSON (av_ThumbnailS3Keys a)),
             c_upload_status = us, c_processing_status = ps,
             c_created_at = av_CreatedAt a, c_updated_at = av_UpdatedAt a,
             c_deleted_at = None\<rparr>]\<rparr>)
     | _ \<Rightarrow> (Inl constraint_error, d))"

text \<open>
  \<open>INSERT INTO outbox_events .. ON CONFLICT (event_id) DO UPDATE .. RETURNING id\<close>.  The sequence
  moves on even when the row exists already.
\<close>

definition insert_outbox :: "OutboxEvent \<Rightarrow> int stmt" where
  "insert_outbox ev t d0 =
    (let d = d0\<lparr>outbox_seq := outbox_seq d0 + 1\<rparr> in
     case (varchar 255 (oe_EventID ev), varchar 50 (oe_Kind ev), oe_Payload ev) of
       (Some eid, Some k, Some p) \<Rightarrow>
         if \<not> no_nul p then (Inl constraint_error, d)
         else (case find (\<lambda>r. o_event_id r = eid) (t_outbox d) of
           Some old \<Rightarrow>
             (Inr (o_id old),
              d\<lparr>t_outbox := update_where (\<lambda>r. o_event_id r = eid)
                  (\<lambda>r. r\<lparr>o_kind := k, o_payload := p\<rparr>) (t_outbox d)\<rparr>)
         | None \<Rightarrow>
             (Inr (outbox_seq d),
              d\<lparr>t_outbox := t_outbox d @
                  [\<lparr>o_id = outbox_seq d, o_event_id = eid, o_kind = k, o_payload = p,
                    o_published_at = None\<rparr>]\<rparr>))
     | _ \<Rightarrow> (Inl constraint_error, d))"

text \<open>\<open>QueryRow\<close> takes the first row of the result.\<close>

definition first_row :: "'a list \<Rightarrow> 'a result" where
  "first_row rows = (case rows of [] \<Rightarrow> Inl ErrNoRows | r # _ \<Rightarrow> Inr r)"

definition select_by_id :: "uuid \<Rightarrow> avatar_row stmt" where
  "select_by_id i t d =
    (first_row (filter (\<lambda>r. c_id r = i \<and> c_deleted_at r = None) (t_avatars d)), d)"

definition user_rows :: "string \<Rightarrow> db \<Rightarrow> avatar_row list" where
  "user_rows u d =
    sort_key (\<lambda>r. - c_created_at r)
      (filter (\<lambda>r. c_user_id r = u \<and> c_deleted_at r = None) (t_avatars d))"

definition select_latest :: "string \<Rightarrow> avatar_row stmt" where
  "select_latest u t d =
    (first_row (take 1 (sort_key (\<lambda>r. - c_created_at r)
       (filter (\<lambda>r. c_user_id r = u \<and> c_deleted_at r = None) (t_avatars d)))), d)"

definition select_by_user :: "string \<Rightarrow> avatar_row list stmt" where
  "select_by_user u t d = (Inr (user_rows u d), d)"

definition update_soft_delete :: "uuid \<Rightarrow> string \<Rightarrow> avatar_row stmt" where
  "update_soft_delete i u t d =
    (let p = (\<lambda>r. c_id r = i \<and> c_user_id r = u \<and> c_deleted_at r = None);
         f = (\<lambda>r. r\<lparr>c_deleted_at := Some t, c_updated_at := t\<rparr>)
     in (first_row (map f (filter p (t_avatars d))), d\<lparr>t_avatars := update_where p f (t_avatars d)\<rparr>))"

definition two_minutes :: time where
  "two_minutes = 120000000"

definition update_mark_processing :: "uuid \<Rightarrow> uuid stmt" where
  "update_mark_processing i t d =
    (let p = (\<lambda>r. c_id r = i \<and> c_deleted_at r = None \<and>
               (c_processing_status r \<in> {ProcessingPending, ProcessingFailed} \<or>
                c_processing_status r = ProcessingProcessing \<and> c_updated_at r < t - two_minutes));
         f = (\<lambda>r. r\<lparr>c_processing_status := ProcessingProcessing, c_updated_at := t\<rparr>)
     in (first_row (map c_id (filter p (t_avatars d))),
         d\<lparr>t_avatars := update_where p f (t_avatars d)\<rparr>))"

text \<open>The number of rows an \<open>UPDATE\<close> touched is its result.\<close>

definition update_complete :: "uuid \<Rightarrow> json \<Rightarrow> int \<Rightarrow> int \<Rightarrow> nat stmt" where
  "update_complete i raw w h t d =
    (if \<not> int4 w \<or> \<not> int4 h \<or> \<not> no_nul raw then (Inl constraint_error, d)
     else let p = (\<lambda>r. c_id r = i \<and> c_deleted_at r = None);
         f = (\<lambda>r. r\<lparr>c_thumbnail_s3_keys := Some raw,
                    c_width := (if w > 0 then w else c_width r),
                    c_height := (if h > 0 then h else c_height r),
                    c_processing_status := ProcessingCompleted,
                    c_upload_status := UploadStatusStored, c_updated_at := t\<rparr>)
     in (Inr (length (filter p (t_avatars d))), d\<lparr>t_avatars := update_where p f (t_avatars d)\<rparr>))"

definition update_fail :: "uuid \<Rightarrow> nat stmt" where
  "update_fail i t d =
    (let p = (\<lambda>r. c_id r = i \<and> c_deleted_at r = None);
         f = (\<lambda>r. r\<lparr>c_processing_status := ProcessingFailed, c_updated_at := t\<rparr>)
     in (Inr (length (filter p (t_avatars d))), d\<lparr>t_avatars := update_where p f (t_avatars d)\<rparr>))"

definition select_unpublished :: "int \<Rightarrow> outbox_row list stmt" where
  "select_unpublished limit t d =
    (Inr (take (nat limit) (sort_key o_id (filter (\<lambda>r. o_published_at r = None) (t_outbox d)))), d)"

definition update_published :: "int \<Rightarrow> nat stmt" where
  "update_published i t d =
    (let p = (\<lambda>r. o_id r = i) in
     (Inr (length (filter p (t_outbox d))),
      d\<lparr>t_outbox := update_where p (\<lambda>r. r\<lparr>o_published_at := Some t\<rparr>) (t_outbox d)\<rparr>))"

definition select_stuck :: "int \<Rightarrow> avatar_row list stmt" where
  "select_stuck limit t d =
    (Inr (take (nat limit) (sort_key c_created_at (filter
       (\<lambda>r. c_deleted_at r = None \<and>
            (c_processing_status r \<in> {ProcessingPending, ProcessingFailed} \<or>
             c_processing_status r = ProcessingProcessing \<and> c_updated_at r < t - two_minutes))
       (t_avatars d)))), d)"

section \<open>Calls and transactions\<close>

datatype reply = Delivered | Refused string | ReplyLost string

record 'e driver =
  pg_reply :: "('e, reply) op"
  pg_now :: "'e \<Rightarrow> time"

definition call :: "'e driver \<Rightarrow> 'a stmt \<Rightarrow> ('e sys, 'a result) op" where
  "call D st s =
    (case pg_reply D (outside s) of (rep, e) \<Rightarrow>
     (case st (pg_now D e) (tables s) of (r, d) \<Rightarrow>
     (case rep of
        Delivered \<Rightarrow> (r, s\<lparr>outside := e, tables := d\<rparr>)
      | Refused m \<Rightarrow> (Inl (ErrExternal m), s\<lparr>outside := e\<rparr>)
      | ReplyLost m \<Rightarrow> (Inl (ErrExternal m), s\<lparr>outside := e, tables := d\<rparr>))))"

text \<open>Reading the rows of a \<open>Query\<close> may fail on the way (\<open>rows.Err()\<close>).\<close>

definition fetch_all :: "'e driver \<Rightarrow> 'a list \<Rightarrow> ('e sys, 'a list result) op" where
  "fetch_all D rows s =
    (case pg_reply D (outside s) of (rep, e) \<Rightarrow>
     (case rep of
        Delivered \<Rightarrow> (Inr rows, s\<lparr>outside := e\<rparr>)
      | Refused m \<Rightarrow> (Inl (ErrExternal m), s\<lparr>outside := e\<rparr>)
      | ReplyLost m \<Rightarrow> (Inl (ErrExternal m), s\<lparr>outside := e\<rparr>)))"

text \<open>A rolled back transaction leaves the tables as they were, but not the sequence.\<close>

definition rollback :: "db \<Rightarrow> db \<Rightarrow> db" where
  "rollback before now = before\<lparr>outbox_seq := outbox_seq now\<rparr>"

definition withTx :: "'e driver \<Rightarrow> (time \<Rightarrow> ('e sys, 'a result) op) \<Rightarrow> ('e sys, 'a result) op" where
  "withTx D fn s =
    (case call D (\<lambda>t d. (Inr t, d)) s of
       (Inl err, s) \<Rightarrow> (Inl (ErrWrap ''begin tx'' err), s)
     | (Inr t, s1) \<Rightarrow>
     (case fn t s1 of
        (Inl err, s) \<Rightarrow> (Inl err, s\<lparr>tables := rollback (tables s1) (tables s)\<rparr>)
      | (Inr x, s) \<Rightarrow>
      (case pg_reply D (outside s) of (rep, e) \<Rightarrow>
      (case rep of
         Delivered \<Rightarrow> (Inr x, s\<lparr>outside := e\<rparr>)
       | Refused m \<Rightarrow> (Inl (ErrWrap ''commit tx'' (ErrExternal m)),
                       s\<lparr>outside := e, tables := rollback (tables s1) (tables s)\<rparr>)
       | ReplyLost m \<Rightarrow> (Inl (ErrWrap ''commit tx'' (ErrExternal m)), s\<lparr>outside := e\<rparr>)))))"

section \<open>The repository\<close>

definition repo_Ping :: "'e driver \<Rightarrow> ('e sys, goerr option) op" where
  "repo_Ping D s =
    (case call D (\<lambda>t d. (Inr (), d)) s of
       (Inl err, s) \<Rightarrow> (Some err, s)
     | (Inr _, s) \<Rightarrow> (None, s))"

definition row_avatar :: "avatar_row \<Rightarrow> Avatar" where
  "row_avatar r =
    \<lparr>av_ID = c_id r, av_UserID = c_user_id r, av_FileName = c_file_name r,
     av_MimeType = c_mime_type r, av_SizeBytes = c_size_bytes r, av_Width = c_width r,
     av_Height = c_height r, av_S3Key = c_s3_key r,
     av_ThumbnailS3Keys = ParseThumbnailKeys
       (Some (Some (case c_thumbnail_s3_keys r of None \<Rightarrow> JObj [] | Some j \<Rightarrow> j))),
     av_UploadStatus = c_upload_status r, av_ProcessingStatus = c_processing_status r,
     av_CreatedAt = c_created_at r, av_UpdatedAt = c_updated_at r, av_DeletedAt = c_deleted_at r\<rparr>"

definition scanAvatar :: "avatar_row result \<Rightarrow> Avatar result" where
  "scanAvatar row =
    (case row of
       Inl err \<Rightarrow> if errors_Is err ErrNoRows then Inl ErrAvatarNotFound
                  else Inl (ErrWrap ''scan avatar'' err)
     | Inr r \<Rightarrow> Inr (row_avatar r))"

definition insertOutbox :: "'e driver \<Rightarrow> time \<Rightarrow> OutboxEvent \<Rightarrow> ('e sys, int result) op" where
  "insertOutbox D t ev s =
    (case call D (\<lambda>_. insert_outbox ev t) s of
       (Inl err, s) \<Rightarrow> (Inl (ErrWrap ''insert outbox'' err), s)
     | (Inr oid, s) \<Rightarrow> (Inr oid, s))"

definition repo_CreateWithOutbox :: "'e driver \<Rightarrow> Avatar \<Rightarrow> OutboxEvent \<Rightarrow> ('e sys, int result) op" where
  "repo_CreateWithOutbox D a ev = withTx D (\<lambda>t s.
    (case call D (\<lambda>_. insert_avatar a t) s of
       (Inl err, s) \<Rightarrow> (Inl (ErrWrap ''insert avatar'' err), s)
     | (Inr _, s) \<Rightarrow> insertOutbox D t ev s))"

definition repo_GetByID :: "'e driver \<Rightarrow> uuid \<Rightarrow> ('e sys, Avatar result) op" where
  "repo_GetByID D i s = (case call D (select_by_id i) s of (row, s) \<Rightarrow> (scanAvatar row, s))"

definition repo_GetLatestByUserID :: "'e driver \<Rightarrow> string \<Rightarrow> ('e sys, Avatar result) op" where
  "repo_GetLatestByUserID D u s = (case call D (select_latest u) s of (row, s) \<Rightarrow> (scanAvatar row, s))"

definition repo_ListByUserID :: "'e driver \<Rightarrow> string \<Rightarrow> ('e sys, Avatar list result) op" where
  "repo_ListByUserID D u s =
    (case call D (select_by_user u) s of
       (Inl err, s) \<Rightarrow> (Inl (ErrWrap ''list avatars'' err), s)
     | (Inr rows, s) \<Rightarrow> fetch_all D (map row_avatar rows) s)"

definition repo_SoftDelete ::
    "'e driver \<Rightarrow> uuid \<Rightarrow> string \<Rightarrow> OutboxEvent \<Rightarrow> ('e sys, (Avatar \<times> int) result) op" where
  "repo_SoftDelete D i u ev = withTx D (\<lambda>t s.
    (case call D (\<lambda>_. update_soft_delete i u t) s of (row, s) \<Rightarrow>
     (case scanAvatar row of
        Inl err \<Rightarrow> (Inl err, s)
      | Inr a \<Rightarrow>
     (case insertOutbox D t ev s of
        (Inl err, s) \<Rightarrow> (Inl err, s)
      | (Inr oid, s) \<Rightarrow> (Inr (a, oid), s)))))"

definition repo_MarkProcessing :: "'e driver \<Rightarrow> uuid \<Rightarrow> ('e sys, bool result) op" where
  "repo_MarkProcessing D i s =
    (case call D (update_mark_processing i) s of
       (Inl err, s) \<Rightarrow> if errors_Is err ErrNoRows then (Inr False, s)
                       else (Inl (ErrWrap ''mark processing'' err), s)
     | (Inr _, s) \<Rightarrow> (Inr True, s))"

definition jsonBytes :: "strmap option \<Rightarrow> json result" where
  "jsonBytes v = Inr (ThumbnailKeysJSON v)"

definition repo_CompleteProcessing ::
    "'e driver \<Rightarrow> uuid \<Rightarrow> strmap option \<Rightarrow> int \<Rightarrow> int \<Rightarrow> ('e sys, goerr option) op" where
  "repo_CompleteProcessing D i thumbs w h s =
    (let thumbs = (if thumbs = None then Some [] else thumbs) in
     (case jsonBytes thumbs of
        Inl err \<Rightarrow> (Some err, s)
      | Inr raw \<Rightarrow>
     (case call D (update_complete i raw w h) s of
        (Inl err, s) \<Rightarrow> (Some (ErrWrap ''complete processing'' err), s)
      | (Inr n, s) \<Rightarrow> if n = 0 then (Some ErrAvatarNotFound, s) else (None, s))))"

lemma jsonBytes_simp [simp]: "jsonBytes v = Inr (ThumbnailKeysJSON v)"
  by (simp add: jsonBytes_def)

definition repo_FailProcessing :: "'e driver \<Rightarrow> uuid \<Rightarrow> ('e sys, goerr option) op" where
  "repo_FailProcessing D i s =
    (case call D (update_fail i) s of
       (Inl err, s) \<Rightarrow> (Some (ErrWrap ''fail processing'' err), s)
     | (Inr _, s) \<Rightarrow> (None, s))"

definition row_event :: "outbox_row \<Rightarrow> OutboxEvent" where
  "row_event r = \<lparr>oe_ID = o_id r, oe_EventID = o_event_id r, oe_Kind = o_kind r,
     oe_Payload = Some (o_payload r)\<rparr>"

definition repo_ListUnpublished :: "'e driver \<Rightarrow> int \<Rightarrow> ('e sys, OutboxEvent list result) op" where
  "repo_ListUnpublished D limit0 s =
    (let limit = (if limit0 \<le> 0 then 50 else limit0) in
     (case call D (select_unpublished limit) s of
        (Inl err, s) \<Rightarrow> (Inl (ErrWrap ''list outbox'' err), s)
      | (Inr rows, s) \<Rightarrow> fetch_all D (map row_event rows) s))"

definition repo_MarkOutboxPublished :: "'e driver \<Rightarrow> int \<Rightarrow> ('e sys, goerr option) op" where
  "repo_MarkOutboxPublished D i s =
    (case call D (update_published i) s of
       (Inl err, s) \<Rightarrow> (Some err, s)
     | (Inr _, s) \<Rightarrow> (None, s))"

definition repo_ListStuckUploads :: "'e driver \<Rightarrow> int \<Rightarrow> ('e sys, Avatar list result) op" where
  "repo_ListStuckUploads D limit0 s =
    (let limit = (if limit0 \<le> 0 then 20 else limit0) in
     (case call D (select_stuck limit) s of
        (Inl err, s) \<Rightarrow> (Inl (ErrWrap ''list stuck'' err), s)
      | (Inr rows, s) \<Rightarrow> fetch_all D (map row_avatar rows) s))"

definition AvatarRepository :: "'e driver \<Rightarrow> 'e sys AvatarStore" where
  "AvatarRepository D =
    \<lparr>CreateWithOutbox = repo_CreateWithOutbox D, GetByID = repo_GetByID D,
     GetLatestByUserID = repo_GetLatestByUserID D, ListByUserID = repo_ListByUserID D,
     SoftDeleteOwnedWithOutbox = repo_SoftDelete D, MarkProcessing = repo_MarkProcessing D,
     CompleteProcessing = repo_CompleteProcessing D, FailProcessing = repo_FailProcessing D,
     ListUnpublished = repo_ListUnpublished D, MarkOutboxPublished = repo_MarkOutboxPublished D,
     ListStuckUploads = repo_ListStuckUploads D\<rparr>"

end
