(* ===== verification/Object_Storage.thy ===== *)
theory Object_Storage
  imports Repository
begin

text \<open>
  \<open>internal/storage/s3.go\<close>.  The MinIO client is a parameter: a record of its calls on the state
  outside the process.  The locale \<open>minio_service\<close> states what its documentation promises of these
  calls; under it the operations of \<open>S3\<close> keep the contract of the interface \<open>ObjectStore\<close>.
\<close>

text \<open>An operation on the outside is one on the whole system; \<open>Prometheus\<close> calls are recorded.\<close>

definition lift :: "('e, 'a) op \<Rightarrow> ('e sys, 'a) op" where
  "lift m s = (case m (outside s) of (r, e) \<Rightarrow> (r, s\<lparr>outside := e\<rparr>))"

lemma lift_cases:
  assumes "lift m s = (r, t)"
  obtains e where "m (outside s) = (r, e)" "t = s\<lparr>outside := e\<rparr>"
  using assms by (auto simp: lift_def split: prod.splits)

definition observe_sys :: "metric \<Rightarrow> 'e sys \<Rightarrow> 'e sys" where
  "observe_sys m s = s\<lparr>metrics := metrics s @ [m]\<rparr>"

lemma observe_sys_sel [simp]:
  "tables (observe_sys m s) = tables s" "outside (observe_sys m s) = outside s"
  "metrics (observe_sys m s) = metrics s @ [m]"
  by (simp_all add: observe_sys_def)

section \<open>The client\<close>

text \<open>An object handle is lazy: \<open>GetObject\<close> sends nothing, \<open>Stat\<close> and \<open>Read\<close> do.\<close>

type_synonym object_handle = "string \<times> string"

record 'e minio =
  minio_BucketExists :: "string \<Rightarrow> ('e, bool result) op"
  minio_MakeBucket :: "string \<Rightarrow> ('e, goerr option) op"
  minio_PutObject :: "string \<Rightarrow> string \<Rightarrow> string \<Rightarrow> string \<Rightarrow> ('e, goerr option) op"
  minio_GetObject :: "string \<Rightarrow> string \<Rightarrow> ('e, object_handle result) op"
  minio_Stat :: "object_handle \<Rightarrow> ('e, string result) op"
  minio_ReadAll :: "object_handle \<Rightarrow> ('e, string result) op"
  minio_RemoveObject :: "string \<Rightarrow> string \<Rightarrow> ('e, goerr option) op"
  http_DetectContentType :: "string \<Rightarrow> string"

record 'e S3 =
  s3_client :: "'e minio"
  s3_bucket :: string

section \<open>Operations\<close>

definition EnsureBucket :: "'e S3 \<Rightarrow> ('e, goerr option) op" where
  "EnsureBucket S e =
    (case minio_BucketExists (s3_client S) (s3_bucket S) e of
       (Inl err, e) \<Rightarrow> (Some (ErrWrap ''bucket exists'' err), e)
     | (Inr exists, e) \<Rightarrow>
         if exists then (None, e)
         else (case minio_MakeBucket (s3_client S) (s3_bucket S) e of
                 (Some err, e) \<Rightarrow> (Some (ErrWrap ''make bucket'' err), e)
               | (None, e) \<Rightarrow> (None, e)))"

definition S3_Ping :: "'e S3 \<Rightarrow> ('e, goerr option) op" where
  "S3_Ping S e =
    (case minio_BucketExists (s3_client S) (s3_bucket S) e of
       (Inl err, e) \<Rightarrow> (Some err, e)
     | (Inr _, e) \<Rightarrow> (None, e))"

definition S3_Upload :: "'e S3 \<Rightarrow> string \<Rightarrow> string \<Rightarrow> string \<Rightarrow> ('e, goerr option) op" where
  "S3_Upload S key contentType0 data e =
    (let contentType = (if contentType0 = [] then http_DetectContentType (s3_client S) data
                        else contentType0) in
     (case minio_PutObject (s3_client S) (s3_bucket S) key contentType data e of
        (Some err, e) \<Rightarrow> (Some (ErrWrap (''put object '' @ key) err), e)
      | (None, e) \<Rightarrow> (None, e)))"

definition S3_Download :: "'e S3 \<Rightarrow> string \<Rightarrow> ('e, (string \<times> string) result) op" where
  "S3_Download S key e =
    (case minio_GetObject (s3_client S) (s3_bucket S) key e of
       (Inl err, e) \<Rightarrow> (Inl (ErrWrap (''get object '' @ key) err), e)
     | (Inr obj, e) \<Rightarrow>
    (case minio_Stat (s3_client S) obj e of
       (Inl err, e) \<Rightarrow> (Inl (ErrWrap (''stat object '' @ key) err), e)
     | (Inr contentType, e) \<Rightarrow>
    (case minio_ReadAll (s3_client S) obj e of
       (Inl err, e) \<Rightarrow> (Inl (ErrWrap (''read object '' @ key) err), e)
     | (Inr data, e) \<Rightarrow> (Inr (data, contentType), e))))"

definition remove_one :: "'e S3 \<Rightarrow> string \<Rightarrow> ('e, goerr option) op" where
  "remove_one S key0 e =
    (let key = TrimSpace key0 in
     if key = [] then (None, e)
     else (case minio_RemoveObject (s3_client S) (s3_bucket S) key e of
             (Some err, e) \<Rightarrow> (Some (ErrWrap (''remove object '' @ key) err), e)
           | (None, e) \<Rightarrow> (None, e)))"

definition S3_Delete :: "'e S3 \<Rightarrow> string list \<Rightarrow> ('e, goerr option) op" where
  "S3_Delete S keys = for_err (remove_one S) keys"

definition S3_store :: "'e S3 \<Rightarrow> 'e sys ObjectStore" where
  "S3_store S =
    \<lparr>os_Upload = (\<lambda>k ct d. lift (S3_Upload S k ct d)),
     os_Download = (\<lambda>k. lift (S3_Download S k)),
     os_Delete = (\<lambda>ks. lift (S3_Delete S ks))\<rparr>"

section \<open>The contract\<close>

text \<open>
  The service: \<open>objects e b k\<close> is the content type and the content of an object, \<open>rest\<close> is
  everything outside that the object storage does not hold.  A failed call may have been carried
  out; a \<open>Stat\<close> or \<open>Read\<close> that succeeds returns what is stored.
\<close>

locale minio_service =
  fixes c :: "'e minio"
    and objects :: "'e \<Rightarrow> string \<Rightarrow> string \<Rightarrow> (string \<times> string) option"
    and rest :: "'e \<Rightarrow> 'o"
  assumes put_law: "minio_PutObject c b k ct d e = (r, e') \<Longrightarrow>
      rest e' = rest e \<and>
      (objects e' = (objects e)(b := (objects e b)(k \<mapsto> (ct, d))) \<or> r \<noteq> None \<and> objects e' = objects e)"
    and handle_law: "minio_GetObject c b k e = (rh, e') \<Longrightarrow>
      rest e' = rest e \<and> objects e' = objects e \<and> (\<forall>h. rh = Inr h \<longrightarrow> h = (b, k))"
    and stat_law: "minio_Stat c h e = (rs, e') \<Longrightarrow>
      rest e' = rest e \<and> objects e' = objects e \<and>
      (\<forall>ct. rs = Inr ct \<longrightarrow> (\<exists>d. objects e (fst h) (snd h) = Some (ct, d)))"
    and read_law: "minio_ReadAll c h e = (rs, e') \<Longrightarrow>
      rest e' = rest e \<and> objects e' = objects e \<and>
      (\<forall>d. rs = Inr d \<longrightarrow> (\<exists>ct. objects e (fst h) (snd h) = Some (ct, d)))"
    and remove_law: "minio_RemoveObject c b k e = (r, e') \<Longrightarrow>
      rest e' = rest e \<and>
      (objects e' = (objects e)(b := (objects e b)(k := None)) \<or> r \<noteq> None \<and> objects e' = objects e)"
begin

lemma S3_Upload_law:
  assumes "S3_Upload \<lparr>s3_client = c, s3_bucket = b\<rparr> k ct d e = (r, e')" "ct \<noteq> []"
  shows "rest e' = rest e \<and>
    (objects e' b = (objects e b)(k \<mapsto> (ct, d)) \<or> r \<noteq> None \<and> objects e' b = objects e b)"
proof -
  obtain r1 e1 where p: "minio_PutObject c b k ct d e = (r1, e1)" by fastforce
  show ?thesis using assms p put_law [OF p]
    by (auto simp: S3_Upload_def Let_def split: option.splits)
qed

lemma S3_Download_law:
  assumes "S3_Download \<lparr>s3_client = c, s3_bucket = b\<rparr> k e = (r, e')"
  shows "rest e' = rest e \<and> objects e' = objects e \<and>
    (\<forall>d ct. r = Inr (d, ct) \<longrightarrow> objects e b k = Some (ct, d))"
proof -
  obtain r1 e1 where g: "minio_GetObject c b k e = (r1, e1)" by fastforce
  note g' = handle_law [OF g]
  show ?thesis
  proof (cases r1)
    case (Inl err)
    then show ?thesis using assms g g' by (auto simp: S3_Download_def)
  next
    case (Inr h)
    obtain r2 e2 where s: "minio_Stat c h e1 = (r2, e2)" by fastforce
    note s' = stat_law [OF s]
    obtain r3 e3 where d: "minio_ReadAll c h e2 = (r3, e3)" by fastforce
    note d' = read_law [OF d]
    show ?thesis using assms g g' Inr s s' d d'
      by (cases r2; cases r3) (auto simp: S3_Download_def)
  qed
qed

lemma remove_one_law:
  assumes "remove_one \<lparr>s3_client = c, s3_bucket = b\<rparr> k e = (r, e')"
  shows "rest e' = rest e \<and>
    (objects e' b = objects e b |` (- real_keys [k]) \<or> r \<noteq> None \<and> objects e' b = objects e b)"
proof (cases "TrimSpace k = []")
  case True
  then have "real_keys [k] = {}" by (auto simp: real_keys_def)
  then show ?thesis using assms True by (auto simp: remove_one_def)
next
  case False
  then have k: "real_keys [k] = {TrimSpace k}" by (auto simp: real_keys_def)
  have m: "m(x := None) = m |` (- {x})" for m :: "string \<Rightarrow> (string \<times> string) option" and x
    by (auto simp: restrict_map_def fun_eq_iff)
  obtain r1 e1 where p: "minio_RemoveObject c b (TrimSpace k) e = (r1, e1)" by fastforce
  show ?thesis using assms p remove_law [OF p] False
    by (auto simp: remove_one_def Let_def k m split: option.splits)
qed

lemma real_keys_Cons: "real_keys (k # ks) = real_keys [k] \<union> real_keys ks"
  by (auto simp: real_keys_def)

lemma S3_Delete_law:
  assumes "S3_Delete \<lparr>s3_client = c, s3_bucket = b\<rparr> ks e = (r, e')"
  shows "rest e' = rest e \<and>
    (\<exists>K \<subseteq> real_keys ks. objects e' b = objects e b |` (- K) \<and> (r = None \<longrightarrow> K = real_keys ks))"
  using assms
proof (induction ks arbitrary: e)
  case Nil
  then show ?case by (auto simp: S3_Delete_def real_keys_def)
next
  case (Cons k ks)
  obtain r1 e1 where o: "remove_one \<lparr>s3_client = c, s3_bucket = b\<rparr> k e = (r1, e1)" by fastforce
  note l = remove_one_law [OF o]
  show ?case
  proof (cases r1)
    case (Some err)
    then have "r = Some err" "e' = e1" using Cons.prems o by (auto simp: S3_Delete_def)
    moreover have "real_keys [k] \<subseteq> real_keys (k # ks)" by (auto simp: real_keys_def)
    moreover have "objects e b = objects e b |` (- {})" by (simp add: restrict_map_def)
    ultimately show ?thesis using l by (metis empty_subsetI option.discI)
  next
    case None
    then have "S3_Delete \<lparr>s3_client = c, s3_bucket = b\<rparr> ks e1 = (r, e')"
      using Cons.prems o by (simp add: S3_Delete_def)
    from Cons.IH [OF this] obtain K where K: "K \<subseteq> real_keys ks" "rest e' = rest e1"
      "objects e' b = objects e1 b |` (- K)" "r = None \<longrightarrow> K = real_keys ks" by blast
    moreover have "objects e1 b = objects e b |` (- real_keys [k])" using l None by simp
    ultimately have "objects e' b = objects e b |` (- (real_keys [k] \<union> K))" by simp
    then show ?thesis using K l by (intro conjI exI [of _ "real_keys [k] \<union> K"]) (auto simp: real_keys_Cons [of k ks])
  qed
qed

end

text \<open>The operations of \<open>S3\<close>, lifted to the system, keep the contract of \<open>ObjectStore\<close>.\<close>

locale minio_bucket = minio_service c objects rest for c :: "'e minio" and objects and rest :: "'e \<Rightarrow> 'o" +
  fixes b :: string

sublocale minio_bucket \<subseteq> s3: object_store "S3_store \<lparr>s3_client = c, s3_bucket = b\<rparr>"
    "\<lambda>s. objects (outside s) b" "\<lambda>s. (tables s, metrics s, rest (outside s))"
proof
  fix k ct d s r t
  assume "os_Upload (S3_store \<lparr>s3_client = c, s3_bucket = b\<rparr>) k ct d s = (r, t)" "ct \<noteq> []"
  then show "(tables t, metrics t, rest (outside t)) = (tables s, metrics s, rest (outside s)) \<and>
      (objects (outside t) b = (objects (outside s) b)(k \<mapsto> (ct, d)) \<or>
       r \<noteq> None \<and> objects (outside t) b = objects (outside s) b)"
    by (auto simp: S3_store_def elim!: lift_cases dest!: S3_Upload_law)
next
  fix k s r and t :: "'e sys"
  assume "os_Download (S3_store \<lparr>s3_client = c, s3_bucket = b\<rparr>) k s = (r, t)"
  then show "(tables t, metrics t, rest (outside t)) = (tables s, metrics s, rest (outside s)) \<and>
      objects (outside t) b = objects (outside s) b \<and>
      (\<forall>d ct. r = Inr (d, ct) \<longrightarrow> objects (outside s) b k = Some (ct, d))"
    by (auto simp: S3_store_def elim!: lift_cases dest!: S3_Download_law)
next
  fix ks s r and t :: "'e sys"
  assume "os_Delete (S3_store \<lparr>s3_client = c, s3_bucket = b\<rparr>) ks s = (r, t)"
  then obtain e where e: "S3_Delete \<lparr>s3_client = c, s3_bucket = b\<rparr> ks (outside s) = (r, e)"
    "t = s\<lparr>outside := e\<rparr>"
    by (auto simp: S3_store_def elim!: lift_cases)
  from S3_Delete_law [OF e(1)] e(2)
  show "(tables t, metrics t, rest (outside t)) = (tables s, metrics s, rest (outside s)) \<and>
      (\<exists>K \<subseteq> real_keys ks. objects (outside t) b = objects (outside s) b |` (- K) \<and>
         (r = None \<longrightarrow> K = real_keys ks))"
    by simp
qed

end
