(* ===== verification/Broker.thy ===== *)
theory Broker
  imports Object_Storage
begin

text \<open>
  \<open>internal/broker/kafka.go\<close>.  The client (kafka-go) is a parameter; the locale \<open>kafka_service\<close>
  states what a synchronous writer promises: a message whose write succeeds is at the end of its
  topic, one whose write failed is there or not.
\<close>

section \<open>The client\<close>

record message =
  m_Topic :: string
  m_Partition :: int
  m_Offset :: int
  m_Key :: string
  m_Value :: document
  m_Time :: time
  m_Headers :: "header list"

record topic_config =
  tc_Topic :: string
  tc_NumPartitions :: int
  tc_ReplicationFactor :: int

text \<open>A connection is a handle; \<open>kafka_trace\<close> is what the trace propagator writes into the headers.\<close>

record 'e kafka =
  kafka_WriteMessages :: "string \<Rightarrow> message \<Rightarrow> ('e, goerr option) op"
  kafka_FetchMessage :: "string \<Rightarrow> ('e, message result) op"
  kafka_CommitMessages :: "string \<Rightarrow> message \<Rightarrow> ('e, goerr option) op"
  kafka_DialContext :: "string \<Rightarrow> ('e, nat result) op"
  kafka_Controller :: "nat \<Rightarrow> ('e, (string \<times> int) result) op"
  kafka_CreateTopics :: "nat \<Rightarrow> topic_config list \<Rightarrow> ('e, goerr option) op"
  kafka_Brokers :: "nat \<Rightarrow> ('e, goerr option) op"
  kafka_CloseConn :: "nat \<Rightarrow> 'e \<Rightarrow> 'e"
  kafka_Close :: "string \<Rightarrow> ('e, goerr option) op"
  kafka_time_Now :: "('e, time) op"
  kafka_trace :: "'e \<Rightarrow> (string \<times> string) list"

section \<open>Producer\<close>

text \<open>
  The options of a writer: acknowledgement by the leader of the partition, no background sending; durations are in
  milliseconds.
\<close>

record writer_config =
  wc_Addr :: "string list"
  wc_Topic :: string
  wc_Balancer :: string
  wc_RequiredAcks :: int
  wc_Async :: bool
  wc_BatchTimeout :: int

definition newWriter :: "string list \<Rightarrow> string \<Rightarrow> writer_config" where
  "newWriter brokers topic =
    \<lparr>wc_Addr = brokers, wc_Topic = topic, wc_Balancer = ''Hash'', wc_RequiredAcks = 1, wc_Async = False,
     wc_BatchTimeout = 10\<rparr>"

lemma newWriter_Topic [simp]: "wc_Topic (newWriter brokers topic) = topic"
  by (simp add: newWriter_def)

record 'e Producer =
  pr_client :: "'e kafka"
  pr_upload :: string
  pr_delete :: string
  pr_brokers :: "string list"

definition event_headers :: "'e kafka \<Rightarrow> 'e \<Rightarrow> string \<Rightarrow> header list" where
  "event_headers K e eventID = InjectKafka (kafka_trace K e) [(''event_id'', eventID)]"

definition writeJSON ::
    "'e kafka \<Rightarrow> string \<Rightarrow> string \<Rightarrow> string \<Rightarrow> json \<Rightarrow> ('e sys, goerr option) op" where
  "writeJSON K topic key eventID payload s =
    (let headers = event_headers K (outside s) eventID in
     (case lift (kafka_time_Now K) s of (now, s) \<Rightarrow>
      let msg = \<lparr>m_Topic = [], m_Partition = 0, m_Offset = 0, m_Key = key, m_Value = Some payload,
                 m_Time = now, m_Headers = headers\<rparr> in
      (case lift (kafka_WriteMessages K topic msg) s of
         (Some err, s) \<Rightarrow> (Some (ErrWrap (''publish '' @ topic) err),
                           observe_sys (KafkaMessages ''publish'' topic ''error'') s)
       | (None, s) \<Rightarrow> (None, observe_sys (KafkaMessages ''publish'' topic ''ok'') s))))"

definition Producer_PublishUpload :: "'e Producer \<Rightarrow> AvatarUploadEvent \<Rightarrow> ('e sys, goerr option) op" where
  "Producer_PublishUpload p event =
    writeJSON (pr_client p) (pr_upload p) (ue_AvatarID event) (ue_EventID event) (marshal_upload event)"

definition Producer_PublishDelete :: "'e Producer \<Rightarrow> AvatarDeleteEvent \<Rightarrow> ('e sys, goerr option) op" where
  "Producer_PublishDelete p event =
    writeJSON (pr_client p) (pr_delete p) (de_AvatarID event) (de_EventID event) (marshal_delete event)"

definition Producer_publisher :: "'e Producer \<Rightarrow> 'e sys EventPublisher" where
  "Producer_publisher p = \<lparr>PublishUpload = Producer_PublishUpload p, PublishDelete = Producer_PublishDelete p\<rparr>"

definition Producer_Close :: "'e Producer \<Rightarrow> ('e, goerr option) op" where
  "Producer_Close p = for_first (kafka_Close (pr_client p)) [pr_upload p, pr_delete p] None"

text \<open>\<open>brokers[0]\<close>: the configuration refuses an empty list.\<close>

definition Producer_Ping :: "'e Producer \<Rightarrow> ('e, goerr option) op" where
  "Producer_Ping p e =
    (case kafka_DialContext (pr_client p) (hd (pr_brokers p)) e of
       (Inl err, e) \<Rightarrow> (Some err, e)
     | (Inr conn, e) \<Rightarrow>
         (case kafka_Brokers (pr_client p) conn e of
            (err, e) \<Rightarrow> (err, kafka_CloseConn (pr_client p) conn e)))"

section \<open>Topics\<close>

definition JoinHostPort :: "string \<Rightarrow> string \<Rightarrow> string" where
  "JoinHostPort host port =
    (if CHR '':'' \<in> set host then ''['' @ host @ '']:'' @ port else host @ '':'' @ port)"

definition createTopics :: "'e kafka \<Rightarrow> string \<Rightarrow> string list \<Rightarrow> ('e, goerr option) op" where
  "createTopics K broker topics e =
    (case kafka_DialContext K broker e of
       (Inl err, e) \<Rightarrow> (Some err, e)
     | (Inr conn, e) \<Rightarrow>
    (case kafka_Controller K conn e of
       (Inl err, e) \<Rightarrow> (Some err, kafka_CloseConn K conn e)
     | (Inr (host, port), e) \<Rightarrow>
    (case kafka_DialContext K (JoinHostPort host (Itoa port)) e of
       (Inl err, e) \<Rightarrow> (Some err, kafka_CloseConn K conn e)
     | (Inr ctrl, e) \<Rightarrow>
    (case kafka_CreateTopics K ctrl
        (map (\<lambda>t. \<lparr>tc_Topic = t, tc_NumPartitions = 3, tc_ReplicationFactor = 1\<rparr>) topics) e of
       (err, e) \<Rightarrow> (err, kafka_CloseConn K conn (kafka_CloseConn K ctrl e))))))"

text \<open>The loop over the brokers: the first that works ends it; \<open>lasterr\<close> is the variable \<open>last\<close>.\<close>

fun ensure_topics :: "'e kafka \<Rightarrow> string list \<Rightarrow> string list \<Rightarrow> goerr option \<Rightarrow> ('e, goerr option) op" where
  "ensure_topics K [] topics lasterr e =
    (if lasterr = None then (Some (ErrText ''no kafka brokers configured''), e) else (lasterr, e))"
| "ensure_topics K (broker # brokers) topics lasterr e =
    (case createTopics K broker topics e of
       (Some err, e) \<Rightarrow> ensure_topics K brokers topics (Some err) e
     | (None, e) \<Rightarrow> (None, e))"

definition EnsureTopics :: "'e kafka \<Rightarrow> string list \<Rightarrow> string list \<Rightarrow> ('e, goerr option) op" where
  "EnsureTopics K brokers topics = ensure_topics K brokers topics None"

section \<open>Consumer\<close>

text \<open>The options of a reader: offsets are committed one by one, a new group starts at the first offset (\<open>- 2\<close>).\<close>

record reader_config =
  rc_Brokers :: "string list"
  rc_GroupID :: string
  rc_Topic :: string
  rc_MinBytes :: int
  rc_MaxBytes :: int
  rc_MaxWait :: int
  rc_CommitInterval :: int
  rc_StartOffset :: int

definition Consumer_Close :: "'e kafka \<Rightarrow> reader_config \<Rightarrow> ('e, goerr option) op" where
  "Consumer_Close K c = kafka_Close K (rc_Topic c)"

definition EventIDFrom :: "message \<Rightarrow> string \<Rightarrow> string" where
  "EventIDFrom msg fallback =
    (case find (\<lambda>h. fst h = ''event_id'' \<and> snd h \<noteq> []) (m_Headers msg) of
       None \<Rightarrow> fallback
     | Some h \<Rightarrow> snd h)"

section \<open>The event id travels in the headers\<close>

text \<open>\<open>Inject\<close> keeps the header it was given first, with a value that only it may replace.\<close>

lemma carrier_Set_head: "\<exists>v' c'. carrier_Set ((k, v) # c) k2 v2 = (k, v') # c' \<and> (\<not> EqualFold k k2 \<longrightarrow> v' = v)"
  by auto

lemma carrier_Set_fst: "fst ` set (carrier_Set c k v) \<subseteq> insert k (fst ` set c)"
  by (induction c) auto

lemma InjectKafka_head:
  "(\<And>p. p \<in> set pairs \<Longrightarrow> \<not> EqualFold k (fst p)) \<Longrightarrow>
   \<exists>c'. InjectKafka pairs ((k, v) # c) = (k, v) # c' \<and> fst ` set c' \<subseteq> fst ` set c \<union> fst ` set pairs"
proof (induction pairs arbitrary: c)
  case (Cons p pairs)
  obtain k2 v2 where p: "p = (k2, v2)" by fastforce
  have "\<not> EqualFold k k2" using Cons.prems [of p] p by simp
  then have "InjectKafka (p # pairs) ((k, v) # c) = InjectKafka pairs ((k, v) # carrier_Set c k2 v2)"
    by (simp add: InjectKafka_def p)
  moreover obtain c' where "InjectKafka pairs ((k, v) # carrier_Set c k2 v2) = (k, v) # c'"
    "fst ` set c' \<subseteq> fst ` set (carrier_Set c k2 v2) \<union> fst ` set pairs"
    using Cons.IH [of "carrier_Set c k2 v2"] Cons.prems by auto
  ultimately show ?case
    using carrier_Set_fst [of c k2 v2] p by (intro exI [of _ c']) auto
qed (simp add: InjectKafka_def)

text \<open>
  The consumer reads from a message the event id the producer put into its headers, whatever
  trace headers are injected, as long as none of them is called \<open>event_id\<close>; when the producer had
  no event id, the consumer falls back to the id it is given.
\<close>

lemma EventIDFrom_published:
  assumes "\<forall>p \<in> set (kafka_trace K e). \<not> EqualFold ''event_id'' (fst p)"
  shows "EventIDFrom \<lparr>m_Topic = t, m_Partition = p, m_Offset = off, m_Key = k, m_Value = v,
      m_Time = now, m_Headers = event_headers K e eventID\<rparr> fallback = (if eventID = [] then fallback else eventID)"
proof -
  obtain c' where h: "event_headers K e eventID = (''event_id'', eventID) # c'"
    "fst ` set c' \<subseteq> fst ` set (kafka_trace K e)"
    using InjectKafka_head [of "kafka_trace K e" "''event_id''" eventID "[]"] assms
    by (auto simp: event_headers_def)
  have "find (\<lambda>h. fst h = ''event_id'' \<and> snd h \<noteq> []) c' = None"
    unfolding find_None_iff using h(2) assms EqualFold_refl by fastforce
  then show ?thesis using h(1) by (simp add: EventIDFrom_def)
qed

section \<open>The contract\<close>

text \<open>The service: \<open>logs e t\<close> are the messages of topic \<open>t\<close> in the order they were written.\<close>

locale kafka_service =
  fixes K :: "'e kafka"
    and logs :: "'e \<Rightarrow> string \<Rightarrow> message list"
    and rest :: "'e \<Rightarrow> 'o"
  assumes write_law: "kafka_WriteMessages K topic msg e = (r, e') \<Longrightarrow>
      rest e' = rest e \<and>
      ((\<exists>p off. logs e' = (logs e)(topic :=
          logs e topic @ [msg\<lparr>m_Topic := topic, m_Partition := p, m_Offset := off\<rparr>]))
       \<or> r \<noteq> None \<and> logs e' = logs e)"
    and clock_law: "keeps (\<lambda>e. (rest e, logs e)) (kafka_time_Now K)"
    and fetch_law: "keeps (\<lambda>e. (rest e, logs e)) (kafka_FetchMessage K topic)"
    and commit_law: "keeps (\<lambda>e. (rest e, logs e)) (kafka_CommitMessages K topic msg)"
begin

lemma writeJSON_law:
  assumes "writeJSON K topic key eid payload s = (r, t)"
  shows "tables t = tables s \<and> rest (outside t) = rest (outside s) \<and>
    ((\<forall>x. x \<noteq> topic \<longrightarrow> logs (outside t) x = logs (outside s) x) \<and>
     (\<exists>m. logs (outside t) topic = logs (outside s) topic @ [m] \<and> m_Value m = Some payload \<and> m_Key m = key
        \<and> m_Headers m = event_headers K (outside s) eid) \<or>
     r \<noteq> None \<and> logs (outside t) = logs (outside s))"
proof -
  obtain now e1 where n: "kafka_time_Now K (outside s) = (now, e1)" by fastforce
  have e1: "rest e1 = rest (outside s)" "logs e1 = logs (outside s)"
    using keepsD [OF clock_law n] by auto
  define msg where "msg = \<lparr>m_Topic = [], m_Partition = 0, m_Offset = 0, m_Key = key,
    m_Value = Some payload, m_Time = now, m_Headers = event_headers K (outside s) eid\<rparr>"
  obtain r2 e2 where w: "kafka_WriteMessages K topic msg e1 = (r2, e2)" by fastforce
  have "outside t = e2" "tables t = tables s" "r = None \<longleftrightarrow> r2 = None"
    using assms n w by (auto simp: writeJSON_def Let_def lift_def msg_def split: option.splits)
  moreover have "(\<forall>x. x \<noteq> topic \<longrightarrow> logs e2 x = logs (outside s) x) \<and>
     (\<exists>m. logs e2 topic = logs (outside s) topic @ [m] \<and> m_Value m = Some payload \<and> m_Key m = key
        \<and> m_Headers m = event_headers K (outside s) eid) \<or>
     r2 \<noteq> None \<and> logs e2 = logs (outside s)"
    using write_law [OF w] e1 by (elim conjE disjE exE) (simp_all add: msg_def)
  ultimately show ?thesis using write_law [OF w] e1 by auto
qed

end

locale kafka_topics = kafka_service K logs rest for K :: "'e kafka" and logs and rest :: "'e \<Rightarrow> 'o" +
  fixes tu td :: string and brokers :: "string list"
  assumes topics_differ: "tu \<noteq> td"

sublocale kafka_topics \<subseteq> kafka: event_publisher
    "Producer_publisher \<lparr>pr_client = K, pr_upload = tu, pr_delete = td, pr_brokers = brokers\<rparr>"
    "\<lambda>s. map m_Value (logs (outside s) tu)" "\<lambda>s. map m_Value (logs (outside s) td)"
    "\<lambda>s. (tables s, rest (outside s))"
proof
  let ?p = "Producer_publisher \<lparr>pr_client = K, pr_upload = tu, pr_delete = td, pr_brokers = brokers\<rparr>"
  fix ue s r and t :: "'e sys"
  assume "PublishUpload ?p ue s = (r, t)"
  then have "writeJSON K tu (ue_AvatarID ue) (ue_EventID ue) (marshal_upload ue) s = (r, t)"
    by (simp add: Producer_publisher_def Producer_PublishUpload_def)
  from writeJSON_law [OF this] topics_differ
  show "(tables t, rest (outside t)) = (tables s, rest (outside s)) \<and>
      map m_Value (logs (outside t) td) = map m_Value (logs (outside s) td) \<and>
      (map m_Value (logs (outside t) tu) = map m_Value (logs (outside s) tu) @ [Some (marshal_upload ue)] \<or>
       r \<noteq> None \<and> map m_Value (logs (outside t) tu) = map m_Value (logs (outside s) tu))"
    by auto
next
  let ?p = "Producer_publisher \<lparr>pr_client = K, pr_upload = tu, pr_delete = td, pr_brokers = brokers\<rparr>"
  fix de s r and t :: "'e sys"
  assume "PublishDelete ?p de s = (r, t)"
  then have "writeJSON K td (de_AvatarID de) (de_EventID de) (marshal_delete de) s = (r, t)"
    by (simp add: Producer_publisher_def Producer_PublishDelete_def)
  from writeJSON_law [OF this] topics_differ
  show "(tables t, rest (outside t)) = (tables s, rest (outside s)) \<and>
      map m_Value (logs (outside t) tu) = map m_Value (logs (outside s) tu) \<and>
      (map m_Value (logs (outside t) td) = map m_Value (logs (outside s) td) @ [Some (marshal_delete de)] \<or>
       r \<noteq> None \<and> map m_Value (logs (outside t) td) = map m_Value (logs (outside s) td))"
    by auto
qed

end
