(* ===== verification/Worker.thy ===== *)
theory Worker
  imports Service_Invariant Broker
begin

text \<open>
  \<open>internal/worker/worker.go\<close>: the consumer of the two topics and the maintenance loop.  A cursor
  (\<open>kafkaCursor\<close>) is a pair of operations; the context is a predicate of the state (\<open>ctx.Err() != nil\<close>)
  and the waiting operation of \<open>packages\<close>.  The loops of \<open>consume\<close> and \<open>maintenance\<close> end only when
  the context or the broker ends them: they are partial functions, \<open>None\<close> for a run without end.
\<close>

record 's cursor =
  cur_Fetch :: "('s, message result) op"
  cur_Commit :: "message \<Rightarrow> ('s, goerr option) op"

definition kafka_cursor :: "'e kafka \<Rightarrow> string \<Rightarrow> 'e sys cursor" where
  "kafka_cursor K topic =
    \<lparr>cur_Fetch = lift (kafka_FetchMessage K topic),
     cur_Commit = (\<lambda>msg. lift (kafka_CommitMessages K topic msg))\<rparr>"

record 's Worker =
  w_svc :: "'s AvatarService"
  w_upload :: "'s cursor"
  w_delete :: "'s cursor"
  w_attempts :: nat

definition NewWorker :: "'s AvatarService \<Rightarrow> 's cursor \<Rightarrow> 's cursor \<Rightarrow> 's Worker" where
  "NewWorker svc up del = \<lparr>w_svc = svc, w_upload = up, w_delete = del, w_attempts = 5\<rparr>"

section \<open>Handlers of the messages\<close>

definition handleUpload :: "('s, 'i) packages \<Rightarrow> 's Worker \<Rightarrow> message \<Rightarrow> ('s, goerr option) op" where
  "handleUpload P w msg s =
    (case unmarshal_upload (m_Value msg) of
       Inl err \<Rightarrow> (Permanent (Some (ErrWrap ''decode upload event'' err)), s)
     | Inr event \<Rightarrow>
         (let eid = EventIDFrom msg (ue_EventID event);
              eid = (if eid = [] then UploadEventID (ue_AvatarID event) else eid)
          in ProcessUpload P (w_svc w) (event\<lparr>ue_EventID := eid\<rparr>) s))"

definition handleDelete :: "('s, 'i) packages \<Rightarrow> 's Worker \<Rightarrow> message \<Rightarrow> ('s, goerr option) op" where
  "handleDelete P w msg s =
    (case unmarshal_delete (m_Value msg) of
       Inl err \<Rightarrow> (Permanent (Some (ErrWrap ''decode delete event'' err)), s)
     | Inr event \<Rightarrow>
         (let eid = EventIDFrom msg (de_EventID event);
              eid = (if eid = [] then DeleteEventID (de_AvatarID event) else eid)
          in ProcessDelete P (w_svc w) (event\<lparr>de_EventID := eid\<rparr>) s))"

section \<open>Retries\<close>

text \<open>\<open>n\<close> attempts are left, the next pause is \<open>backoff\<close> milliseconds, \<open>lasterr\<close> is the variable \<open>last\<close>.\<close>

fun retry_attempts ::
    "(int \<Rightarrow> ('s, goerr option) op) \<Rightarrow> nat \<Rightarrow> int \<Rightarrow> ('s, goerr option) op \<Rightarrow> goerr option
     \<Rightarrow> ('s, goerr option) op" where
  "retry_attempts wait 0 backoff fn lasterr s = (lasterr, s)"
| "retry_attempts wait (Suc n) backoff fn lasterr s =
    (case fn s of
       (None, s) \<Rightarrow> (None, s)
     | (Some err, s) \<Rightarrow>
         if IsPermanent err \<or> n = 0 then (Some err, s)
         else (case wait backoff s of
                 (Some ctxerr, s) \<Rightarrow> (Some ctxerr, s)
               | (None, s) \<Rightarrow> retry_attempts wait n (backoff * 2) fn (Some err) s))"

definition withRetry ::
    "('s, 'i) packages \<Rightarrow> 's Worker \<Rightarrow> ('s, goerr option) op \<Rightarrow> ('s, goerr option) op" where
  "withRetry P w fn s = retry_attempts (wait_or_done P) (w_attempts w) 200 fn None s"

section \<open>The consumer loop\<close>

text \<open>One turn of the loop: \<open>Inl r\<close> leaves \<open>consume\<close> with \<open>r\<close>, \<open>Inr\<close> goes on.\<close>

definition consume_one ::
    "('s, 'i) packages \<Rightarrow> ('s \<Rightarrow> bool) \<Rightarrow> 's Worker \<Rightarrow> 's cursor \<Rightarrow> (message \<Rightarrow> ('s, goerr option) op)
     \<Rightarrow> ('s, goerr option + unit) op" where
  "consume_one P ctx_done w c handle s =
    (case cur_Fetch c s of
       (Inl err, s) \<Rightarrow> if ctx_done s then (Inl None, s) else (Inl (Some err), s)
     | (Inr msg, s) \<Rightarrow>
    (case withRetry P w (handle msg) s of
       (Some err, s) \<Rightarrow>
         (case cur_Commit c msg (observe P (KafkaMessages ''consume'' (m_Topic msg) ''error'') s) of
            (Some cerr, s) \<Rightarrow> (Inl (Some (ErrWrap ''commit dropped message'' cerr)), s)
          | (None, s) \<Rightarrow> (Inr (), s))
     | (None, s) \<Rightarrow>
         (case cur_Commit c msg (observe P (KafkaMessages ''consume'' (m_Topic msg) ''ok'') s) of
            (Some err, s) \<Rightarrow> (Inl (Some (ErrWrap ''commit'' err)), s)
          | (None, s) \<Rightarrow> (Inr (), s))))"

partial_function (option) consume ::
    "('s, 'i) packages \<Rightarrow> ('s \<Rightarrow> bool) \<Rightarrow> 's Worker \<Rightarrow> 's cursor \<Rightarrow> (message \<Rightarrow> ('s, goerr option) op)
     \<Rightarrow> 's \<Rightarrow> (goerr option \<times> 's) option" where
  "consume P ctx_done w c handle s =
    (case consume_one P ctx_done w c handle s of
       (Inl r, s) \<Rightarrow> Some (r, s)
     | (Inr _, s) \<Rightarrow> consume P ctx_done w c handle s)"

section \<open>Maintenance\<close>

definition runMaintenance :: "('s, 'i) packages \<Rightarrow> 's Worker \<Rightarrow> 's \<Rightarrow> 's" where
  "runMaintenance P w s =
    (case FlushOutbox P (w_svc w) s of (_, s) \<Rightarrow>
     (case RecoverStuck P (w_svc w) s of (_, s) \<Rightarrow> s))"

text \<open>The ticker: ten seconds pass, or the context is done.\<close>

partial_function (option) maintenance_loop :: "('s, 'i) packages \<Rightarrow> 's Worker \<Rightarrow> 's \<Rightarrow> (goerr option \<times> 's) option" where
  "maintenance_loop P w s =
    (case wait_or_done P 10000 s of
       (Some _, s) \<Rightarrow> Some (None, s)
     | (None, s) \<Rightarrow> maintenance_loop P w (runMaintenance P w s))"

definition maintenance :: "('s, 'i) packages \<Rightarrow> 's Worker \<Rightarrow> 's \<Rightarrow> (goerr option \<times> 's) option" where
  "maintenance P w s = maintenance_loop P w (runMaintenance P w s)"

text \<open>\<open>Run\<close> returns the first error among the results of its goroutines, in the order they end.\<close>

definition run_result :: "goerr option list \<Rightarrow> goerr option" where
  "run_result results = (case find (\<lambda>r. r \<noteq> None) results of None \<Rightarrow> None | Some r \<Rightarrow> r)"

section \<open>Laws of the retry loop\<close>

lemma retry_preserves:
  assumes "\<And>k. preserves I (wait k)" "preserves I fn"
  shows "preserves I (retry_attempts wait n b fn e)"
proof -
  have "I s \<Longrightarrow> I (snd (retry_attempts wait n b fn e s))" for s
  proof (induction n arbitrary: b e s)
    case (Suc n)
    obtain r1 s1 where f: "fn s = (r1, s1)" by fastforce
    obtain r2 s2 where w: "wait b s1 = (r2, s2)" by fastforce
    have i1: "I s1" by (rule preservesD [OF assms(2) Suc.prems f])
    have i2: "I s2" by (rule preservesD [OF assms(1) i1 w])
    show ?case using i1 i2 Suc.IH f w by (auto split: option.splits)
  qed simp
  then show ?thesis by (simp add: preserves_def)
qed

text \<open>How often the handler is called, seen from any counter of its calls.\<close>

lemma retry_count:
  assumes "\<And>s r t. fn s = (r, t) \<Longrightarrow> calls t = calls s + (1 :: nat)" "\<And>k s r t. wait k s = (r, t) \<Longrightarrow> calls t = calls s"
    and "retry_attempts wait n b fn e s = (r, t)"
  shows "calls t \<le> calls s + n"
  using assms(3)
proof (induction n arbitrary: b e s)
  case (Suc n)
  obtain r1 s1 where f: "fn s = (r1, s1)" by fastforce
  obtain r2 s2 where w: "wait b s1 = (r2, s2)" by fastforce
  have "calls s1 = calls s + 1" "calls s2 = calls s1" using assms(1) [OF f] assms(2) [OF w] by auto
  then show ?case using Suc f w by (fastforce split: option.splits if_splits)
qed simp

lemma retry_result:
  assumes "retry_attempts wait n b fn e s = (r, t)"
    "\<And>k s r t. wait k s = (r, t) \<Longrightarrow> R s t" "\<And>s r t. fn s = (r, t) \<Longrightarrow> R s t"
    and "\<And>s. R s s" "\<And>s t u. R s t \<Longrightarrow> R t u \<Longrightarrow> R s u"
  shows "R s t \<and> (r = None \<longrightarrow> n = 0 \<and> e = None \<or> (\<exists>s1. R s s1 \<and> fn s1 = (None, t)))"
  using assms(1)
proof (induction n arbitrary: b e s)
  case 0
  then show ?case using assms(4) by auto
next
  case (Suc n)
  obtain r1 s1 where f: "fn s = (r1, s1)" by fastforce
  have R1: "R s s1" using assms(3) [OF f] .
  show ?case
  proof (cases "r1 = None \<or> (\<exists>err. r1 = Some err \<and> (IsPermanent err \<or> n = 0))")
    case True
    then show ?thesis
    proof (cases r1)
      case None
      then show ?thesis using Suc.prems f R1 assms(4) [of s] by auto
    next
      case (Some err)
      then show ?thesis using Suc.prems f R1 True by auto
    qed
  next
    case False
    then obtain err where err: "r1 = Some err" "\<not> IsPermanent err" "n \<noteq> 0" by (cases r1) auto
    obtain r2 s2 where w: "wait b s1 = (r2, s2)" by fastforce
    have R2: "R s s2" using R1 assms(2) [OF w] assms(5) by blast
    show ?thesis
    proof (cases r2)
      case None
      then have "retry_attempts wait n (b * 2) fn (Some err) s2 = (r, t)"
        using Suc.prems f err w by simp
      from Suc.IH [OF this] err show ?thesis using R2 assms(5) by blast
    next
      case (Some err2)
      then show ?thesis using Suc.prems f err w R2 by auto
    qed
  qed
qed

section \<open>The loop as a relation\<close>

inductive consumed :: "('s, 'i) packages \<Rightarrow> ('s \<Rightarrow> bool) \<Rightarrow> 's Worker \<Rightarrow> 's cursor
    \<Rightarrow> (message \<Rightarrow> ('s, goerr option) op) \<Rightarrow> 's \<Rightarrow> goerr option \<Rightarrow> 's \<Rightarrow> bool"
  for P ctx_done w c handle where
  consumed_end: "consume_one P ctx_done w c handle s = (Inl r, t) \<Longrightarrow> consumed P ctx_done w c handle s r t"
| consumed_on: "consume_one P ctx_done w c handle s = (Inr (), s1) \<Longrightarrow> consumed P ctx_done w c handle s1 r t
    \<Longrightarrow> consumed P ctx_done w c handle s r t"

lemma consume_consumed: "consume P ctx_done w c handle s = Some (r, t) \<longleftrightarrow> consumed P ctx_done w c handle s r t"
proof
  show "consumed P ctx_done w c handle s r t" if c: "consume P ctx_done w c handle s = Some (r, t)"
  proof -
    let ?Q = "\<lambda>(((((P, ctx_done), w), c), handle), s) (r, t). consumed P ctx_done w c handle s r t"
    have "?Q (((((P, ctx_done), w), c), handle), s) (r, t)"
      by (rule consume.raw_induct [of ?Q, OF _ c])
        (auto split: prod.splits sum.splits intro: consumed.intros)
    then show ?thesis by simp
  qed
  show "consume P ctx_done w c handle s = Some (r, t)" if "consumed P ctx_done w c handle s r t"
    using that by induction (simp_all add: consume.simps)
qed

text \<open>An invariant of the handler, the cursor and the waiting is one of the whole loop.\<close>

lemma consume_preserves:
  assumes "consume P ctx_done w c handle s = Some (r, t)" "I s"
    and "preserves I (cur_Fetch c)" "\<And>m. preserves I (cur_Commit c m)" "\<And>m. preserves I (handle m)"
      "\<And>k. preserves I (wait_or_done P k)" "\<And>m s. I s \<Longrightarrow> I (observe P m s)"
  shows "I t"
proof -
  have one: "I t'" if "consume_one P ctx_done w c handle s' = (r', t')" "I s'" for s' r' t'
  proof -
    obtain rf s1 where f: "cur_Fetch c s' = (rf, s1)" by fastforce
    have i1: "I s1" using preservesD [OF assms(3) that(2) f] .
    show ?thesis
    proof (cases rf)
      case (Inl err)
      then show ?thesis using that f i1 by (auto simp: consume_one_def split: if_splits)
    next
      case (Inr msg)
      obtain rh s2 where h: "withRetry P w (handle msg) s1 = (rh, s2)" by fastforce
      have "preserves I (withRetry P w (handle msg))"
        unfolding withRetry_def [abs_def] by (rule retry_preserves) (simp_all add: assms)
      then have i2: "I s2" using i1 h by (rule preservesD)
      have "I t'" if "cur_Commit c msg (observe P x s2) = (rc, t')" for x rc
        using preservesD [OF assms(4) _ that] assms(7) i2 by blast
      then show ?thesis using that f Inr h
        by (auto simp: consume_one_def split: option.splits prod.splits)
    qed
  qed
  from assms(1) have "consumed P ctx_done w c handle s r t" by (simp add: consume_consumed)
  then show ?thesis using assms(2) by induction (auto dest: one)
qed

end
