(* ===== verification/Repository_Laws.thy ===== *)
theory Repository_Laws
  imports Repository
begin

text \<open>
  The repository keeps its contract: well-formed tables stay well-formed under every operation and
  every behaviour of the driver, and each operation has on the view of the tables (live avatars,
  outbox entries, unpublished entries) the effect that the locale \<open>avatar_store\<close> promises.
\<close>

section \<open>The view of the tables\<close>

definition live_row :: "uuid \<Rightarrow> avatar_row \<Rightarrow> bool" where
  "live_row i r \<longleftrightarrow> c_id r = i \<and> c_deleted_at r = None"

definition lookup_row :: "db \<Rightarrow> uuid \<Rightarrow> avatar_row option" where
  "lookup_row d i = find (live_row i) (t_avatars d)"

definition db_live :: "db \<Rightarrow> uuid \<Rightarrow> Avatar option" where
  "db_live d i = map_option row_avatar (lookup_row d i)"

definition db_events :: "db \<Rightarrow> string \<Rightarrow> (string \<times> json) option" where
  "db_events d = map_of (map (\<lambda>r. (o_event_id r, (o_kind r, o_payload r))) (t_outbox d))"

definition db_unpub :: "db \<Rightarrow> OutboxEvent list" where
  "db_unpub d = map row_event (filter (\<lambda>r. o_published_at r = None) (t_outbox d))"

definition wf_db :: "db \<Rightarrow> bool" where
  "wf_db d \<longleftrightarrow> distinct (map c_id (t_avatars d)) \<and> distinct (map o_event_id (t_outbox d)) \<and>
     sorted_wrt (<) (map o_id (t_outbox d)) \<and> (\<forall>r \<in> set (t_outbox d). o_id r \<le> outbox_seq d)"

definition db_used :: "db \<Rightarrow> uuid set" where
  "db_used d = c_id ` set (t_avatars d)"

definition same_view :: "db \<Rightarrow> db \<Rightarrow> bool" where
  "same_view d d' \<longleftrightarrow> db_live d' = db_live d \<and> db_events d' = db_events d \<and> db_unpub d' = db_unpub d"

lemma same_view_refl [simp]: "same_view d d"
  by (simp add: same_view_def)

lemma view_seq [simp]:
  "db_live (d\<lparr>outbox_seq := n\<rparr>) = db_live d" "db_events (d\<lparr>outbox_seq := n\<rparr>) = db_events d"
  "db_unpub (d\<lparr>outbox_seq := n\<rparr>) = db_unpub d"
  by (simp_all add: db_live_def lookup_row_def db_events_def db_unpub_def fun_eq_iff)

lemma view_outbox [simp]: "db_live (d\<lparr>t_outbox := x\<rparr>) = db_live d"
  by (simp add: db_live_def lookup_row_def fun_eq_iff)

lemma view_avatars [simp]:
  "db_events (d\<lparr>t_avatars := x\<rparr>) = db_events d" "db_unpub (d\<lparr>t_avatars := x\<rparr>) = db_unpub d"
  by (simp_all add: db_events_def db_unpub_def)

section \<open>Rows found and rows changed\<close>

lemma lookup_row_Some: "lookup_row d i = Some r \<Longrightarrow> r \<in> set (t_avatars d) \<and> c_id r = i \<and> c_deleted_at r = None"
  by (auto simp: lookup_row_def find_Some_iff live_row_def)

lemma lookup_row_filter:
  assumes "distinct (map c_id (t_avatars d))"
  shows "filter (\<lambda>r. c_id r = i \<and> c_deleted_at r = None \<and> p r) (t_avatars d) =
    (case lookup_row d i of None \<Rightarrow> [] | Some r \<Rightarrow> if p r then [r] else [])"
proof -
  have "filter (\<lambda>r. c_id r = i \<and> c_deleted_at r = None \<and> p r) (t_avatars d)
      = filter p (filter (live_row i) (t_avatars d))"
    by (simp add: live_row_def conj_ac)
  also have "filter (live_row i) (t_avatars d) = (case lookup_row d i of None \<Rightarrow> [] | Some r \<Rightarrow> [r])"
    using filter_by_key [OF assms, of i "\<lambda>r. c_deleted_at r = None"]
    unfolding lookup_row_def live_row_def [abs_def] .
  finally show ?thesis by (simp split: option.splits)
qed

lemma find_update_where:
  assumes "distinct (map c_id rows)" "\<And>r. c_id (f r) = c_id r" "\<And>r. p r \<Longrightarrow> live_row i r"
  shows "find (live_row j) (update_where p f rows) =
    (if j = i then
       (case find (live_row i) rows of
          None \<Rightarrow> None
        | Some r \<Rightarrow> if \<not> p r then Some r
                    else if c_deleted_at (f r) = None then Some (f r) else None)
     else find (live_row j) rows)"
  using assms(1)
proof (induction rows)
  case (Cons r rows)
  have rest: "find (live_row i) rows = None" if "c_id r = i"
    using Cons.prems that by (auto simp: find_None_iff live_row_def) (metis imageI)
  show ?case
  proof (cases "p r")
    case True
    then have r: "c_id r = i" "c_deleted_at r = None" using assms(3) by (auto simp: live_row_def)
    moreover have "live_row k (f r) \<longleftrightarrow> k = i \<and> c_deleted_at (f r) = None" "live_row k r \<longleftrightarrow> k = i" for k
      using r assms(2) [of r] by (auto simp: live_row_def)
    ultimately show ?thesis using Cons True rest by auto
  next
    case False
    then show ?thesis using Cons by auto
  qed
qed simp

lemma live_update_where:
  assumes "wf_db d" "\<And>r. c_id (f r) = c_id r" "\<And>r. p r \<Longrightarrow> live_row i r"
  shows "db_live (d\<lparr>t_avatars := update_where p f (t_avatars d)\<rparr>) =
    (case lookup_row d i of
       None \<Rightarrow> db_live d
     | Some r \<Rightarrow> if p r then (db_live d)(i := if c_deleted_at (f r) = None then Some (row_avatar (f r)) else None)
                 else db_live d)"
proof -
  have d: "distinct (map c_id (t_avatars d))" using assms(1) by (simp add: wf_db_def)
  show ?thesis
    by (cases "lookup_row d i")
      (auto simp: db_live_def lookup_row_def find_update_where [OF d assms(2,3)] fun_eq_iff)
qed

lemma wf_update_avatars:
  assumes "wf_db d" "\<And>r. c_id (f r) = c_id r"
  shows "wf_db (d\<lparr>t_avatars := update_where p f (t_avatars d)\<rparr>)"
  using assms by (simp add: wf_db_def map_update_where)

section \<open>Values that fit\<close>

lemma length_runes: "length (runes s) \<le> length s"
proof (induction s rule: runes.induct)
  case (2 c cs)
  obtain r n where d: "decode_rune (c # cs) = (r, n)" by fastforce
  have "length (runes (drop (n - 1) cs)) \<le> length (drop (n - 1) cs)" using 2 d by simp
  then show ?case using d by simp
qed simp

lemma varchar_id: "varchar n s = Some s' \<Longrightarrow> length s \<le> n \<Longrightarrow> s' = s"
  using length_runes [of s] by (auto simp: varchar_def Let_def split: if_splits)

section \<open>Calls\<close>

lemma call_cases:
  assumes "call D st s = (r, t)"
  obtains (refused) m e where "pg_reply D (outside s) = (Refused m, e)" "r = Inl (ErrExternal m)"
      "t = s\<lparr>outside := e\<rparr>"
  | (delivered) e where "pg_reply D (outside s) = (Delivered, e)"
      "r = fst (st (pg_now D e) (tables s))"
      "t = s\<lparr>outside := e, tables := snd (st (pg_now D e) (tables s))\<rparr>"
  | (lost) m e where "pg_reply D (outside s) = (ReplyLost m, e)" "r = Inl (ErrExternal m)"
      "t = s\<lparr>outside := e, tables := snd (st (pg_now D e) (tables s))\<rparr>"
  using assms unfolding call_def
  by (cases "pg_reply D (outside s)") (auto split: prod.splits reply.splits)

lemma fetch_all_cases:
  assumes "fetch_all D rows s = (r, t)"
  obtains e where "t = s\<lparr>outside := e\<rparr>" "pg_reply D (outside s) = (Delivered, e)" "r = Inr rows"
  | rep e m where "t = s\<lparr>outside := e\<rparr>" "pg_reply D (outside s) = (rep, e)" "r = Inl (ErrExternal m)"
  using assms unfolding fetch_all_def
  by (cases "pg_reply D (outside s)") (auto split: reply.splits)

text \<open>A transaction either commits everything its body did, or nothing but steps of the sequence.\<close>

lemma withTx_cases:
  assumes "withTx D fn s = (r, t)"
  obtains (no_begin) e err where "t = s\<lparr>outside := e, tables := tables s\<rparr>" "r = Inl err"
      "\<not> errors_Is err ErrAvatarNotFound"
      "e = snd (pg_reply D (outside s))"
  | (aborted) e now r' s2 e' err where "e = snd (pg_reply D (outside s))"
      "fn now (s\<lparr>outside := e\<rparr>) = (r', s2)" "r = Inl err"
      "t = s2\<lparr>outside := e', tables := rollback (tables s) (tables s2)\<rparr>"
      "e' = outside s2 \<or> e' = snd (pg_reply D (outside s2))"
  | (committed) e now x s2 e' where "e = snd (pg_reply D (outside s))"
      "fn now (s\<lparr>outside := e\<rparr>) = (Inr x, s2)"
      "t = s2\<lparr>outside := e'\<rparr>" "e' = snd (pg_reply D (outside s2))"
      "r = Inr x \<or> (\<exists>m. r = Inl (ErrWrap ''commit tx'' (ErrExternal m)))"
proof -
  let ?b = "call D (\<lambda>t d. (Inr t, d)) s"
  obtain rb s1 where b: "?b = (rb, s1)" by fastforce
  have s1: "s1 = s\<lparr>outside := snd (pg_reply D (outside s))\<rparr>"
    using b by (cases rule: call_cases) auto
  show thesis
  proof (cases rb)
    case (Inl err)
    have "\<exists>m. err = ErrExternal m" using b Inl by (cases rule: call_cases) auto
    then show thesis using assms b Inl s1
      by (intro no_begin [of _ "ErrWrap ''begin tx'' err"]) (auto simp: withTx_def)
  next
    case now: (Inr now)
    obtain r' s2 where f: "fn now s1 = (r', s2)" by fastforce
    show thesis
    proof (cases r')
      case (Inl err)
      then show thesis using assms b now f s1
        by (intro aborted [of _ now r' s2 err "outside s2"]) (auto simp: withTx_def)
    next
      case (Inr x)
      obtain rep e where c: "pg_reply D (outside s2) = (rep, e)" by fastforce
      show thesis
      proof (cases rep)
        case Delivered
        then show thesis using assms b now f s1 Inr c
          by (intro committed [of _ now x s2 e]) (auto simp: withTx_def)
      next
        case (Refused m)
        then show thesis using assms b now f s1 Inr c
          by (intro aborted [of _ now r' s2 "ErrWrap ''commit tx'' (ErrExternal m)" e]) (auto simp: withTx_def)
      next
        case (ReplyLost m)
        then show thesis using assms b now f s1 Inr c
          by (intro committed [of _ now x s2 e]) (auto simp: withTx_def)
      qed
    qed
  qed
qed

section \<open>Well-formed tables stay well-formed\<close>

definition grows :: "db \<Rightarrow> db \<Rightarrow> bool" where
  "grows d d' \<longleftrightarrow> (wf_db d \<longrightarrow> wf_db d' \<and> outbox_seq d \<le> outbox_seq d' \<and> db_used d \<subseteq> db_used d')"

lemma grows_refl [simp]: "grows d d"
  by (simp add: grows_def)

lemma grows_trans [trans]: "grows d d' \<Longrightarrow> grows d' d'' \<Longrightarrow> grows d d''"
  by (auto simp: grows_def)

lemma grows_rollback: "grows d d' \<Longrightarrow> grows d (rollback d d')"
  by (fastforce simp: grows_def rollback_def wf_db_def db_used_def)

lemma grows_update_avatars:
  "(\<And>r. c_id (f r) = c_id r) \<Longrightarrow> grows d (d\<lparr>t_avatars := update_where p f (t_avatars d)\<rparr>)"
  by (simp add: grows_def wf_update_avatars db_used_def map_update_where flip: set_map)

lemma insert_avatar_cases:
  assumes "insert_avatar a t d = (r, d')"
  obtains (refused) "r = Inl constraint_error" "d' = d"
  | (new) row where "r = Inr ()" "d' = d\<lparr>t_avatars := t_avatars d @ [row]\<rparr>"
      "av_ID a \<notin> c_id ` set (t_avatars d)" "c_id row = av_ID a" "c_deleted_at row = None"
      "varchar 255 (av_UserID a) = Some (c_user_id row)"
      "varchar 500 (av_S3Key a) = Some (c_s3_key row)"
      "varchar 50 (av_ProcessingStatus a) = Some (c_processing_status row)"
      "c_size_bytes row = av_SizeBytes a" "c_created_at row = av_CreatedAt a"
      "c_thumbnail_s3_keys row = Some (ThumbnailKeysJSON (av_ThumbnailS3Keys a))"
proof -
  let ?cols = "[varchar 255 (av_UserID a), varchar 255 (av_FileName a), varchar 100 (av_MimeType a),
     varchar 500 (av_S3Key a), varchar 50 (av_UploadStatus a), varchar 50 (av_ProcessingStatus a)]"
  show thesis
  proof (cases "\<exists>u f m k us ps. ?cols = [Some u, Some f, Some m, Some k, Some us, Some ps]
      \<and> av_ID a \<notin> c_id ` set (t_avatars d) \<and> int4 (av_Width a) \<and> int4 (av_Height a)
      \<and> no_nul (ThumbnailKeysJSON (av_ThumbnailS3Keys a))")
    case False
    then show thesis using assms refused
      by (auto simp: insert_avatar_def split: option.splits if_splits)
  next
    case True
    then obtain u f m k us ps where c: "?cols = [Some u, Some f, Some m, Some k, Some us, Some ps]"
      and rest: "av_ID a \<notin> c_id ` set (t_avatars d)" "int4 (av_Width a)" "int4 (av_Height a)"
        "no_nul (ThumbnailKeysJSON (av_ThumbnailS3Keys a))"
      by blast
    show thesis
      by (rule new [of "\<lparr>c_id = av_ID a, c_user_id = u, c_file_name = f, c_mime_type = m,
             c_size_bytes = av_SizeBytes a, c_width = av_Width a, c_height = av_Height a,
             c_s3_key = k, c_thumbnail_s3_keys = Some (ThumbnailKeysJSON (av_ThumbnailS3Keys a)),
             c_upload_status = us, c_processing_status = ps,
             c_created_at = av_CreatedAt a, c_updated_at = av_UpdatedAt a,
             c_deleted_at = None\<rparr>"])
        (use assms c rest in \<open>auto simp: insert_avatar_def\<close>)
  qed
qed

lemma grows_insert_avatar: "grows d (snd (insert_avatar a t d))"
proof -
  obtain r d' where i: "insert_avatar a t d = (r, d')" by fastforce
  then show ?thesis
    by (cases rule: insert_avatar_cases) (auto simp: i grows_def wf_db_def db_used_def)
qed

lemma map_of_update_where:
  "map_of (map (\<lambda>r. (k r, v r)) (update_where (\<lambda>r. k r = x) f rows)) =
   (if x \<in> k ` set rows then (map_of (map (\<lambda>r. (k r, v r)) rows))(x \<mapsto> y)
    else map_of (map (\<lambda>r. (k r, v r)) rows))"
  if "\<And>r. k (f r) = k r" "\<And>r. v (f r) = y" for k v f y
  using that by (induction rows) (auto simp: fun_eq_iff)

lemma insert_outbox_cases:
  assumes "insert_outbox ev t d = (r, d')"
  obtains (refused) "r = Inl constraint_error" "d' = d\<lparr>outbox_seq := outbox_seq d + 1\<rparr>"
  | (old) eid k p row where "varchar 255 (oe_EventID ev) = Some eid" "varchar 50 (oe_Kind ev) = Some k"
      "oe_Payload ev = Some p" "row \<in> set (t_outbox d)" "o_event_id row = eid" "r = Inr (o_id row)"
      "d' = d\<lparr>outbox_seq := outbox_seq d + 1,
             t_outbox := update_where (\<lambda>r. o_event_id r = eid) (\<lambda>r. r\<lparr>o_kind := k, o_payload := p\<rparr>) (t_outbox d)\<rparr>"
  | (new) eid k p where "varchar 255 (oe_EventID ev) = Some eid" "varchar 50 (oe_Kind ev) = Some k"
      "oe_Payload ev = Some p" "eid \<notin> o_event_id ` set (t_outbox d)" "r = Inr (outbox_seq d + 1)"
      "d' = d\<lparr>outbox_seq := outbox_seq d + 1,
             t_outbox := t_outbox d @ [\<lparr>o_id = outbox_seq d + 1, o_event_id = eid, o_kind = k,
                o_payload = p, o_published_at = None\<rparr>]\<rparr>"
proof (cases "oe_Payload ev")
  case None
  then show thesis using assms refused by (auto simp: insert_outbox_def Let_def split: option.splits)
next
  case p: (Some p)
  show thesis
  proof (cases "\<exists>eid k. varchar 255 (oe_EventID ev) = Some eid \<and> varchar 50 (oe_Kind ev) = Some k \<and> no_nul p")
    case False
    then show thesis using assms refused p
      by (auto simp: insert_outbox_def Let_def split: option.splits if_splits)
  next
    case True
    then obtain eid k where e: "varchar 255 (oe_EventID ev) = Some eid" "varchar 50 (oe_Kind ev) = Some k"
      "no_nul p" by blast
    show thesis
    proof (cases "find (\<lambda>r. o_event_id r = eid) (t_outbox d)")
      case None
      then have "eid \<notin> o_event_id ` set (t_outbox d)" by (auto simp: find_None_iff)
      then show thesis using assms p e None by (intro new) (auto simp: insert_outbox_def)
    next
      case (Some row)
      then have "row \<in> set (t_outbox d)" "o_event_id row = eid" by (auto simp: find_Some_iff)
      then show thesis using assms p e Some by (intro old) (auto simp: insert_outbox_def)
    qed
  qed
qed

lemma grows_insert_outbox: "grows d (snd (insert_outbox ev t d))"
proof -
  obtain r d' where i: "insert_outbox ev t d = (r, d')" by fastforce
  then have "wf_db d' \<and> outbox_seq d \<le> outbox_seq d' \<and> db_used d \<subseteq> db_used d'" if "wf_db d"
    using that
  proof (cases rule: insert_outbox_cases)
    case refused
    then show ?thesis using that by (auto simp: wf_db_def db_used_def)
  next
    case (old eid k p row)
    then show ?thesis using that
      by (auto simp: wf_db_def map_update_where set_update_where db_used_def)
  next
    case (new eid k p)
    then show ?thesis using that
      by (auto simp: wf_db_def sorted_wrt_append image_iff db_used_def)
  qed
  then show ?thesis by (auto simp: grows_def i)
qed

lemma grows_call:
  assumes "call D st s = (r, t)" "\<And>now. grows (tables s) (snd (st now (tables s)))"
  shows "grows (tables s) (tables t)"
  using assms by (cases rule: call_cases) auto

lemma grows_withTx:
  assumes "withTx D fn s = (r, t)"
    and "\<And>now s1 r2 s2. fn now s1 = (r2, s2) \<Longrightarrow> grows (tables s1) (tables s2)"
  shows "grows (tables s) (tables t)"
  using assms(1)
proof (cases rule: withTx_cases)
  case (aborted e now r' s2 e' err)
  then show ?thesis using assms(2) [OF aborted(2)] grows_rollback by auto
next
  case (committed e now x s2 e')
  then show ?thesis using assms(2) [OF committed(2)] by auto
qed simp

lemma read_only_statements:
  "snd (select_by_id i t d) = d" "snd (select_latest u t d) = d" "snd (select_by_user u t d) = d"
  "snd (select_unpublished n t d) = d" "snd (select_stuck n t d) = d"
  by (simp_all add: select_by_id_def select_latest_def select_by_user_def select_unpublished_def
      select_stuck_def)

lemma grows_statements:
  "grows d (snd (select_by_id i t d))" "grows d (snd (select_latest u t d))"
  "grows d (snd (select_by_user u t d))" "grows d (snd (select_unpublished n t d))"
  "grows d (snd (select_stuck n t d))" "grows d (snd (update_soft_delete i u t d))"
  "grows d (snd (update_mark_processing i t d))" "grows d (snd (update_complete i raw w h t d))"
  "grows d (snd (update_fail i t d))" "grows d (snd (update_published k t d))"
  by (simp_all add: read_only_statements update_soft_delete_def update_mark_processing_def
      update_complete_def update_fail_def Let_def grows_update_avatars)
    (auto simp: update_published_def Let_def grows_def wf_db_def map_update_where set_update_where db_used_def)

lemma grows_insertOutbox:
  "insertOutbox D t ev s = (r, s') \<Longrightarrow> grows (tables s) (tables s')"
  by (auto simp: insertOutbox_def split: prod.splits sum.splits
      intro: grows_call grows_insert_outbox)

lemma grows_fetch_all: "fetch_all D rows s = (r, t) \<Longrightarrow> tables t = tables s"
  by (erule fetch_all_cases) auto

lemma grows_rules:
  "call D (select_by_id i) s = (r1, t) \<Longrightarrow> grows (tables s) (tables t)"
  "call D (select_latest u) s = (r1, t) \<Longrightarrow> grows (tables s) (tables t)"
  "call D (select_by_user u) s = (r2, t) \<Longrightarrow> grows (tables s) (tables t)"
  "call D (select_unpublished n) s = (r3, t) \<Longrightarrow> grows (tables s) (tables t)"
  "call D (select_stuck n) s = (r2, t) \<Longrightarrow> grows (tables s) (tables t)"
  "call D (update_mark_processing i) s = (r4, t) \<Longrightarrow> grows (tables s) (tables t)"
  "call D (update_complete i raw w h) s = (r5, t) \<Longrightarrow> grows (tables s) (tables t)"
  "call D (update_fail i) s = (r5, t) \<Longrightarrow> grows (tables s) (tables t)"
  "call D (update_published k) s = (r5, t) \<Longrightarrow> grows (tables s) (tables t)"
  by (erule grows_call, rule grows_statements)+

lemma grows_repo_step:
  assumes "store_step (AvatarRepository D) s t"
  shows "grows (tables s) (tables t)"
  using assms
proof cases
  case (step_create a ev r)
  have "grows (tables s1) (tables s3)"
    if "(case call D (\<lambda>_. insert_avatar a now) s1 of
          (Inl err, s) \<Rightarrow> (Inl (ErrWrap ''insert avatar'' err), s)
        | (Inr _, s) \<Rightarrow> insertOutbox D now ev s) = (r2, s3)" for now s1 r2 s3
  proof -
    obtain rr s2 where c: "call D (\<lambda>_. insert_avatar a now) s1 = (rr, s2)" by fastforce
    have g: "grows (tables s1) (tables s2)" by (rule grows_call [OF c grows_insert_avatar])
    obtain r' s4 where o: "insertOutbox D now ev s2 = (r', s4)" by fastforce
    have "s3 = s2 \<or> s3 = s4" using that c o by (cases rr) auto
    then show ?thesis using g grows_insertOutbox [OF o] grows_trans by auto
  qed
  then show ?thesis using step_create
    by (auto simp: AvatarRepository_def repo_CreateWithOutbox_def elim: grows_withTx)
next
  case (step_soft_delete i u ev r)
  have "grows (tables s1) (tables s3)"
    if "(case call D (\<lambda>_. update_soft_delete i u now) s1 of (row, s) \<Rightarrow>
        (case scanAvatar row of
           Inl err \<Rightarrow> (Inl err, s)
         | Inr a \<Rightarrow> (case insertOutbox D now ev s of (Inl err, s) \<Rightarrow> (Inl err, s)
                    | (Inr oid, s) \<Rightarrow> (Inr (a, oid), s)))) = (r2, s3)" for now s1 r2 s3
  proof -
    obtain row s2 where c: "call D (\<lambda>_. update_soft_delete i u now) s1 = (row, s2)" by fastforce
    have g: "grows (tables s1) (tables s2)" by (rule grows_call [OF c grows_statements(6)])
    obtain r' s4 where o: "insertOutbox D now ev s2 = (r', s4)" by fastforce
    have "s3 = s2 \<or> s3 = s4" using that c o by (auto split: sum.splits)
    then show ?thesis using g grows_insertOutbox [OF o] grows_trans by auto
  qed
  then show ?thesis using step_soft_delete
    by (auto simp: AvatarRepository_def repo_SoftDelete_def elim: grows_withTx)
qed (auto simp: AvatarRepository_def repo_GetByID_def repo_GetLatestByUserID_def repo_ListByUserID_def
      repo_MarkProcessing_def repo_CompleteProcessing_def repo_FailProcessing_def
      repo_ListUnpublished_def repo_MarkOutboxPublished_def repo_ListStuckUploads_def Let_def
      split: prod.splits sum.splits if_splits dest!: grows_rules grows_fetch_all)

section \<open>Effects\<close>

lemma call_Inr:
  assumes "call D st s = (Inr x, t)"
  obtains now where "st now (tables s) = (Inr x, tables t)"
  using assms by (cases rule: call_cases) (auto simp: prod_eq_iff)

lemma call_Inl:
  assumes "call D st s = (Inl e, t)" "\<And>now d. snd (st now d) = d"
  shows "tables t = tables s \<and> ((\<exists>m. e = ErrExternal m) \<or> (\<exists>now. fst (st now (tables s)) = Inl e))"
  using assms by (cases rule: call_cases) auto

definition enqueued :: "OutboxEvent \<Rightarrow> db \<Rightarrow> db \<Rightarrow> bool" where
  "enqueued ev d d' \<longleftrightarrow>
     (\<exists>p. oe_Payload ev = Some p \<and> db_events d' = (db_events d)(oe_EventID ev \<mapsto> (oe_Kind ev, p))) \<and>
     (db_events d (oe_EventID ev) = None \<longrightarrow> (\<exists>n. db_unpub d' = db_unpub d @ [ev\<lparr>oe_ID := n\<rparr>]))"

lemma db_events_None: "db_events d x = None \<longleftrightarrow> x \<notin> o_event_id ` set (t_outbox d)"
  by (force simp: db_events_def map_of_eq_None_iff)

lemma enqueued_insert_outbox:
  assumes "insert_outbox ev t d = (Inr n, d')" "short_event ev"
  shows "enqueued ev d d' \<and> db_live d' = db_live d"
  using assms(1)
proof (cases rule: insert_outbox_cases)
  case (old eid k p row)
  have e: "eid = oe_EventID ev" "k = oe_Kind ev"
    using old(1,2) assms(2) by (auto simp: short_event_def dest: varchar_id)
  have "db_events d eid \<noteq> None"
    using old(4,5) by (auto simp: db_events_None)
  moreover have "db_events d' = (db_events d)(eid \<mapsto> (k, p))"
    using old(4,5) map_of_update_where [of o_event_id "\<lambda>r. r\<lparr>o_kind := k, o_payload := p\<rparr>"
        "\<lambda>r. (o_kind r, o_payload r)" "(k, p)" eid "t_outbox d"]
    by (auto simp: db_events_def old(7))
  ultimately show ?thesis using old(3,7) e by (auto simp: enqueued_def)
next
  case (new eid k p)
  have e: "eid = oe_EventID ev" "k = oe_Kind ev"
    using new(1,2) assms(2) by (auto simp: short_event_def dest: varchar_id)
  have "map_of (xs @ [(eid, v)]) = (map_of xs)(eid \<mapsto> v)" if "eid \<notin> fst ` set xs" for v and xs :: "(string \<times> string \<times> json) list"
    using that by (induction xs) (auto simp: fun_eq_iff)
  then have "db_events d' = (db_events d)(eid \<mapsto> (k, p))"
    using new(4) unfolding db_events_def new(6) by (auto simp: image_image)
  moreover have "row_event \<lparr>o_id = outbox_seq d + 1, o_event_id = eid, o_kind = k, o_payload = p,
      o_published_at = None\<rparr> = ev\<lparr>oe_ID := outbox_seq d + 1\<rparr>"
    using new(3) e by (cases ev) (simp add: row_event_def)
  then have "db_unpub d' = db_unpub d @ [ev\<lparr>oe_ID := outbox_seq d + 1\<rparr>]"
    by (simp add: db_unpub_def new(6))
  ultimately show ?thesis using new(3,6) e by (auto simp: enqueued_def)
qed simp

lemma db_live_append:
  assumes "c_id row \<notin> c_id ` set (t_avatars d)" "c_deleted_at row = None"
  shows "db_live (d\<lparr>t_avatars := t_avatars d @ [row]\<rparr>) = (db_live d)(c_id row \<mapsto> row_avatar row)"
proof -
  have "find (live_row j) (rows @ [row]) = (if j = c_id row then Some row else find (live_row j) rows)"
    if "c_id row \<notin> c_id ` set rows" for j rows
    using that assms(2) by (induction rows) (auto simp: live_row_def)
  then show ?thesis using assms(1) by (auto simp: db_live_def lookup_row_def fun_eq_iff)
qed

lemma row_avatar_sel [simp]:
  "av_ID (row_avatar r) = c_id r" "av_UserID (row_avatar r) = c_user_id r"
  "av_S3Key (row_avatar r) = c_s3_key r" "av_SizeBytes (row_avatar r) = c_size_bytes r"
  "av_ProcessingStatus (row_avatar r) = c_processing_status r"
  "av_CreatedAt (row_avatar r) = c_created_at r" "av_UpdatedAt (row_avatar r) = c_updated_at r"
  "av_DeletedAt (row_avatar r) = c_deleted_at r" "av_MimeType (row_avatar r) = c_mime_type r"
  by (simp_all add: row_avatar_def)

lemma db_live_Some:
  assumes "distinct (map c_id (t_avatars d))"
  shows "db_live d i = Some a \<longleftrightarrow> (\<exists>r \<in> set (t_avatars d). c_id r = i \<and> c_deleted_at r = None \<and> a = row_avatar r)"
proof
  assume "db_live d i = Some a"
  then show "\<exists>r \<in> set (t_avatars d). c_id r = i \<and> c_deleted_at r = None \<and> a = row_avatar r"
    using lookup_row_Some [of d i] by (auto simp: db_live_def)
next
  assume "\<exists>r \<in> set (t_avatars d). c_id r = i \<and> c_deleted_at r = None \<and> a = row_avatar r"
  then obtain r where r: "r \<in> set (t_avatars d)" "c_id r = i" "c_deleted_at r = None" "a = row_avatar r"
    by blast
  have "filter (\<lambda>x. c_id x = i \<and> c_deleted_at x = None \<and> x = r) (t_avatars d) \<noteq> []"
    using r by (auto simp: filter_empty_conv)
  then have "lookup_row d i = Some r"
    using lookup_row_filter [OF assms, of i "\<lambda>x. x = r"] by (auto split: option.splits if_splits)
  then show "db_live d i = Some a" using r(4) by (simp add: db_live_def)
qed

lemma repo_create_effect:
  assumes "repo_CreateWithOutbox D a ev s = (r, t)" "wf_db (tables s)" "short_event ev"
  shows "(same_view (tables s) (tables t) \<and> (\<exists>e. r = Inl e)) \<or>
    (av_ID a \<notin> db_used (tables s) \<and> av_ID a \<in> db_used (tables t) \<and> enqueued ev (tables s) (tables t) \<and>
     (\<exists>row. c_id row = av_ID a \<and> c_deleted_at row = None
        \<and> varchar 255 (av_UserID a) = Some (c_user_id row)
        \<and> varchar 500 (av_S3Key a) = Some (c_s3_key row)
        \<and> varchar 50 (av_ProcessingStatus a) = Some (c_processing_status row)
        \<and> c_size_bytes row = av_SizeBytes a \<and> c_created_at row = av_CreatedAt a
        \<and> db_live (tables t) = (db_live (tables s))(av_ID a \<mapsto> row_avatar row)))"
  using assms(1) unfolding repo_CreateWithOutbox_def
proof (cases rule: withTx_cases)
  case (aborted e now r' s2 e' err)
  then show ?thesis by (simp add: same_view_def rollback_def)
next
  case (committed e now x s2 e')
  obtain s3 where c1: "call D (\<lambda>_. insert_avatar a now) (s\<lparr>outside := e\<rparr>) = (Inr (), s3)"
    and c2: "insertOutbox D now ev s3 = (Inr x, s2)"
    using committed(2) by (auto split: prod.splits sum.splits)
  have c3: "call D (\<lambda>_. insert_outbox ev now) s3 = (Inr x, s2)"
    using c2 by (auto simp: insertOutbox_def split: prod.splits sum.splits)
  from c1 have i: "insert_avatar a now (tables s) = (Inr (), tables s3)"
    by (auto elim: call_Inr)
  from c3 have o: "insert_outbox ev now (tables s3) = (Inr x, tables s2)"
    by (auto elim: call_Inr)
  note q = enqueued_insert_outbox [OF o assms(3)]
  from i show ?thesis
  proof (cases rule: insert_avatar_cases)
    case (new row)
    have l: "db_live (tables s3) = (db_live (tables s))(av_ID a \<mapsto> row_avatar row)"
      using db_live_append [of row "tables s"] new by simp
    have n: "av_ID a \<notin> db_used (tables s)" using new(3) by (simp add: db_used_def)
    have "av_ID a \<in> db_used (tables s3)" using new(2,4) by (auto simp: db_used_def)
    moreover have "grows (tables s3) (tables s2)" using o grows_insert_outbox by (metis snd_conv)
    moreover have "wf_db (tables s3)" using i assms(2) grows_insert_avatar by (metis grows_def snd_conv)
    ultimately have n': "av_ID a \<in> db_used (tables t)" using committed(3) by (auto simp: grows_def)
    have "enqueued ev (tables s) (tables t)"
      using q committed(3) new(2) by (auto simp: enqueued_def)
    moreover have "db_live (tables t) = (db_live (tables s))(av_ID a \<mapsto> row_avatar row)"
      using q l committed(3) by simp
    ultimately show ?thesis using n n' new by blast
  qed simp
qed simp

lemma repo_soft_delete_effect:
  assumes "repo_SoftDelete D i u ev s = (r, t)" "wf_db (tables s)" "short_event ev"
  shows "(same_view (tables s) (tables t) \<and> (\<exists>e. r = Inl e)) \<or>
    (\<exists>a. db_live (tables s) i = Some a \<and> av_UserID a = u \<and> enqueued ev (tables s) (tables t)
       \<and> db_live (tables t) = (db_live (tables s))(i := None))"
  using assms(1) unfolding repo_SoftDelete_def
proof (cases rule: withTx_cases)
  case (aborted e now r' s2 e' err)
  then show ?thesis by (simp add: same_view_def rollback_def)
next
  case (committed e now x s2 e')
  let ?d = "tables s"
  obtain row s3 n where c1: "call D (\<lambda>_. update_soft_delete i u now) (s\<lparr>outside := e\<rparr>) = (Inr row, s3)"
    and c2: "insertOutbox D now ev s3 = (Inr n, s2)"
    using committed(2) by (auto simp: scanAvatar_def split: prod.splits sum.splits if_splits)
  have c3: "call D (\<lambda>_. insert_outbox ev now) s3 = (Inr n, s2)"
    using c2 by (auto simp: insertOutbox_def split: prod.splits sum.splits)
  from c1 have d: "update_soft_delete i u now ?d = (Inr row, tables s3)"
    by (auto elim: call_Inr)
  from c3 have o: "insert_outbox ev now (tables s3) = (Inr n, tables s2)"
    by (auto elim: call_Inr)
  note q = enqueued_insert_outbox [OF o assms(3)]
  define p where "p = (\<lambda>r::avatar_row. c_id r = i \<and> c_user_id r = u \<and> c_deleted_at r = None)"
  define f where "f = (\<lambda>r::avatar_row. r\<lparr>c_deleted_at := Some now, c_updated_at := now\<rparr>)"
  have t3: "tables s3 = ?d\<lparr>t_avatars := update_where p f (t_avatars ?d)\<rparr>"
    and ne: "filter p (t_avatars ?d) \<noteq> []"
    using d by (auto simp: update_soft_delete_def Let_def p_def f_def first_row_def split: list.splits)
  have "distinct (map c_id (t_avatars ?d))" using assms(2) by (simp add: wf_db_def)
  then have "filter p (t_avatars ?d) =
      (case lookup_row ?d i of None \<Rightarrow> [] | Some r \<Rightarrow> if c_user_id r = u then [r] else [])"
    using lookup_row_filter [of ?d i "\<lambda>r. c_user_id r = u"] by (simp add: p_def conj_ac)
  then obtain r0 where r0: "lookup_row ?d i = Some r0" "c_user_id r0 = u"
    using ne by (auto split: option.splits if_splits)
  have "db_live (tables s3) = (db_live ?d)(i := None)"
    using live_update_where [OF assms(2), of f p i] r0 lookup_row_Some [OF r0(1)]
    by (simp add: t3 p_def f_def live_row_def)
  then have "db_live (tables t) = (db_live ?d)(i := None)" using q committed(3) by simp
  moreover have "enqueued ev ?d (tables t)"
    using q committed(3) by (simp add: enqueued_def t3)
  moreover have "db_live ?d i = Some (row_avatar r0)" using r0 by (simp add: db_live_def)
  ultimately show ?thesis using r0(2) by auto
qed simp

lemma first_row_filter:
  "first_row (filter P xs) = (case find P xs of None \<Rightarrow> Inl ErrNoRows | Some r \<Rightarrow> Inr r)"
  by (induction xs) (auto simp: first_row_def)

lemma repo_GetByID_effect:
  assumes "repo_GetByID D i s = (r, t)"
  shows "tables t = tables s \<and>
    (\<forall>a. r = Inr a \<longrightarrow> db_live (tables s) i = Some a) \<and>
    (\<forall>e. r = Inl e \<longrightarrow> errors_Is e ErrAvatarNotFound \<longrightarrow> db_live (tables s) i = None)"
proof -
  obtain row where c: "call D (select_by_id i) s = (row, t)" and r: "r = scanAvatar row"
    using assms by (auto simp: repo_GetByID_def split: prod.splits)
  have s: "fst (select_by_id i now d) = (case lookup_row d i of None \<Rightarrow> Inl ErrNoRows | Some r \<Rightarrow> Inr r)" for now d
    by (simp add: select_by_id_def lookup_row_def first_row_filter live_row_def [abs_def])
  from c show ?thesis
    by (cases rule: call_cases)
      (auto simp: r scanAvatar_def read_only_statements s db_live_def split: option.splits sum.splits)
qed

lemma first_row_Inr: "first_row xs = Inr r \<Longrightarrow> r \<in> set xs"
  by (cases xs) (auto simp: first_row_def)

lemma repo_GetLatest_effect:
  assumes "repo_GetLatestByUserID D u s = (r, t)" "wf_db (tables s)"
  shows "tables t = tables s \<and>
    (\<forall>a. r = Inr a \<longrightarrow> db_live (tables s) (av_ID a) = Some a \<and> av_UserID a = u)"
proof -
  obtain row where c: "call D (select_latest u) s = (row, t)" and r: "r = scanAvatar row"
    using assms(1) by (auto simp: repo_GetLatestByUserID_def split: prod.splits)
  have t: "tables t = tables s"
    using c by (cases rule: call_cases) (auto simp: read_only_statements)
  moreover have "db_live (tables s) (av_ID a) = Some a \<and> av_UserID a = u" if "r = Inr a" for a
  proof -
    note ra = that
    obtain r0 where r0: "row = Inr r0" "a = row_avatar r0"
      using ra r by (cases row) (auto simp: scanAvatar_def split: if_splits)
    have "call D (select_latest u) s = (Inr r0, t)" using c r0 by simp
    then obtain now where "fst (select_latest u now (tables s)) = Inr r0"
      by (rule call_Inr) (metis fst_conv)
    then have "r0 \<in> set (t_avatars (tables s)) \<and> c_user_id r0 = u \<and> c_deleted_at r0 = None"
      by (auto simp: select_latest_def dest!: first_row_Inr in_set_takeD)
    then show ?thesis using assms(2) r0 by (auto simp: db_live_Some wf_db_def)
  qed
  ultimately show ?thesis by blast
qed

lemma set_user_rows: "set (user_rows u d) = {r \<in> set (t_avatars d). c_user_id r = u \<and> c_deleted_at r = None}"
  by (auto simp: user_rows_def)

lemma ran_db_live:
  assumes "wf_db d"
  shows "ran (db_live d) = row_avatar ` {r \<in> set (t_avatars d). c_deleted_at r = None}"
  using assms by (auto simp: ran_def db_live_Some wf_db_def)

lemma repo_List_effect:
  assumes "repo_ListByUserID D u s = (r, t)" "wf_db (tables s)"
  shows "tables t = tables s \<and>
    (\<forall>as. r = Inr as \<longrightarrow> as = map row_avatar (user_rows u (tables s)))"
proof -
  obtain r1 s1 where c: "call D (select_by_user u) s = (r1, s1)" by fastforce
  have t1: "tables s1 = tables s"
    using c by (cases rule: call_cases) (auto simp: read_only_statements)
  show ?thesis
  proof (cases r1)
    case (Inl e)
    then show ?thesis using assms(1) c t1 by (auto simp: repo_ListByUserID_def)
  next
    case (Inr rows)
    then have "rows = user_rows u (tables s)"
      using c by (auto elim!: call_Inr simp: select_by_user_def)
    moreover have "fetch_all D (map row_avatar rows) s1 = (r, t)"
      using assms(1) c Inr by (simp add: repo_ListByUserID_def)
    ultimately show ?thesis using t1 by (auto elim!: fetch_all_cases)
  qed
qed

lemma repo_ListUnpublished_effect:
  assumes "repo_ListUnpublished D n s = (r, t)" "wf_db (tables s)" "0 < n"
  shows "tables t = tables s \<and>
    (\<forall>items. r = Inr items \<longrightarrow> items = take (nat n) (db_unpub (tables s)))"
proof -
  let ?d = "tables s"
  obtain r1 s1 where c: "call D (select_unpublished n) s = (r1, s1)" by fastforce
  have t1: "tables s1 = ?d"
    using c by (cases rule: call_cases) (auto simp: read_only_statements)
  have "sorted (map o_id (filter (\<lambda>r. o_published_at r = None) (t_outbox ?d)))"
    using assms(2) by (auto simp: wf_db_def intro: strict_sorted_imp_sorted sorted_filter)
  then have sort: "sort_key o_id (filter (\<lambda>r. o_published_at r = None) (t_outbox ?d))
      = filter (\<lambda>r. o_published_at r = None) (t_outbox ?d)"
    by (rule sort_key_id_if_sorted)
  show ?thesis
  proof (cases r1)
    case (Inl e)
    then show ?thesis using assms c t1 by (auto simp: repo_ListUnpublished_def)
  next
    case (Inr rows)
    then have "map row_event rows = take (nat n) (db_unpub ?d)"
      using c sort by (auto elim!: call_Inr simp: select_unpublished_def db_unpub_def take_map)
    moreover have "fetch_all D (map row_event rows) s1 = (r, t)"
      using assms c Inr by (simp add: repo_ListUnpublished_def)
    ultimately show ?thesis using t1 by (auto elim!: fetch_all_cases)
  qed
qed

lemma repo_MarkPublished_effect:
  assumes "repo_MarkOutboxPublished D k s = (r, t)" "wf_db (tables s)"
  shows "db_live (tables t) = db_live (tables s) \<and> db_events (tables t) = db_events (tables s) \<and>
    (db_unpub (tables t) = filter (\<lambda>e. oe_ID e \<noteq> k) (db_unpub (tables s)) \<or>
     r \<noteq> None \<and> db_unpub (tables t) = db_unpub (tables s))"
proof -
  have e: "map (\<lambda>r. (o_event_id r, o_kind r, o_payload r)) (update_where p (\<lambda>r. r\<lparr>o_published_at := x\<rparr>) rows)
      = map (\<lambda>r. (o_event_id r, o_kind r, o_payload r)) rows" for p x rows
    by (rule map_update_where) simp
  have u: "map row_event (filter (\<lambda>r. o_published_at r = None)
        (update_where (\<lambda>r. o_id r = k) (\<lambda>r. r\<lparr>o_published_at := Some now\<rparr>) rows))
      = filter (\<lambda>e. oe_ID e \<noteq> k) (map row_event (filter (\<lambda>r. o_published_at r = None) rows))" for now rows
    by (induction rows) (auto simp: row_event_def)
  obtain r1 where c: "call D (update_published k) s = (r1, t)" and r: "r = None \<longleftrightarrow> (\<exists>n. r1 = Inr n)"
    using assms(1) by (auto simp: repo_MarkOutboxPublished_def split: prod.splits sum.splits)
  from c show ?thesis
    by (cases rule: call_cases)
      (auto simp: r update_published_def Let_def db_events_def e db_unpub_def u)
qed

text \<open>An \<open>UPDATE\<close> of the live row with a given id.\<close>

lemma call_update_live:
  assumes "call D (\<lambda>now d. (res now d, d\<lparr>t_avatars := update_where (\<lambda>r. c_id r = i \<and> c_deleted_at r = None \<and> q now r) (f now) (t_avatars d)\<rparr>)) s = (r, t)"
    and "wf_db (tables s)" "\<And>now r. c_id (f now r) = c_id r" "\<And>now r. c_deleted_at (f now r) = c_deleted_at r"
  shows "db_events (tables t) = db_events (tables s) \<and> db_unpub (tables t) = db_unpub (tables s) \<and>
    (db_live (tables t) = db_live (tables s) \<and>
       ((\<exists>m. r = Inl (ErrExternal m)) \<or>
        (\<exists>now. r = res now (tables s) \<and> (\<forall>row. lookup_row (tables s) i = Some row \<longrightarrow> \<not> q now row))) \<or>
     (\<exists>now row. lookup_row (tables s) i = Some row \<and> q now row \<and>
        ((\<exists>m. r = Inl (ErrExternal m)) \<or> r = res now (tables s)) \<and>
        db_live (tables t) = (db_live (tables s))(i \<mapsto> row_avatar (f now row))))"
proof -
  let ?p = "\<lambda>now r. c_id r = i \<and> c_deleted_at r = None \<and> q now r"
  have u: "db_live (tables s\<lparr>t_avatars := update_where (?p now) (f now) (t_avatars (tables s))\<rparr>) =
      (case lookup_row (tables s) i of None \<Rightarrow> db_live (tables s)
       | Some row \<Rightarrow> if q now row then (db_live (tables s))(i \<mapsto> row_avatar (f now row)) else db_live (tables s))" for now
    using live_update_where [OF assms(2), of "f now" "?p now" i] assms(3,4) lookup_row_Some [of "tables s" i]
    by (auto simp: live_row_def split: option.splits)
  from assms(1) show ?thesis
  proof (cases rule: call_cases)
    case (refused m e)
    then show ?thesis by simp
  next
    case (delivered e)
    then show ?thesis using u [of "pg_now D e"] by (auto split: option.splits if_splits)
  next
    case (lost m e)
    then show ?thesis using u [of "pg_now D e"] by (auto split: option.splits if_splits)
  qed
qed

lemma row_avatar_update:
  "row_avatar (r\<lparr>c_processing_status := p, c_updated_at := now\<rparr>) =
    (row_avatar r)\<lparr>av_ProcessingStatus := p, av_UpdatedAt := now\<rparr>"
  "row_avatar (r\<lparr>c_thumbnail_s3_keys := Some raw, c_width := w, c_height := h,
      c_processing_status := p, c_upload_status := u, c_updated_at := now\<rparr>) =
    (row_avatar r)\<lparr>av_Width := w, av_Height := h,
      av_ThumbnailS3Keys := ParseThumbnailKeys (Some (Some raw)),
      av_UploadStatus := u, av_ProcessingStatus := p, av_UpdatedAt := now\<rparr>"
  by (simp_all add: row_avatar_def)

text \<open>Whether the statement behind \<open>MarkProcessing\<close> accepts a row.\<close>

definition takeable :: "time \<Rightarrow> avatar_row \<Rightarrow> bool" where
  "takeable now r \<longleftrightarrow> c_processing_status r \<in> {ProcessingPending, ProcessingFailed} \<or>
     c_processing_status r = ProcessingProcessing \<and> c_updated_at r < now - two_minutes"

lemma takeable_not_completed: "takeable now r \<Longrightarrow> c_processing_status r \<noteq> ProcessingCompleted"
  by (auto simp: takeable_def)

lemma first_row_none: "first_row (map c_id (filter p xs)) = Inr x \<Longrightarrow> \<exists>r \<in> set xs. p r \<and> c_id r = x"
  by (auto dest!: first_row_Inr)

lemma repo_MarkProcessing_result:
  assumes "repo_MarkProcessing D i s = (r, t)" "wf_db (tables s)"
  shows "db_events (tables t) = db_events (tables s) \<and> db_unpub (tables t) = db_unpub (tables s) \<and>
    (db_live (tables t) = db_live (tables s) \<and> r \<noteq> Inr True \<or>
     r \<noteq> Inr False \<and> (\<exists>a now. db_live (tables s) i = Some a \<and> av_ProcessingStatus a \<noteq> ProcessingCompleted \<and>
       db_live (tables t) = (db_live (tables s))(i \<mapsto>
         a\<lparr>av_ProcessingStatus := ProcessingProcessing, av_UpdatedAt := now\<rparr>))) \<and>
    (r = Inr False \<longrightarrow> (\<forall>a. db_live (tables s) i = Some a \<longrightarrow> av_ProcessingStatus a \<noteq> ProcessingPending))"
proof -
  have d: "distinct (map c_id (t_avatars (tables s)))" using assms(2) by (simp add: wf_db_def)
  obtain r1 where c: "call D (update_mark_processing i) s = (r1, t)"
    and r: "r = (case r1 of Inl err \<Rightarrow> if errors_Is err ErrNoRows then Inr False
       else Inl (ErrWrap ''mark processing'' err) | Inr _ \<Rightarrow> Inr True)"
    using assms(1) by (auto simp: repo_MarkProcessing_def split: prod.splits sum.splits if_splits)
  have c': "call D (\<lambda>now d. (first_row (map c_id (filter (\<lambda>r. c_id r = i \<and> c_deleted_at r = None \<and> takeable now r) (t_avatars d))),
      d\<lparr>t_avatars := update_where (\<lambda>r. c_id r = i \<and> c_deleted_at r = None \<and> takeable now r)
         (\<lambda>r. r\<lparr>c_processing_status := ProcessingProcessing, c_updated_at := now\<rparr>) (t_avatars d)\<rparr>)) s = (r1, t)"
    using c unfolding update_mark_processing_def Let_def takeable_def by simp
  have f: "first_row (map c_id (filter (\<lambda>r. c_id r = i \<and> c_deleted_at r = None \<and> takeable now r) (t_avatars (tables s)))) =
      (case lookup_row (tables s) i of None \<Rightarrow> Inl ErrNoRows
       | Some row \<Rightarrow> if takeable now row then Inr (c_id row) else Inl ErrNoRows)" for now
    by (simp add: lookup_row_filter [OF d] first_row_def split: option.splits)
  have keep: "c_id (r\<lparr>c_processing_status := ProcessingProcessing, c_updated_at := now\<rparr>) = c_id r"
    "c_deleted_at (r\<lparr>c_processing_status := ProcessingProcessing, c_updated_at := now\<rparr>) = c_deleted_at r"
    for r :: avatar_row and now by simp_all
  note u = call_update_live [OF c' assms(2) keep]
  have ev: "db_events (tables t) = db_events (tables s)" "db_unpub (tables t) = db_unpub (tables s)"
    using u by auto
  from u consider (same) "db_live (tables t) = db_live (tables s)" "(\<exists>m. r1 = Inl (ErrExternal m)) \<or> r1 = Inl ErrNoRows
        \<and> (\<forall>row. lookup_row (tables s) i = Some row \<longrightarrow> (\<exists>now. \<not> takeable now row))"
    | (taken) now row where "lookup_row (tables s) i = Some row" "takeable now row"
      "(\<exists>m. r1 = Inl (ErrExternal m)) \<or> r1 = Inr (c_id row)"
      "db_live (tables t) = (db_live (tables s))(i \<mapsto>
          row_avatar (row\<lparr>c_processing_status := ProcessingProcessing, c_updated_at := now\<rparr>))"
    unfolding f by (elim conjE disjE exE) (auto split: option.splits)
  then show ?thesis
  proof cases
    case same
    have "\<not> takeable now row \<Longrightarrow> c_processing_status row \<noteq> ProcessingPending" for now row by (auto simp: takeable_def)
    then show ?thesis using same ev by (auto simp: r db_live_def split: sum.splits)
  next
    case (taken now row)
    have "db_live (tables s) i = Some (row_avatar row)" using taken(1) by (simp add: db_live_def)
    moreover have "av_ProcessingStatus (row_avatar row) \<noteq> ProcessingCompleted"
      using takeable_not_completed [OF taken(2)] by simp
    ultimately show ?thesis using ev taken(3,4) by (auto simp: r row_avatar_update)
  qed
qed

lemma repo_MarkProcessing_effect:
  "repo_MarkProcessing D i s = (r, t) \<Longrightarrow> wf_db (tables s) \<Longrightarrow>
    db_events (tables t) = db_events (tables s) \<and> db_unpub (tables t) = db_unpub (tables s) \<and>
    (db_live (tables t) = db_live (tables s) \<and> r \<noteq> Inr True \<or>
     r \<noteq> Inr False \<and> (\<exists>a now. db_live (tables s) i = Some a \<and> av_ProcessingStatus a \<noteq> ProcessingCompleted \<and>
       db_live (tables t) = (db_live (tables s))(i \<mapsto>
         a\<lparr>av_ProcessingStatus := ProcessingProcessing, av_UpdatedAt := now\<rparr>)))"
  using repo_MarkProcessing_result by blast

lemma repo_refused_law:
  "repo_MarkProcessing D i s = (Inr False, t) \<Longrightarrow> wf_db (tables s) \<Longrightarrow> db_live (tables s) i = Some a \<Longrightarrow>
    av_ProcessingStatus a \<noteq> ProcessingPending"
  using repo_MarkProcessing_result by blast

lemma repo_CompleteProcessing_effect:
  assumes "repo_CompleteProcessing D i (Some m) w h s = (r, t)" "wf_db (tables s)"
  shows "db_events (tables t) = db_events (tables s) \<and> db_unpub (tables t) = db_unpub (tables s) \<and>
    (db_live (tables t) = db_live (tables s) \<and> r \<noteq> None \<or>
     (\<exists>a now. db_live (tables s) i = Some a \<and>
       db_live (tables t) = (db_live (tables s))(i \<mapsto> a\<lparr>av_Width := (if w > 0 then w else av_Width a),
           av_Height := (if h > 0 then h else av_Height a),
           av_ThumbnailS3Keys := ParseThumbnailKeys (Some (Some (ThumbnailKeysJSON (Some m)))),
           av_UploadStatus := UploadStatusStored, av_ProcessingStatus := ProcessingCompleted,
           av_UpdatedAt := now\<rparr>)))"
proof -
  let ?raw = "ThumbnailKeysJSON (Some m)"
  have d: "distinct (map c_id (t_avatars (tables s)))" using assms(2) by (simp add: wf_db_def)
  obtain r1 where c: "call D (update_complete i ?raw w h) s = (r1, t)"
    and r: "r = (case r1 of Inl err \<Rightarrow> Some (ErrWrap ''complete processing'' err)
       | Inr n \<Rightarrow> if n = 0 then Some ErrAvatarNotFound else None)"
    using assms(1) by (auto simp: repo_CompleteProcessing_def Let_def split: prod.splits sum.splits if_splits)
  show ?thesis
  proof (cases "\<not> int4 w \<or> \<not> int4 h \<or> \<not> no_nul ?raw")
    case True
    then have bad: "update_complete i ?raw w h now dd = (Inl constraint_error, dd)" for now dd
      unfolding update_complete_def by (simp only: if_True)
    from c show ?thesis by (cases rule: call_cases) (simp_all add: bad r)
  next
    case False
    define f where "f = (\<lambda>now r::avatar_row. r\<lparr>c_thumbnail_s3_keys := Some ?raw,
        c_width := (if w > 0 then w else c_width r), c_height := (if h > 0 then h else c_height r),
        c_processing_status := ProcessingCompleted, c_upload_status := UploadStatusStored,
        c_updated_at := now\<rparr>)"
    have "call D (\<lambda>now d. (Inr (length (filter (\<lambda>r. c_id r = i \<and> c_deleted_at r = None \<and> True) (t_avatars d))),
        d\<lparr>t_avatars := update_where (\<lambda>r. c_id r = i \<and> c_deleted_at r = None \<and> True) (f now) (t_avatars d)\<rparr>)) s = (r1, t)"
      using c False unfolding update_complete_def Let_def f_def by simp
    moreover have fc: "c_id (f now r) = c_id r" "c_deleted_at (f now r) = c_deleted_at r" for now r
      by (simp_all add: f_def)
    ultimately have cu: "call D (\<lambda>now d. (Inr (length (filter (\<lambda>r. c_id r = i \<and> c_deleted_at r = None \<and> True) (t_avatars d))),
        d\<lparr>t_avatars := update_where (\<lambda>r. c_id r = i \<and> c_deleted_at r = None \<and> True) (f now) (t_avatars d)\<rparr>)) s = (r1, t)"
      by blast
    from call_update_live [OF cu assms(2) fc]
    have u: "db_events (tables t) = db_events (tables s)" "db_unpub (tables t) = db_unpub (tables s)"
      "db_live (tables t) = db_live (tables s) \<and> ((\<exists>m. r1 = Inl (ErrExternal m)) \<or> r1 = Inr 0) \<or>
       (\<exists>now row. lookup_row (tables s) i = Some row \<and>
          db_live (tables t) = (db_live (tables s))(i \<mapsto> row_avatar (f now row)))"
      using lookup_row_filter [OF d, of i "\<lambda>_. True"]
      by (auto split: option.splits)
    from u(3) show ?thesis
    proof (elim disjE exE conjE)
      fix now row
      assume row: "lookup_row (tables s) i = Some row"
        and l: "db_live (tables t) = (db_live (tables s))(i \<mapsto> row_avatar (f now row))"
      have "row_avatar (f now row) = (row_avatar row)\<lparr>av_Width := (if w > 0 then w else av_Width (row_avatar row)),
           av_Height := (if h > 0 then h else av_Height (row_avatar row)),
           av_ThumbnailS3Keys := ParseThumbnailKeys (Some (Some ?raw)),
           av_UploadStatus := UploadStatusStored, av_ProcessingStatus := ProcessingCompleted,
           av_UpdatedAt := now\<rparr>"
        by (simp add: f_def row_avatar_def)
      moreover have "db_live (tables s) i = Some (row_avatar row)" using row by (simp add: db_live_def)
      ultimately show ?thesis using u(1,2) l by metis
    qed (use u(1,2) in \<open>auto simp: r\<close>)
  qed
qed

lemma repo_FailProcessing_effect:
  assumes "repo_FailProcessing D i s = (r, t)" "wf_db (tables s)"
  shows "db_events (tables t) = db_events (tables s) \<and> db_unpub (tables t) = db_unpub (tables s) \<and>
    (db_live (tables t) = db_live (tables s) \<or>
     (\<exists>a now. db_live (tables s) i = Some a \<and> db_live (tables t) = (db_live (tables s))(i \<mapsto>
         a\<lparr>av_ProcessingStatus := ProcessingFailed, av_UpdatedAt := now\<rparr>)))"
proof -
  obtain r1 where c: "call D (update_fail i) s = (r1, t)"
    using assms(1) by (auto simp: repo_FailProcessing_def split: prod.splits sum.splits)
  have "call D (\<lambda>now d. (Inr (length (filter (\<lambda>r. c_id r = i \<and> c_deleted_at r = None) (t_avatars d))),
      d\<lparr>t_avatars := update_where (\<lambda>r. c_id r = i \<and> c_deleted_at r = None \<and> True)
         (\<lambda>r. r\<lparr>c_processing_status := ProcessingFailed, c_updated_at := now\<rparr>) (t_avatars d)\<rparr>)) s = (r1, t)"
    using c unfolding update_fail_def Let_def by simp
  from call_update_live [OF this assms(2)] show ?thesis
    by (auto simp: row_avatar_update db_live_def)
qed

lemma repo_ListStuck_effect:
  assumes "repo_ListStuckUploads D n s = (r, t)" "wf_db (tables s)" "0 < n"
  shows "tables t = tables s \<and> (\<forall>as. r = Inr as \<longrightarrow>
    (\<forall>a \<in> set as. db_live (tables s) (av_ID a) = Some a \<and> av_ProcessingStatus a \<noteq> ProcessingCompleted))"
proof -
  have d: "distinct (map c_id (t_avatars (tables s)))" using assms(2) by (simp add: wf_db_def)
  obtain r1 s1 where c: "call D (select_stuck n) s = (r1, s1)" by fastforce
  have t1: "tables s1 = tables s"
    using c by (cases rule: call_cases) (auto simp: read_only_statements)
  show ?thesis
  proof (cases r1)
    case (Inl e)
    then show ?thesis using assms c t1 by (auto simp: repo_ListStuckUploads_def)
  next
    case (Inr rows)
    then obtain now where "Inr rows = fst (select_stuck n now (tables s))"
      using c call_Inr [of D "select_stuck n" s rows s1] by (metis fst_conv)
    then have "\<forall>x \<in> set rows. x \<in> set (t_avatars (tables s)) \<and> c_deleted_at x = None \<and> takeable now x"
      by (auto simp: select_stuck_def takeable_def dest!: in_set_takeD)
    then have "\<forall>a \<in> set (map row_avatar rows). db_live (tables s) (av_ID a) = Some a \<and> av_ProcessingStatus a \<noteq> ProcessingCompleted"
      using takeable_not_completed by (fastforce simp: db_live_Some [OF d])
    moreover have "fetch_all D (map row_avatar rows) s1 = (r, t)"
      using assms c Inr by (simp add: repo_ListStuckUploads_def)
    ultimately show ?thesis using t1 by (auto elim!: fetch_all_cases)
  qed
qed

end
