(* ===== verification/Repository_Contract.thy ===== *)
theory Repository_Contract
  imports Repository_Laws
begin

text \<open>
  The repository as a provider of the interface \<open>AvatarStore\<close>: the locale \<open>postgres\<close> asks of the
  driver only that talking to the server leaves the rest of the outside alone; in it the
  repository's model interprets the locale \<open>avatar_store\<close>.  The second half states what single
  operations promise on their own.
\<close>

section \<open>Frames\<close>

locale postgres =
  fixes D :: "'e driver" and rest :: "'e \<Rightarrow> 'o"
  assumes pg_rest: "keeps rest (pg_reply D)"
begin

lemma pg_rest_snd: "rest (snd (pg_reply D e)) = rest e"
  using pg_rest by (simp add: keeps_def)

lemma call_rest: "call D st s = (r, t) \<Longrightarrow> rest (outside t) = rest (outside s) \<and> metrics t = metrics s"
  using pg_rest_snd [of "outside s"] by (elim call_cases) simp_all

lemma fetch_rest: "fetch_all D rows s = (r, t) \<Longrightarrow> rest (outside t) = rest (outside s) \<and> metrics t = metrics s"
  using pg_rest_snd [of "outside s"] by (elim fetch_all_cases) simp_all

lemma withTx_rest:
  assumes "withTx D fn s = (r, t)"
    and "\<And>now s1 r2 s2. fn now s1 = (r2, s2) \<Longrightarrow> rest (outside s2) = rest (outside s1) \<and> metrics s2 = metrics s1"
  shows "rest (outside t) = rest (outside s) \<and> metrics t = metrics s"
  using assms(1)
proof (cases rule: withTx_cases)
  case (no_begin e err)
  then show ?thesis using pg_rest_snd by simp
next
  case (aborted e now r' s2 e' err)
  then show ?thesis using assms(2) [OF aborted(2)] pg_rest_snd by auto
next
  case (committed e now x s2 e')
  then show ?thesis using assms(2) [OF committed(2)] pg_rest_snd by auto
qed

lemma insertOutbox_rest:
  "insertOutbox D now ev s = (r, t) \<Longrightarrow> rest (outside t) = rest (outside s) \<and> metrics t = metrics s"
  by (auto simp: insertOutbox_def split: prod.splits sum.splits dest: call_rest)

lemma repo_step_rest:
  assumes "store_step (AvatarRepository D) s t"
  shows "rest (outside t) = rest (outside s) \<and> metrics t = metrics s"
  using assms
proof cases
  case (step_create a ev r)
  then have "withTx D (\<lambda>t s. (case call D (\<lambda>_. insert_avatar a t) s of
       (Inl err, s) \<Rightarrow> (Inl (ErrWrap ''insert avatar'' err), s)
     | (Inr _, s) \<Rightarrow> insertOutbox D t ev s)) s = (r, t)"
    by (simp add: AvatarRepository_def repo_CreateWithOutbox_def)
  then show ?thesis
    by (rule withTx_rest) (auto split: prod.splits sum.splits dest!: call_rest insertOutbox_rest)
next
  case (step_soft_delete i u ev r)
  then have "withTx D (\<lambda>t s.
    (case call D (\<lambda>_. update_soft_delete i u t) s of (row, s) \<Rightarrow>
     (case scanAvatar row of Inl err \<Rightarrow> (Inl err, s) | Inr a \<Rightarrow>
     (case insertOutbox D t ev s of (Inl err, s) \<Rightarrow> (Inl err, s)
      | (Inr oid, s) \<Rightarrow> (Inr (a, oid), s))))) s = (r, t)"
    by (simp add: AvatarRepository_def repo_SoftDelete_def)
  then show ?thesis
    by (rule withTx_rest) (auto split: prod.splits sum.splits dest!: call_rest insertOutbox_rest)
qed (auto simp: AvatarRepository_def repo_GetByID_def repo_GetLatestByUserID_def repo_ListByUserID_def
      repo_MarkProcessing_def repo_CompleteProcessing_def repo_FailProcessing_def
      repo_ListUnpublished_def repo_MarkOutboxPublished_def repo_ListStuckUploads_def Let_def
      split: prod.splits sum.splits if_splits dest!: call_rest fetch_rest)

end

section \<open>The contract\<close>

lemma repo_create_law:
  assumes "repo_CreateWithOutbox D a ev s = (r1, t)" "wf_db (tables s)" "short_event ev"
  shows "(db_live (tables t) = db_live (tables s) \<and> db_events (tables t) = db_events (tables s)
       \<and> db_unpub (tables t) = db_unpub (tables s) \<and> (\<exists>e. r1 = Inl e)) \<or>
      (av_ID a \<notin> db_used (tables s) \<and> av_ID a \<in> db_used (tables t) \<and>
       (\<exists>a' p. same_core a a'
          \<and> (length (av_ProcessingStatus a) \<le> 50 \<longrightarrow> av_ProcessingStatus a' = av_ProcessingStatus a)
          \<and> (length (av_UserID a) \<le> 255 \<longrightarrow> av_UserID a' = av_UserID a)
          \<and> (length (av_S3Key a) \<le> 500 \<longrightarrow> av_S3Key a' = av_S3Key a)
          \<and> db_live (tables t) = (db_live (tables s))(av_ID a \<mapsto> a')
          \<and> oe_Payload ev = Some p
          \<and> db_events (tables t) = (db_events (tables s))(oe_EventID ev \<mapsto> (oe_Kind ev, p))) \<and>
       (db_events (tables s) (oe_EventID ev) = None \<longrightarrow>
          (\<exists>n. db_unpub (tables t) = db_unpub (tables s) @ [ev\<lparr>oe_ID := n\<rparr>])))"
  using repo_create_effect [OF assms]
proof (elim disjE conjE exE)
  fix row
  assume n: "av_ID a \<notin> db_used (tables s)" "av_ID a \<in> db_used (tables t)" and q: "enqueued ev (tables s) (tables t)"
    and row: "c_id row = av_ID a"
      "varchar 255 (av_UserID a) = Some (c_user_id row)" "varchar 500 (av_S3Key a) = Some (c_s3_key row)"
      "varchar 50 (av_ProcessingStatus a) = Some (c_processing_status row)"
      "c_size_bytes row = av_SizeBytes a" "c_created_at row = av_CreatedAt a"
    and l: "db_live (tables t) = (db_live (tables s))(av_ID a \<mapsto> row_avatar row)"
  have "same_core a (row_avatar row)" using row by (simp add: same_core_def)
  moreover have "length (av_ProcessingStatus a) \<le> 50 \<longrightarrow> av_ProcessingStatus (row_avatar row) = av_ProcessingStatus a"
    "length (av_UserID a) \<le> 255 \<longrightarrow> av_UserID (row_avatar row) = av_UserID a"
    "length (av_S3Key a) \<le> 500 \<longrightarrow> av_S3Key (row_avatar row) = av_S3Key a"
    using row by (auto dest: varchar_id)
  ultimately show ?thesis using n q l unfolding enqueued_def by blast
qed (simp add: same_view_def)

lemma repo_soft_delete_law:
  assumes "repo_SoftDelete D i u ev s = (r5, t)" "wf_db (tables s)" "short_event ev"
  shows "(db_live (tables t) = db_live (tables s) \<and> db_events (tables t) = db_events (tables s)
       \<and> db_unpub (tables t) = db_unpub (tables s) \<and> (\<exists>e. r5 = Inl e)) \<or>
      (\<exists>a p. db_live (tables s) i = Some a \<and> av_UserID a = u \<and> db_live (tables t) = (db_live (tables s))(i := None)
         \<and> oe_Payload ev = Some p
         \<and> db_events (tables t) = (db_events (tables s))(oe_EventID ev \<mapsto> (oe_Kind ev, p)) \<and>
       (db_events (tables s) (oe_EventID ev) = None \<longrightarrow>
          (\<exists>n. db_unpub (tables t) = db_unpub (tables s) @ [ev\<lparr>oe_ID := n\<rparr>])))"
  using repo_soft_delete_effect [OF assms] by (auto simp: enqueued_def same_view_def)

lemma repo_get_law:
  assumes "repo_GetByID D i s = (r2, t)" "wf_db (tables s)"
  shows "db_live (tables t) = db_live (tables s) \<and> db_events (tables t) = db_events (tables s)
      \<and> db_unpub (tables t) = db_unpub (tables s) \<and>
      (\<forall>a. r2 = Inr a \<longrightarrow> db_live (tables s) i = Some a \<and> av_ID a = i) \<and>
      (\<forall>e. r2 = Inl e \<longrightarrow> errors_Is e ErrAvatarNotFound \<longrightarrow> db_live (tables s) i = None)"
  using repo_GetByID_effect [OF assms(1)] lookup_row_Some by (fastforce simp: db_live_def)

lemma repo_latest_law:
  assumes "repo_GetLatestByUserID D u s = (r2, t)" "wf_db (tables s)"
  shows "db_live (tables t) = db_live (tables s) \<and> db_events (tables t) = db_events (tables s)
      \<and> db_unpub (tables t) = db_unpub (tables s) \<and>
      (\<forall>a. r2 = Inr a \<longrightarrow> db_live (tables s) (av_ID a) = Some a \<and> av_UserID a = u)"
  using repo_GetLatest_effect [OF assms] by simp

lemma repo_list_law:
  assumes "repo_ListByUserID D u s = (r4, t)" "wf_db (tables s)"
  shows "db_live (tables t) = db_live (tables s) \<and> db_events (tables t) = db_events (tables s)
      \<and> db_unpub (tables t) = db_unpub (tables s) \<and>
      (\<forall>as. r4 = Inr as \<longrightarrow> set as = {a \<in> ran (db_live (tables s)). av_UserID a = u})"
proof -
  have "{a \<in> row_avatar ` S. av_UserID a = u} = row_avatar ` {r \<in> S. c_user_id r = u}" for S
    by auto
  from this [of "{r \<in> set (t_avatars (tables s)). c_deleted_at r = None}"]
  have "{a \<in> ran (db_live (tables s)). av_UserID a = u} = row_avatar ` set (user_rows u (tables s))"
    by (simp add: ran_db_live [OF assms(2)] set_user_rows conj_ac)
  moreover have "set as = row_avatar ` set (user_rows u (tables s))" if "r4 = Inr as" for as
    using repo_List_effect [OF assms] that by auto
  moreover have "tables t = tables s" using repo_List_effect [OF assms] by blast
  ultimately show ?thesis by (simp only:) blast
qed

lemma repo_stuck_law:
  assumes "repo_ListStuckUploads D n s = (r4, t)" "wf_db (tables s)" "0 < n"
  shows "db_live (tables t) = db_live (tables s) \<and> db_events (tables t) = db_events (tables s)
      \<and> db_unpub (tables t) = db_unpub (tables s) \<and>
      (\<forall>as. r4 = Inr as \<longrightarrow> (\<forall>a \<in> set as. db_live (tables s) (av_ID a) = Some a
         \<and> av_ProcessingStatus a \<noteq> ProcessingCompleted))"
  using repo_ListStuck_effect [OF assms] by simp

lemma repo_unpublished_law:
  assumes "repo_ListUnpublished D n s = (r9, t)" "wf_db (tables s)" "0 < n"
  shows "db_live (tables t) = db_live (tables s) \<and> db_events (tables t) = db_events (tables s)
      \<and> db_unpub (tables t) = db_unpub (tables s) \<and>
      (\<forall>items. r9 = Inr items \<longrightarrow> items = take (nat n) (db_unpub (tables s)))"
  using repo_ListUnpublished_effect [OF assms] by simp

lemma db_unpub_events:
  assumes "wf_db d" "ev \<in> set (db_unpub d)"
  shows "\<exists>p. oe_Payload ev = Some p \<and> db_events d (oe_EventID ev) = Some (oe_Kind ev, p)"
proof -
  obtain r where r: "r \<in> set (t_outbox d)" "ev = row_event r" using assms(2) by (auto simp: db_unpub_def)
  have "db_events d (o_event_id r) = Some (o_kind r, o_payload r)"
    unfolding db_events_def using assms(1) r(1)
    by (intro map_of_is_SomeI) (auto simp: wf_db_def comp_def)
  then show ?thesis using r(2) by (simp add: row_event_def)
qed

lemma db_unpub_ids:
  assumes "wf_db d"
  shows "distinct (map oe_ID (db_unpub d)) \<and> distinct (map oe_EventID (db_unpub d))"
proof -
  have "distinct (map o_id (t_outbox d))" "distinct (map o_event_id (t_outbox d))"
    using assms strict_sorted_iff by (auto simp: wf_db_def)
  then have "distinct (map o_id (filter (\<lambda>r. o_published_at r = None) (t_outbox d)))"
    "distinct (map o_event_id (filter (\<lambda>r. o_published_at r = None) (t_outbox d)))"
    by (simp_all add: distinct_map_filter)
  moreover have "map oe_ID (db_unpub d) = map o_id (filter (\<lambda>r. o_published_at r = None) (t_outbox d))"
    "map oe_EventID (db_unpub d) = map o_event_id (filter (\<lambda>r. o_published_at r = None) (t_outbox d))"
    by (simp_all add: db_unpub_def row_event_def)
  ultimately show ?thesis by simp
qed

lemma AvatarRepository_sel:
  "CreateWithOutbox (AvatarRepository D) = repo_CreateWithOutbox D"
  "GetByID (AvatarRepository D) = repo_GetByID D"
  "GetLatestByUserID (AvatarRepository D) = repo_GetLatestByUserID D"
  "ListByUserID (AvatarRepository D) = repo_ListByUserID D"
  "SoftDeleteOwnedWithOutbox (AvatarRepository D) = repo_SoftDelete D"
  "MarkProcessing (AvatarRepository D) = repo_MarkProcessing D"
  "CompleteProcessing (AvatarRepository D) = repo_CompleteProcessing D"
  "FailProcessing (AvatarRepository D) = repo_FailProcessing D"
  "ListUnpublished (AvatarRepository D) = repo_ListUnpublished D"
  "MarkOutboxPublished (AvatarRepository D) = repo_MarkOutboxPublished D"
  "ListStuckUploads (AvatarRepository D) = repo_ListStuckUploads D"
  by (simp_all add: AvatarRepository_def)

lemmas repo_laws = repo_get_law repo_latest_law repo_list_law repo_create_law repo_soft_delete_law
  repo_unpublished_law repo_MarkPublished_effect repo_MarkProcessing_effect repo_refused_law
  repo_CompleteProcessing_effect repo_FailProcessing_effect repo_stuck_law

sublocale postgres \<subseteq> pg: avatar_store "AvatarRepository D" "\<lambda>s. wf_db (tables s)" "\<lambda>s. db_used (tables s)"
    "\<lambda>s. db_live (tables s)" "\<lambda>s. db_events (tables s)" "\<lambda>s. db_unpub (tables s)"
    "\<lambda>s. (metrics s, rest (outside s))"
proof
  fix s t assume st: "store_step (AvatarRepository D) s t"
  show "wf_db (tables s) \<Longrightarrow> wf_db (tables t)"
    using grows_repo_step [OF st] by (simp add: grows_def)
  show "wf_db (tables s) \<Longrightarrow> db_used (tables s) \<subseteq> db_used (tables t)"
    using grows_repo_step [OF st] by (simp add: grows_def)
  show "(metrics t, rest (outside t)) = (metrics s, rest (outside s))"
    using repo_step_rest [OF st] by simp
next
  show "dom (db_live (tables s)) \<subseteq> db_used (tables s)" for s
    by (auto simp: db_live_def db_used_def dest!: lookup_row_Some)
  show "ev \<in> set (db_unpub (tables s)) \<Longrightarrow>
      \<exists>p. oe_Payload ev = Some p \<and> db_events (tables s) (oe_EventID ev) = Some (oe_Kind ev, p)"
    if "wf_db (tables s)" for ev s
    using db_unpub_events [OF that] by blast
  show "distinct (map oe_ID (db_unpub (tables s))) \<and> distinct (map oe_EventID (db_unpub (tables s)))"
    if "wf_db (tables s)" for s
    using db_unpub_ids [OF that] .
qed (unfold AvatarRepository_sel, (erule repo_laws, assumption+)+)

context postgres
begin

lemma store: "avatar_store (AvatarRepository D) (\<lambda>s. wf_db (tables s)) (\<lambda>s. db_used (tables s))
    (\<lambda>s. db_live (tables s)) (\<lambda>s. db_events (tables s)) (\<lambda>s. db_unpub (tables s))
    (\<lambda>s. (metrics s, rest (outside s)))"
  by (rule pg.avatar_store_axioms)

end

section \<open>Single statements\<close>

lemma mark_result:
  assumes "wf_db d"
  shows "fst (update_mark_processing i t d) =
    (case lookup_row d i of None \<Rightarrow> Inl ErrNoRows | Some r \<Rightarrow> if takeable t r then Inr i else Inl ErrNoRows)"
proof -
  have d: "distinct (map c_id (t_avatars d))" using assms by (simp add: wf_db_def)
  have "fst (update_mark_processing i t d) =
      first_row (map c_id (filter (\<lambda>r. c_id r = i \<and> c_deleted_at r = None \<and> takeable t r) (t_avatars d)))"
    by (simp add: update_mark_processing_def takeable_def Let_def)
  then show ?thesis
    by (auto simp: lookup_row_filter [OF d] first_row_def dest: lookup_row_Some split: option.splits)
qed

lemma mark_lookup:
  assumes "wf_db d"
  shows "lookup_row (snd (update_mark_processing i t d)) i =
    map_option (\<lambda>r. if takeable t r then r\<lparr>c_processing_status := ProcessingProcessing, c_updated_at := t\<rparr> else r)
      (lookup_row d i)"
proof -
  have d: "distinct (map c_id (t_avatars d))" using assms by (simp add: wf_db_def)
  let ?p = "\<lambda>r. c_id r = i \<and> c_deleted_at r = None \<and> takeable t r"
  let ?f = "\<lambda>r. r\<lparr>c_processing_status := ProcessingProcessing, c_updated_at := t\<rparr>"
  have e: "snd (update_mark_processing i t d) = d\<lparr>t_avatars := update_where ?p ?f (t_avatars d)\<rparr>"
    by (simp add: update_mark_processing_def takeable_def Let_def)
  have "find (live_row i) (update_where ?p ?f (t_avatars d)) =
      (case find (live_row i) (t_avatars d) of None \<Rightarrow> None
       | Some r \<Rightarrow> if \<not> ?p r then Some r else if c_deleted_at (?f r) = None then Some (?f r) else None)"
    by (subst find_update_where [OF d, of ?f ?p i]) (auto simp: live_row_def)
  then show ?thesis
    using lookup_row_Some [of d i] by (auto simp: e lookup_row_def split: option.splits)
qed

lemma stuck_rows:
  "fst (select_stuck n t d) = Inr (take (nat n) (sort_key c_created_at
     (filter (\<lambda>r. c_deleted_at r = None \<and> takeable t r) (t_avatars d))))"
  by (simp add: select_stuck_def takeable_def)

lemma lookup_row_live:
  assumes "wf_db d" "r \<in> set (t_avatars d)" "c_deleted_at r = None"
  shows "lookup_row d (c_id r) = Some r"
proof -
  have d: "distinct (map c_id (t_avatars d))" using assms(1) by (simp add: wf_db_def)
  have "filter (\<lambda>x. c_id x = c_id r \<and> c_deleted_at x = None \<and> x = r) (t_avatars d) \<noteq> []"
    using assms(2,3) by (auto simp: filter_empty_conv)
  then show ?thesis
    using lookup_row_filter [OF d, of "c_id r" "\<lambda>x. x = r"] by (auto split: option.splits if_splits)
qed

end
