(* ===== verification/Config.thy ===== *)
theory Config
  imports Domain
begin

text \<open>
  \<open>internal/config/config.go\<close>: the configuration read from the environment.  The environment is the
  argument \<open>getenv\<close> (the empty string for a variable that is not set).
\<close>

record Config =
  HTTPAddr :: string
  PublicBaseURL :: string
  MaxUploadBytes :: int
  RateLimitRPS :: int
  CORSOrigins :: "string list"
  DatabaseURL :: string
  S3Endpoint :: string
  S3AccessKey :: string
  S3SecretKey :: string
  S3Bucket :: string
  S3UseSSL :: bool
  S3Region :: string
  KafkaBrokers :: "string list"
  KafkaGroup :: string
  TopicUpload :: string
  TopicDelete :: string
  TopicProcess :: string
  ServiceName :: string
  OTLPEndpoint :: string
  LogLevel :: string
  MetricsAddr :: string

definition DefaultHTTPAddr :: string where "DefaultHTTPAddr = '':8080''"
definition DefaultPublicBaseURL :: string where "DefaultPublicBaseURL = ''http://localhost:8080''"
definition DefaultMaxUploadSize :: int where "DefaultMaxUploadSize = 10485760"
definition DefaultS3Bucket :: string where "DefaultS3Bucket = ''avatars''"
definition DefaultKafkaGroup :: string where "DefaultKafkaGroup = ''gophprofile-worker''"

definition env :: "(string \<Rightarrow> string) \<Rightarrow> string \<Rightarrow> string \<Rightarrow> string" where
  "env getenv key fallback = (let v = TrimSpace (getenv key) in if v \<noteq> [] then v else fallback)"

definition envInt :: "(string \<Rightarrow> string) \<Rightarrow> string \<Rightarrow> int \<Rightarrow> int" where
  "envInt getenv key fallback =
    (let v = TrimSpace (getenv key) in
     if v = [] then fallback
     else (case ParseInt v of None \<Rightarrow> fallback | Some n \<Rightarrow> n))"

definition envInt64 :: "(string \<Rightarrow> string) \<Rightarrow> string \<Rightarrow> int \<Rightarrow> int" where
  "envInt64 getenv key fallback =
    (let v = TrimSpace (getenv key) in
     if v = [] then fallback
     else (case ParseInt v of None \<Rightarrow> fallback | Some n \<Rightarrow> n))"

definition envBool :: "(string \<Rightarrow> string) \<Rightarrow> string \<Rightarrow> bool \<Rightarrow> bool" where
  "envBool getenv key fallback =
    (let v = TrimSpace (ToLower (getenv key)) in
     if v = [] then fallback
     else if v \<in> {''1'', ''true'', ''yes'', ''on''} then True
     else if v \<in> {''0'', ''false'', ''no'', ''off''} then False
     else fallback)"

definition splitCSV :: "string \<Rightarrow> string list" where
  "splitCSV v = filter (\<lambda>p. p \<noteq> []) (map TrimSpace (SplitByte (CHR '','') v))"

definition Load :: "(string \<Rightarrow> string) \<Rightarrow> Config result" where
  "Load getenv =
    (let cfg = \<lparr>HTTPAddr = env getenv ''HTTP_ADDR'' DefaultHTTPAddr,
        PublicBaseURL = TrimRight (env getenv ''PUBLIC_BASE_URL'' DefaultPublicBaseURL) ''/'',
        MaxUploadBytes = envInt64 getenv ''MAX_UPLOAD_BYTES'' DefaultMaxUploadSize,
        RateLimitRPS = envInt getenv ''RATE_LIMIT_RPS'' 20,
        CORSOrigins = splitCSV (env getenv ''CORS_ORIGINS'' ''*''),
        DatabaseURL = env getenv ''DATABASE_URL'' [],
        S3Endpoint = env getenv ''S3_ENDPOINT'' ''localhost:9000'',
        S3AccessKey = env getenv ''S3_ACCESS_KEY'' ''minioadmin'',
        S3SecretKey = env getenv ''S3_SECRET_KEY'' ''minioadmin'',
        S3Bucket = env getenv ''S3_BUCKET'' DefaultS3Bucket,
        S3UseSSL = envBool getenv ''S3_USE_SSL'' False,
        S3Region = env getenv ''S3_REGION'' ''us-east-1'',
        KafkaBrokers = splitCSV (env getenv ''KAFKA_BROKERS'' ''localhost:9094''),
        KafkaGroup = env getenv ''KAFKA_GROUP'' DefaultKafkaGroup,
        TopicUpload = env getenv ''KAFKA_TOPIC_UPLOAD'' ''avatar.uploaded'',
        TopicDelete = env getenv ''KAFKA_TOPIC_DELETE'' ''avatar.deleted'',
        TopicProcess = env getenv ''KAFKA_TOPIC_PROCESS'' ''avatar.process'',
        ServiceName = env getenv ''OTEL_SERVICE_NAME'' ''gophprofile'',
        OTLPEndpoint = env getenv ''OTEL_EXPORTER_OTLP_ENDPOINT'' [],
        LogLevel = env getenv ''LOG_LEVEL'' ''info'',
        MetricsAddr = env getenv ''METRICS_ADDR'' '':9090''\<rparr>
     in if DatabaseURL cfg = [] then Inl (ErrText ''DATABASE_URL is required'')
        else if KafkaBrokers cfg = [] then Inl (ErrText ''KAFKA_BROKERS is required'')
        else Inr cfg)"

text \<open>\<open>ShutdownTimeout\<close>, in milliseconds.\<close>

definition ShutdownTimeout :: int where
  "ShutdownTimeout = 10000"

section \<open>What a loaded configuration promises\<close>

lemma TrimSpace_set: "set (TrimSpace s) \<subseteq> set s"
  using TrimSpace_sublist [of s] by (meson set_mono_sublist)

lemma splitCSV_parts:
  assumes "p \<in> set (splitCSV v)"
  shows "p \<noteq> [] \<and> TrimSpace p = p \<and> CHR '','' \<notin> set p"
proof -
  obtain q where q: "q \<in> set (SplitByte (CHR '','') v)" "p = TrimSpace q" "p \<noteq> []"
    using assms by (auto simp: splitCSV_def)
  then show ?thesis using SplitByte_no_sep [OF q(1)] TrimSpace_set [of q] by auto
qed

lemma TrimRight_idem [simp]: "TrimRight (TrimRight s cs) cs = TrimRight s cs"
  by (simp add: TrimRight_def)

text \<open>
  C38. A configuration that loads has a database URL and at least one broker; the brokers and the
  CORS origins are trimmed, not empty and free of commas; the public base URL does not end in a
  slash; and a configuration fails to load only for a missing database URL or broker list.
\<close>

theorem Load_promises:
  "case Load getenv of
     Inr cfg \<Rightarrow> DatabaseURL cfg \<noteq> [] \<and> KafkaBrokers cfg \<noteq> [] \<and>
       set (KafkaBrokers cfg) \<union> set (CORSOrigins cfg) \<subseteq> {p. p \<noteq> [] \<and> TrimSpace p = p \<and> CHR '','' \<notin> set p} \<and>
       TrimRight (PublicBaseURL cfg) ''/'' = PublicBaseURL cfg
   | Inl e \<Rightarrow> TrimSpace (getenv ''DATABASE_URL'') = [] \<and> e = ErrText ''DATABASE_URL is required'' \<or>
       splitCSV (env getenv ''KAFKA_BROKERS'' ''localhost:9094'') = [] \<and> e = ErrText ''KAFKA_BROKERS is required''"
proof (cases "Load getenv")
  case (Inl e)
  moreover have "env getenv ''DATABASE_URL'' [] = TrimSpace (getenv ''DATABASE_URL'')"
    by (simp add: env_def Let_def)
  ultimately show ?thesis
    by (simp add: Load_def Let_def split: if_splits)
next
  case (Inr cfg)
  then have "DatabaseURL cfg \<noteq> []" "KafkaBrokers cfg \<noteq> []"
    and k: "KafkaBrokers cfg = splitCSV (env getenv ''KAFKA_BROKERS'' ''localhost:9094'')"
      "CORSOrigins cfg = splitCSV (env getenv ''CORS_ORIGINS'' ''*'')"
      "PublicBaseURL cfg = TrimRight (env getenv ''PUBLIC_BASE_URL'' DefaultPublicBaseURL) ''/''"
    by (auto simp: Load_def Let_def split: if_splits)
  moreover have "set (KafkaBrokers cfg) \<union> set (CORSOrigins cfg) \<subseteq> {p. p \<noteq> [] \<and> TrimSpace p = p \<and> CHR '','' \<notin> set p}"
    unfolding k using splitCSV_parts by blast
  ultimately show ?thesis using Inr by simp
qed

lemma digits_printable: "list_all is_digit ds \<Longrightarrow> c \<in> set ds \<Longrightarrow> printable c"
  by (auto simp: list_all_iff is_digit_def printable_def less_eq_char_def)

lemma Itoa_printable: "c \<in> set (Itoa i) \<Longrightarrow> printable c"
  using digits_of_value digits_printable by (auto simp: Itoa_def printable_def split: if_splits)

lemma Itoa_not_Nil: "Itoa i \<noteq> []"
  using digits_of_value by (auto simp: Itoa_def)

lemma Itoa_trimmed: "TrimSpace (Itoa i) = Itoa i"
  by (rule TrimSpace_printable_ends) (rule Itoa_printable hd_in_set last_in_set Itoa_not_Nil)+

text \<open>
  A numeric variable that holds the decimal text of a 64-bit number is read as that number, and
  one that holds no such text leaves the default.
\<close>

lemma envInt64_reads:
  assumes "- (2 ^ 63) \<le> n" "n < 2 ^ 63" "getenv key = Itoa n" "ParseInt (TrimSpace (getenv other)) = None"
  shows "envInt64 getenv key fallback = n \<and> envInt64 getenv other fallback = fallback"
  using assms ParseInt_Itoa [OF assms(1,2)] Itoa_not_Nil Itoa_trimmed
  by (simp add: envInt64_def Let_def)

end
