(* ===== verification/App.thy ===== *)
theory App
  imports Worker Repository_Contract Config
begin

text \<open>
  The program put together (\<open>internal/app/deps.go\<close>): the service over the PostgreSQL repository, the
  S3 store and the Kafka producer.  The record \<open>world\<close> collects what is outside the repository's
  code: the driver of the database, the clients of the object store and the broker, the codecs,
  UUIDs, the clock and the context.  The locale \<open>outside_world\<close> asks of them what their
  documentation says, and every contract follows for the program's own code.
\<close>

record ('e, 'i) world =
  w_codecs :: "'i codecs"
  w_uuid_String :: "uuid \<Rightarrow> string"
  w_uuid_Parse :: "string \<Rightarrow> uuid result"
  w_uuid_New :: "('e, uuid) op"
  w_time_Now :: "('e, time) op"
  w_wait :: "int \<Rightarrow> ('e, goerr option) op"
  w_pg :: "'e driver"
  w_minio :: "'e minio"
  w_kafka :: "'e kafka"

definition app_packages :: "('e, 'i) world \<Rightarrow> ('e sys, 'i) packages" where
  "app_packages W =
    \<lparr>codecs = w_codecs W, uuid_String = w_uuid_String W, uuid_Parse = w_uuid_Parse W,
     uuid_New = lift (w_uuid_New W), time_Now = lift (w_time_Now W),
     wait_or_done = (\<lambda>n. lift (w_wait W n)), observe = observe_sys\<rparr>"

definition NewProducer :: "('e, 'i) world \<Rightarrow> Config \<Rightarrow> 'e Producer" where
  "NewProducer W cfg =
    \<lparr>pr_client = w_kafka W, pr_upload = wc_Topic (newWriter (KafkaBrokers cfg) (TopicUpload cfg)),
     pr_delete = wc_Topic (newWriter (KafkaBrokers cfg) (TopicDelete cfg)), pr_brokers = KafkaBrokers cfg\<rparr>"

definition NewConsumer :: "Config \<Rightarrow> string \<Rightarrow> reader_config" where
  "NewConsumer cfg topic =
    \<lparr>rc_Brokers = KafkaBrokers cfg, rc_GroupID = KafkaGroup cfg, rc_Topic = topic, rc_MinBytes = 1,
     rc_MaxBytes = 10 * 2 ^ 20, rc_MaxWait = 500, rc_CommitInterval = 0, rc_StartOffset = - 2\<rparr>"

lemma NewConsumer_Topic [simp]: "rc_Topic (NewConsumer cfg topic) = topic"
  by (simp add: NewConsumer_def)

text \<open>\<open>minio.New\<close> checks the endpoint: its error is the argument \<open>err\<close>.\<close>

definition NewS3 :: "('e, 'i) world \<Rightarrow> goerr option \<Rightarrow> Config \<Rightarrow> 'e S3 result" where
  "NewS3 W err cfg =
    (case err of
       Some e \<Rightarrow> Inl (ErrWrap ''minio client'' e)
     | None \<Rightarrow> Inr \<lparr>s3_client = w_minio W, s3_bucket = S3Bucket cfg\<rparr>)"

definition app_service :: "('e, 'i) world \<Rightarrow> Config \<Rightarrow> 'e sys AvatarService" where
  "app_service W cfg =
    NewAvatarService (AvatarRepository (w_pg W))
      (S3_store \<lparr>s3_client = w_minio W, s3_bucket = S3Bucket cfg\<rparr>)
      (Producer_publisher (NewProducer W cfg)) (PublicBaseURL cfg) (MaxUploadBytes cfg)"

definition app_worker :: "('e, 'i) world \<Rightarrow> Config \<Rightarrow> 'e sys Worker" where
  "app_worker W cfg = NewWorker (app_service W cfg)
    (kafka_cursor (w_kafka W) (rc_Topic (NewConsumer cfg (TopicUpload cfg))))
    (kafka_cursor (w_kafka W) (rc_Topic (NewConsumer cfg (TopicDelete cfg))))"

lemma app_service_sel [simp]:
  "svc_repo (app_service W cfg) = AvatarRepository (w_pg W)"
  "svc_objects (app_service W cfg) = S3_store \<lparr>s3_client = w_minio W, s3_bucket = S3Bucket cfg\<rparr>"
  "svc_publisher (app_service W cfg) = Producer_publisher
     \<lparr>pr_client = w_kafka W, pr_upload = TopicUpload cfg, pr_delete = TopicDelete cfg, pr_brokers = KafkaBrokers cfg\<rparr>"
  by (simp_all add: app_service_def NewAvatarService_def NewProducer_def)

section \<open>The assumptions on the outside\<close>

locale outside_world =
  pg: postgres "w_pg W" "\<lambda>e. (objects e, logs e)" +
  s3: minio_bucket "w_minio W" objects logs "S3Bucket cfg" +
  kf: kafka_topics "w_kafka W" logs objects "TopicUpload cfg" "TopicDelete cfg" "KafkaBrokers cfg"
  for W :: "('e, 'i) world" and cfg :: Config
    and objects :: "'e \<Rightarrow> string \<Rightarrow> string \<Rightarrow> (string \<times> string) option"
    and logs :: "'e \<Rightarrow> string \<Rightarrow> message list" +
  assumes w_new: "keeps (\<lambda>e. (objects e, logs e)) (w_uuid_New W)"
    and w_now: "keeps (\<lambda>e. (objects e, logs e)) (w_time_Now W)"
    and w_wait: "keeps (\<lambda>e. (objects e, logs e)) (w_wait W n)"
    and w_uuid: "uuids_print (app_packages W)"

lemma keeps_lift:
  assumes "keeps v m" "\<And>s e. v e = v (outside s) \<Longrightarrow> v' (s\<lparr>outside := e\<rparr>) = v' s"
  shows "keeps v' (lift m)"
proof (rule keepsI)
  fix s :: "'a sys"
  obtain r e where "m (outside s) = (r, e)" by fastforce
  then show "v' (snd (lift m s)) = v' s"
    using assms(2) keepsD [OF assms(1)] by (simp add: lift_def)
qed

sublocale outside_world \<subseteq> app: avatar_backend "app_service W cfg"
    "\<lambda>s. wf_db (tables s)" "\<lambda>s. db_used (tables s)" "\<lambda>s. db_live (tables s)"
    "\<lambda>s. db_events (tables s)" "\<lambda>s. db_unpub (tables s)"
    "\<lambda>s. objects (outside s) (S3Bucket cfg)"
    "\<lambda>s. map m_Value (logs (outside s) (TopicUpload cfg))"
    "\<lambda>s. map m_Value (logs (outside s) (TopicDelete cfg))"
    "app_packages W"
proof (rule avatar_backend.intro)
  show "avatar_store (svc_repo (app_service W cfg)) (\<lambda>s. wf_db (tables s)) (\<lambda>s. db_used (tables s))
      (\<lambda>s. db_live (tables s)) (\<lambda>s. db_events (tables s)) (\<lambda>s. db_unpub (tables s))
      (\<lambda>s. (objects (outside s) (S3Bucket cfg), map m_Value (logs (outside s) (TopicUpload cfg)),
         map m_Value (logs (outside s) (TopicDelete cfg))))"
    unfolding app_service_sel by (rule avatar_store_frame [OF pg.pg.avatar_store_axioms]) simp
  show "object_store (svc_objects (app_service W cfg)) (\<lambda>s. objects (outside s) (S3Bucket cfg))
      (\<lambda>s. (wf_db (tables s), db_used (tables s), db_live (tables s), db_events (tables s), db_unpub (tables s),
         map m_Value (logs (outside s) (TopicUpload cfg)), map m_Value (logs (outside s) (TopicDelete cfg))))"
    unfolding app_service_sel by (rule object_store_frame [OF s3.s3.object_store_axioms]) simp
  show "event_publisher (svc_publisher (app_service W cfg))
      (\<lambda>s. map m_Value (logs (outside s) (TopicUpload cfg)))
      (\<lambda>s. map m_Value (logs (outside s) (TopicDelete cfg)))
      (\<lambda>s. (wf_db (tables s), db_used (tables s), db_live (tables s), db_events (tables s), db_unpub (tables s),
         objects (outside s) (S3Bucket cfg)))"
    unfolding app_service_sel by (rule event_publisher_frame [OF kf.kafka.event_publisher_axioms]) simp
  have k: "keeps (\<lambda>s. (wf_db (tables s), db_used (tables s), db_live (tables s), db_events (tables s),
        db_unpub (tables s), objects (outside s) (S3Bucket cfg),
        map m_Value (logs (outside s) (TopicUpload cfg)), map m_Value (logs (outside s) (TopicDelete cfg))))
      (lift m)" if "keeps (\<lambda>e. (objects e, logs e)) m" for m :: "('e, 'x) op"
    by (rule keeps_lift [OF that]) simp
  show "avatar_backend_axioms (\<lambda>s. wf_db (tables s)) (\<lambda>s. db_used (tables s)) (\<lambda>s. db_live (tables s))
      (\<lambda>s. db_events (tables s)) (\<lambda>s. db_unpub (tables s)) (\<lambda>s. objects (outside s) (S3Bucket cfg))
      (\<lambda>s. map m_Value (logs (outside s) (TopicUpload cfg)))
      (\<lambda>s. map m_Value (logs (outside s) (TopicDelete cfg))) (app_packages W)"
    by unfold_locales
      (use w_uuid in \<open>simp_all add: app_packages_def k [OF w_new] k [OF w_now] k [OF w_wait]\<close>)
qed

context outside_world
begin

lemma backend: "avatar_backend (app_service W cfg)
    (\<lambda>s. wf_db (tables s)) (\<lambda>s. db_used (tables s)) (\<lambda>s. db_live (tables s))
    (\<lambda>s. db_events (tables s)) (\<lambda>s. db_unpub (tables s))
    (\<lambda>s. objects (outside s) (S3Bucket cfg))
    (\<lambda>s. map m_Value (logs (outside s) (TopicUpload cfg)))
    (\<lambda>s. map m_Value (logs (outside s) (TopicDelete cfg)))
    (app_packages W)"
  by (rule app.avatar_backend_axioms)

end

end
