(* ===== verification/Simulation.thy ===== *)
theory Simulation
  imports App
begin

text \<open>
  An outside world made of functions: a database driver whose replies are scripted, an object store
  and a broker held in maps with scripted failures, a clock, a UUID counter and a codec that keeps
  the bytes.  It interprets every locale of the development, so that none of their assumptions is
  void, and it is the world in which the examples run.
\<close>

section \<open>UUIDs\<close>

definition hex_value :: "char \<Rightarrow> nat" where
  "hex_value c = (if c \<le> CHR ''9'' then of_char c - 48 else of_char c - 87)"

fun hex_digits :: "nat \<Rightarrow> nat \<Rightarrow> string" where
  "hex_digits 0 n = []"
| "hex_digits (Suc k) n = hex_digits k (n div 16) @ [hex_digit (n mod 16)]"

definition hex_number :: "string \<Rightarrow> nat" where
  "hex_number ds = fold (\<lambda>c v. 16 * v + hex_value c) ds 0"

text \<open>The text 8-4-4-4-12.\<close>

definition uuid_format :: "uuid \<Rightarrow> string" where
  "uuid_format i =
    (let ds = hex_digits 32 (unat i) in
     take 8 ds @ ''-'' @ take 4 (drop 8 ds) @ ''-'' @ take 4 (drop 12 ds) @ ''-'' @
     take 4 (drop 16 ds) @ ''-'' @ drop 20 ds)"

definition is_hex :: "char \<Rightarrow> bool" where
  "is_hex c \<longleftrightarrow> CHR ''0'' \<le> c \<and> c \<le> CHR ''9'' \<or> CHR ''a'' \<le> c \<and> c \<le> CHR ''f''"

definition uuid_scan :: "string \<Rightarrow> uuid result" where
  "uuid_scan s =
    (let ds = filter (\<lambda>c. c \<noteq> CHR ''-'') s in
     if length s = 36 \<and> length ds = 32 \<and> list_all is_hex ds then Inr (word_of_nat (hex_number ds))
     else Inl (ErrExternal ''uuid''))"

lemma hex_digit_facts:
  assumes "d < 16"
  shows "hex_value (hex_digit d) = d" "is_hex (hex_digit d)" "hex_digit d \<noteq> CHR ''-''" "hex_digit d \<noteq> CHR ''/''"
    "of_char (hex_digit d) < (128 :: nat)" "hex_digit d \<noteq> CHR 0x00"
proof -
  have "\<forall>d \<in> {..<16}. hex_value (hex_digit d) = d \<and> is_hex (hex_digit d) \<and> hex_digit d \<noteq> CHR ''-''
      \<and> hex_digit d \<noteq> CHR ''/'' \<and> of_char (hex_digit d) < (128 :: nat) \<and> hex_digit d \<noteq> CHR 0x00"
    by code_simp
  then show "hex_value (hex_digit d) = d" "is_hex (hex_digit d)" "hex_digit d \<noteq> CHR ''-''" "hex_digit d \<noteq> CHR ''/''"
    "of_char (hex_digit d) < (128 :: nat)" "hex_digit d \<noteq> CHR 0x00"
    using assms by auto
qed

lemma hex_digits_facts:
  "length (hex_digits k n) = k \<and> (\<forall>c \<in> set (hex_digits k n). is_hex c \<and> c \<noteq> CHR ''-'' \<and> c \<noteq> CHR ''/'' \<and> of_char c < (128 :: nat) \<and> c \<noteq> CHR 0x00)"
  by (induction k arbitrary: n) (auto simp: hex_digit_facts)

lemma hex_number_digits: "n < 16 ^ k \<Longrightarrow> hex_number (hex_digits k n) = n"
proof (induction k arbitrary: n)
  case 0
  then show ?case by (simp add: hex_number_def)
next
  case (Suc k)
  have "n div 16 < 16 ^ k" using Suc.prems by (simp add: less_mult_imp_div_less mult.commute)
  then have "hex_number (hex_digits k (n div 16)) = n div 16" by (rule Suc.IH)
  then show ?case by (simp add: hex_number_def hex_digit_facts)
qed

lemma five_parts: "take 8 ds @ take 4 (drop 8 ds) @ take 4 (drop 12 ds) @ take 4 (drop 16 ds) @ drop 20 ds = ds"
proof -
  have d: "drop 20 ds = drop 4 (drop 16 ds)" "drop 16 ds = drop 4 (drop 12 ds)" "drop 12 ds = drop 4 (drop 8 ds)"
    by simp_all
  have "take 4 (drop 16 ds) @ drop 20 ds = drop 16 ds" by (simp only: d(1) append_take_drop_id)
  moreover have "take 4 (drop 12 ds) @ drop 16 ds = drop 12 ds" by (simp only: d(2) append_take_drop_id)
  moreover have "take 4 (drop 8 ds) @ drop 12 ds = drop 8 ds" by (simp only: d(3) append_take_drop_id)
  ultimately show ?thesis by (simp only: append_take_drop_id)
qed

lemma dashes_out:
  assumes "CHR ''-'' \<notin> set ds"
  shows "filter (\<lambda>c. c \<noteq> CHR ''-'') (take 8 ds @ ''-'' @ take 4 (drop 8 ds) @ ''-'' @ take 4 (drop 12 ds) @ ''-'' @
     take 4 (drop 16 ds) @ ''-'' @ drop 20 ds) = ds"
proof -
  have f: "filter (\<lambda>c. c \<noteq> CHR ''-'') xs = xs" if "set xs \<subseteq> set ds" for xs
    using assms that by (intro filter_True) auto
  have s: "set (take n (drop m ds)) \<subseteq> set ds" "set (take n ds) \<subseteq> set ds" "set (drop m ds) \<subseteq> set ds" for n m
    by (auto dest: in_set_takeD in_set_dropD)
  have m: "filter (\<lambda>c. c \<noteq> CHR ''-'') ''-'' = []" by simp
  show ?thesis
    by (simp only: filter_append m f [OF s(1)] f [OF s(2)] f [OF s(3)] append_Nil five_parts)
qed

declare hex_digits.simps [simp del]

lemma uuid_format_digits: "filter (\<lambda>c. c \<noteq> CHR ''-'') (uuid_format i) = hex_digits 32 (unat i)"
  unfolding uuid_format_def Let_def using hex_digits_facts [of 32 "unat i"] by (intro dashes_out) blast

lemma uuid_format_facts:
  "length (uuid_format i) = 36" "c \<in> set (uuid_format i) \<Longrightarrow> c \<noteq> CHR ''/'' \<and> of_char c < (128 :: nat) \<and> c \<noteq> CHR 0x00"
proof -
  note h = hex_digits_facts [of 32 "unat i"]
  show "length (uuid_format i) = 36" using h by (simp add: uuid_format_def Let_def)
  assume "c \<in> set (uuid_format i)"
  then have "c = CHR ''-'' \<or> c \<in> set (filter (\<lambda>c. c \<noteq> CHR ''-'') (uuid_format i))" by simp
  then have "c = CHR ''-'' \<or> c \<in> set (hex_digits 32 (unat i))" by (simp only: uuid_format_digits)
  then show "c \<noteq> CHR ''/'' \<and> of_char c < (128 :: nat) \<and> c \<noteq> CHR 0x00"
  proof
    assume "c = CHR ''-''"
    then show ?thesis by simp
  next
    assume "c \<in> set (hex_digits 32 (unat i))"
    then show ?thesis using h by blast
  qed
qed

lemma uuid_scan_format: "uuid_scan (uuid_format i) = Inr i"
proof -
  have "unat i < 16 ^ 32" using unsigned_less [of i, where 'a = nat] by simp
  then have "hex_number (hex_digits 32 (unat i)) = unat i" by (rule hex_number_digits)
  moreover have "length (hex_digits 32 (unat i)) = 32" "list_all is_hex (hex_digits 32 (unat i))"
    using hex_digits_facts [of 32 "unat i"] unfolding list_all_iff by blast+
  ultimately show ?thesis
    unfolding uuid_scan_def Let_def uuid_format_digits by (simp only: uuid_format_facts(1) simp_thms if_True of_nat_unat ucast_id)
qed

lemma uuid_format_run [simp]:
  "ascii (uuid_format i)" "CHR 0x00 \<notin> set (uuid_format i)" "CHR ''/'' \<notin> set (uuid_format i)"
  "length (uuid_format i) = 36" "uuid_format i \<noteq> []"
  using uuid_format_facts(2) [of _ i] uuid_format_facts(1) [of i]
  by (auto simp: ascii_def list_all_iff)

section \<open>The state and the clients\<close>

record sim =
  sim_pg :: "reply list"
  sim_s3 :: "reply list"
  sim_kafka :: "reply list"
  sim_clock :: time
  sim_ids :: nat
  sim_objects :: "string \<Rightarrow> string \<Rightarrow> (string \<times> string) option"
  sim_logs :: "string \<Rightarrow> message list"
  sim_next :: "string \<Rightarrow> nat"
  sim_committed :: "string \<Rightarrow> nat"
  sim_cancelled :: bool

text \<open>The next scripted reply; an exhausted script delivers.\<close>

definition next_reply :: "reply list \<Rightarrow> reply \<times> reply list" where
  "next_reply rs = (case rs of [] \<Rightarrow> (Delivered, []) | r # rs \<Rightarrow> (r, rs))"

definition sim_driver :: "sim driver" where
  "sim_driver =
    \<lparr>pg_reply = (\<lambda>e. case next_reply (sim_pg e) of (r, rs) \<Rightarrow> (r, e\<lparr>sim_pg := rs\<rparr>)),
     pg_now = sim_clock\<rparr>"

text \<open>A call that changes something, under the next reply of a script.\<close>

definition scripted :: "(sim \<Rightarrow> reply list) \<Rightarrow> (reply list \<Rightarrow> sim \<Rightarrow> sim) \<Rightarrow> (sim \<Rightarrow> sim) \<Rightarrow> (sim, goerr option) op" where
  "scripted get put f e =
    (case next_reply (get e) of (r, rs) \<Rightarrow>
     (case r of
        Delivered \<Rightarrow> (None, f (put rs e))
      | Refused m \<Rightarrow> (Some (ErrExternal m), put rs e)
      | ReplyLost m \<Rightarrow> (Some (ErrExternal m), f (put rs e))))"

definition put_s3 :: "reply list \<Rightarrow> sim \<Rightarrow> sim" where "put_s3 rs e = e\<lparr>sim_s3 := rs\<rparr>"
definition put_kafka :: "reply list \<Rightarrow> sim \<Rightarrow> sim" where "put_kafka rs e = e\<lparr>sim_kafka := rs\<rparr>"

definition sim_get :: "object_handle \<Rightarrow> sim \<Rightarrow> (string \<times> string) result" where
  "sim_get h e = (case sim_objects e (fst h) (snd h) of
     None \<Rightarrow> Inl (ErrExternal ''The specified key does not exist.'') | Some x \<Rightarrow> Inr x)"

definition sim_minio :: "sim minio" where
  "sim_minio =
    \<lparr>minio_BucketExists = (\<lambda>b e. (Inr True, e)),
     minio_MakeBucket = (\<lambda>b e. (None, e)),
     minio_PutObject = (\<lambda>b k ct d. scripted sim_s3 put_s3
        (\<lambda>e. e\<lparr>sim_objects := (sim_objects e)(b := (sim_objects e b)(k \<mapsto> (ct, d)))\<rparr>)),
     minio_GetObject = (\<lambda>b k e. (Inr (b, k), e)),
     minio_Stat = (\<lambda>h e. (map_sum id fst (sim_get h e), e)),
     minio_ReadAll = (\<lambda>h e. (map_sum id snd (sim_get h e), e)),
     minio_RemoveObject = (\<lambda>b k. scripted sim_s3 put_s3
        (\<lambda>e. e\<lparr>sim_objects := (sim_objects e)(b := (sim_objects e b)(k := None))\<rparr>)),
     http_DetectContentType = (\<lambda>d. ''application/octet-stream'')\<rparr>"

definition sim_kafka_client :: "sim kafka" where
  "sim_kafka_client =
    \<lparr>kafka_WriteMessages = (\<lambda>t msg. scripted sim_kafka put_kafka
        (\<lambda>e. e\<lparr>sim_logs := (sim_logs e)(t := sim_logs e t @
           [msg\<lparr>m_Topic := t, m_Partition := 0, m_Offset := int (length (sim_logs e t))\<rparr>])\<rparr>)),
     kafka_FetchMessage = (\<lambda>t e.
        if \<not> sim_cancelled e \<and> sim_next e t < length (sim_logs e t)
        then (Inr (sim_logs e t ! sim_next e t), e\<lparr>sim_next := (sim_next e)(t := sim_next e t + 1)\<rparr>)
        else (Inl (ErrExternal ''closed''), e\<lparr>sim_cancelled := True\<rparr>)),
     kafka_CommitMessages = (\<lambda>t msg e.
        (None, e\<lparr>sim_committed := (sim_committed e)(t := nat (m_Offset msg) + 1)\<rparr>)),
     kafka_DialContext = (\<lambda>a e. (Inr 0, e)),
     kafka_Controller = (\<lambda>c e. (Inr (''kafka'', 9092), e)),
     kafka_CreateTopics = (\<lambda>c cfgs e. (None, e)),
     kafka_Brokers = (\<lambda>c e. (None, e)),
     kafka_CloseConn = (\<lambda>c e. e),
     kafka_Close = (\<lambda>t e. (None, e)),
     kafka_time_Now = (\<lambda>e. (sim_clock e, e)),
     kafka_trace = (\<lambda>e. [(''traceparent'', ''00-0'')])\<rparr>"

text \<open>Decoded images are byte strings; a thumbnail is the head of the data.\<close>

definition sim_codecs :: "string codecs" where
  "sim_codecs =
    \<lparr>image_DecodeConfig = (\<lambda>d. if length d < 16 then Inr (640, 480) else Inl (ErrExternal ''image'')),
     image_Decode = (\<lambda>d. Inr d), imaging_Fill = (\<lambda>i w h. take 12 i),
     jpeg_Encode = (\<lambda>i. Inr i), png_Encode = (\<lambda>i. Inr i), webp_Encode = (\<lambda>i. Inr i)\<rparr>"

definition sim_world :: "(sim, string) world" where
  "sim_world =
    \<lparr>w_codecs = sim_codecs, w_uuid_String = uuid_format, w_uuid_Parse = uuid_scan,
     w_uuid_New = (\<lambda>e. (word_of_nat (sim_ids e), e\<lparr>sim_ids := sim_ids e + 1\<rparr>)),
     w_time_Now = (\<lambda>e. (sim_clock e, e)),
     w_wait = (\<lambda>n e. (if sim_cancelled e then Some (ErrExternal ''context canceled'') else None,
                      e\<lparr>sim_clock := sim_clock e + 1000 * n\<rparr>)),
     w_pg = sim_driver, w_minio = sim_minio, w_kafka = sim_kafka_client\<rparr>"

lemma scripted_cases:
  assumes "scripted get put f e = (r, e')"
  obtains rs where "e' = f (put rs e)" | rs where "r \<noteq> None" "e' = put rs e"
  using assms unfolding scripted_def by (cases "next_reply (get e)") (auto split: reply.splits)

definition sim_config :: Config where
  "sim_config =
    \<lparr>HTTPAddr = DefaultHTTPAddr, PublicBaseURL = DefaultPublicBaseURL, MaxUploadBytes = DefaultMaxUploadSize,
     RateLimitRPS = 20, CORSOrigins = [''*''], DatabaseURL = ''postgres://db'',
     S3Endpoint = ''localhost:9000'', S3AccessKey = ''k'', S3SecretKey = ''s'', S3Bucket = DefaultS3Bucket,
     S3UseSSL = False, S3Region = ''us-east-1'', KafkaBrokers = [''localhost:9094''],
     KafkaGroup = DefaultKafkaGroup, TopicUpload = ''avatar.uploaded'', TopicDelete = ''avatar.deleted'',
     TopicProcess = ''avatar.process'', ServiceName = ''gophprofile'', OTLPEndpoint = [],
     LogLevel = ''info'', MetricsAddr = '':9090''\<rparr>"

section \<open>The interpretation\<close>

interpretation sim: outside_world sim_world sim_config sim_objects sim_logs
proof (unfold_locales)
  show "keeps (\<lambda>e. (sim_objects e, sim_logs e)) (pg_reply (w_pg sim_world))"
    by (rule keepsI) (simp add: sim_world_def sim_driver_def split: prod.splits)
  show "keeps (\<lambda>e. (sim_objects e, sim_logs e)) (w_uuid_New sim_world)"
    "keeps (\<lambda>e. (sim_objects e, sim_logs e)) (w_time_Now sim_world)"
    "keeps (\<lambda>e. (sim_objects e, sim_logs e)) (w_wait sim_world n)" for n
    by (rule keepsI, simp add: sim_world_def)+
  show "uuids_print (app_packages sim_world)"
    by (auto simp: uuids_print_def uuid_text_def app_packages_def sim_world_def uuid_scan_format
        uuid_format_facts(1) ascii_def list_all_iff dest: uuid_format_facts(2))
  show "TopicUpload sim_config \<noteq> TopicDelete sim_config" by (simp add: sim_config_def)
  show "keeps (\<lambda>e. (sim_objects e, sim_logs e)) (kafka_time_Now (w_kafka sim_world))"
    "keeps (\<lambda>e. (sim_objects e, sim_logs e)) (kafka_FetchMessage (w_kafka sim_world) topic)"
    "keeps (\<lambda>e. (sim_objects e, sim_logs e)) (kafka_CommitMessages (w_kafka sim_world) topic msg)"
    for topic msg
    by (rule keepsI, simp add: sim_world_def sim_kafka_client_def)+
  show "sim_objects e' = sim_objects e \<and>
      ((\<exists>p off. sim_logs e' = (sim_logs e)(topic := sim_logs e topic @ [msg\<lparr>m_Topic := topic, m_Partition := p, m_Offset := off\<rparr>]))
       \<or> r \<noteq> None \<and> sim_logs e' = sim_logs e)"
    if w: "kafka_WriteMessages (w_kafka sim_world) topic msg e = (r, e')" for topic msg e r e'
  proof -
    have "scripted sim_kafka put_kafka (\<lambda>e. e\<lparr>sim_logs := (sim_logs e)(topic := sim_logs e topic @
           [msg\<lparr>m_Topic := topic, m_Partition := 0, m_Offset := int (length (sim_logs e topic))\<rparr>])\<rparr>) e = (r, e')"
      using w by (simp add: sim_world_def sim_kafka_client_def)
    then show ?thesis
    proof (cases rule: scripted_cases)
      case (1 rs)
      then have "sim_objects e' = sim_objects e" "sim_logs e' = (sim_logs e)(topic := sim_logs e topic @
          [msg\<lparr>m_Topic := topic, m_Partition := 0, m_Offset := int (length (sim_logs e topic))\<rparr>])"
        by (simp_all add: put_kafka_def)
      then show ?thesis by blast
    next
      case (2 rs)
      then show ?thesis by (simp add: put_kafka_def)
    qed
  qed
qed (auto simp: sim_world_def sim_minio_def sim_kafka_client_def sim_get_def put_s3_def put_kafka_def
    split: option.splits elim!: scripted_cases)

section \<open>A first state\<close>

definition sim_start :: sim where
  "sim_start = \<lparr>sim_pg = [], sim_s3 = [], sim_kafka = [], sim_clock = 1000000000, sim_ids = 1,
     sim_objects = (\<lambda>_ _. None), sim_logs = (\<lambda>_. []), sim_next = (\<lambda>_. 0), sim_committed = (\<lambda>_. 0),
     sim_cancelled = False\<rparr>"

definition empty_db :: db where
  "empty_db = \<lparr>t_avatars = [], t_outbox = [], outbox_seq = 0\<rparr>"

definition sys_start :: "sim sys" where
  "sys_start = \<lparr>tables = empty_db, outside = sim_start, metrics = []\<rparr>"

definition a_png :: string where
  "a_png = png_magic @ ''data''"

end
