(* ===== verification/Sim_Runs.thy ===== *)
theory Sim_Runs
  imports Simulation
begin

text \<open>
  One run of the program in the simulated world: alice uploads a picture, the outbox is flushed, the
  worker processes the event, bob may not delete the picture, alice may.  The steps are evaluated by
  the simplifier from the definitions of the model (collection \<open>run\<close>); the examples of the
  properties are taken from them.
\<close>

lemma valid_alice [run]: "ValidateUserID ''alice'' = None"
  by (simp add: ValidateUserID_def Let_def TrimSpace_printable_ends printable_def runes_ascii
      IsControl_def del: runes.simps)

lemma valid_bob [run]: "ValidateUserID ''bob'' = None"
  by (simp add: ValidateUserID_def Let_def TrimSpace_printable_ends printable_def runes_ascii
      IsControl_def del: runes.simps)

lemma inspect_png [run]:
  "Inspect sim_codecs a_png = Inr \<lparr>info_MIME = MIMEPNG, info_Ext = ''.png'', info_Width = 640, info_Height = 480\<rparr>"
  by (simp add: Inspect_def a_png_def png_magic_def DetectMIME_def sim_codecs_def checkPixels_def
      wrap64_def MaxPixels_def ExtForMIME_def mime_defs)

lemma file_name [run]: "sanitizeFileName ''me.png'' x = ''me.png''"
  by (simp add: sanitizeFileName_def Let_def TrimSpace_printable_ends printable_def Base_def
      TrimRight_def ReplaceByte_def)

lemma varchar_ascii [run]: "ascii s \<Longrightarrow> CHR 0x00 \<notin> set s \<Longrightarrow> length s \<le> n \<Longrightarrow> varchar n s = Some s"
  by (simp add: varchar_def valid_utf8_ascii runes_ascii)

lemma png_facts [run]: "length a_png = 12" "a_png \<noteq> []"
  by (simp_all add: a_png_def png_magic_def)

lemmas run_world [run] = app_packages_def sim_world_def Let_def app_service_def NewAvatarService_def sim_config_def
  DefaultMaxUploadSize_def lift_def sys_start_def sim_start_def S3_store_def sim_minio_def
  scripted_def next_reply_def put_s3_def put_kafka_def AvatarRepository_def withTx_def call_def
  sim_driver_def insertOutbox_def mime_defs status_defs empty_db_def int4_def observe_sys_def StatusOK_def

lemmas run_upload_defs [run] = upload_def Upload_def newOutboxEvent_def S3_Upload_def repo_CreateWithOutbox_def
  insert_avatar_def insert_outbox_def OriginalObjectKey_def UploadEventID_def OutboxUpload_def
  ThumbnailKeysJSON_def marshal_string_def marshal_strmap_def

definition sim_packages :: "(sim sys, string) packages" where "sim_packages = app_packages sim_world"
definition sim_service :: "sim sys AvatarService" where "sim_service = app_service sim_world sim_config"

definition run_key :: string where "run_key = ''originals/alice/'' @ uuid_format 1 @ ''.png''"

definition run_avatar :: Avatar where
  "run_avatar = \<lparr>av_ID = 1, av_UserID = ''alice'', av_FileName = ''me.png'', av_MimeType = ''image/png'',
     av_SizeBytes = 12, av_Width = 640, av_Height = 480, av_S3Key = run_key, av_ThumbnailS3Keys = Some [],
     av_UploadStatus = ''stored'', av_ProcessingStatus = ''pending'', av_CreatedAt = 1000000000,
     av_UpdatedAt = 1000000000, av_DeletedAt = None\<rparr>"

definition run_row :: avatar_row where
  "run_row = \<lparr>c_id = 1, c_user_id = ''alice'', c_file_name = ''me.png'', c_mime_type = ''image/png'',
     c_size_bytes = 12, c_width = 640, c_height = 480, c_s3_key = run_key, c_thumbnail_s3_keys = Some (JObj []),
     c_upload_status = ''stored'', c_processing_status = ''pending'', c_created_at = 1000000000,
     c_updated_at = 1000000000, c_deleted_at = None\<rparr>"

definition run_event :: AvatarUploadEvent where
  "run_event = \<lparr>ue_EventID = ''upload:'' @ uuid_format 1, ue_AvatarID = uuid_format 1,
     ue_UserID = ''alice'', ue_S3Key = run_key\<rparr>"

definition run_outbox :: "time option \<Rightarrow> outbox_row" where
  "run_outbox p = \<lparr>o_id = 1, o_event_id = ''upload:'' @ uuid_format 1, o_kind = ''upload'',
     o_payload = marshal_upload run_event, o_published_at = p\<rparr>"

definition sys1 :: "sim sys" where
  "sys1 = \<lparr>tables = \<lparr>t_avatars = [run_row], t_outbox = [run_outbox None], outbox_seq = 1\<rparr>,
     outside = sim_start\<lparr>sim_ids := 2,
        sim_objects := (sim_objects sim_start)(DefaultS3Bucket := [run_key \<mapsto> (''image/png'', a_png)])\<rparr>,
     metrics = [UploadsTotal ''ok'', UploadDuration ''ok'', StorageUsage_Add 12]\<rparr>"

lemma run_Upload: "Upload sim_packages sim_service ''alice'' ''me.png'' a_png sys_start = (Inr run_avatar, sys1)"
  by (simp add: run sim_packages_def sim_service_def run_avatar_def sys1_def run_row_def run_outbox_def run_event_def run_key_def
      marshal_upload_def del: runes.simps)

definition run_message :: message where
  "run_message = \<lparr>m_Topic = ''avatar.uploaded'', m_Partition = 0, m_Offset = 0, m_Key = uuid_format 1,
     m_Value = Some (marshal_upload run_event), m_Time = 1000000000,
     m_Headers = [(''event_id'', ''upload:'' @ uuid_format 1), (''traceparent'', ''00-0'')]\<rparr>"

definition sys2 :: "sim sys" where
  "sys2 = sys1\<lparr>tables := (tables sys1)\<lparr>t_outbox := [run_outbox (Some 1000000000)]\<rparr>,
     outside := (outside sys1)\<lparr>sim_logs := (sim_logs (outside sys1))(''avatar.uploaded'' := [run_message])\<rparr>,
     metrics := metrics sys1 @ [OutboxUnpublished_Set 1, KafkaMessages ''publish'' ''avatar.uploaded'' ''ok'']\<rparr>"

lemma key_ascii [run]: "to_valid_utf8 run_key = run_key" "ascii run_key" "CHR 0x00 \<notin> set run_key" "length run_key = 56"
   "run_key \<noteq> []"
  by (simp_all add: run_key_def)

lemma event_read [run]: "unmarshal_upload (Some (marshal_upload run_event)) = Inr run_event"
  by (simp add: unmarshal_marshal_upload run_event_def run_key_def)

lemma headers [run]: "InjectKafka [(''traceparent'', ''00-0'')] [(''event_id'', x)] = [(''event_id'', x), (''traceparent'', ''00-0'')]"
  by (simp add: InjectKafka_def EqualFold_def runes_ascii fold_rune_def del: runes.simps)

lemmas run_flush_defs [run] = FlushOutbox_def repo_ListUnpublished_def select_unpublished_def fetch_all_def flush_item_def
  publishWithRetry_def eval_nat_numeral publishKind_def repo_MarkOutboxPublished_def update_published_def
  row_event_def Producer_publisher_def Producer_PublishUpload_def NewProducer_def writeJSON_def event_headers_def
  sim_kafka_client_def

lemma event_sel [run]: "ue_EventID run_event = ''upload:'' @ uuid_format 1" "ue_AvatarID run_event = uuid_format 1"
  "ue_S3Key run_event = run_key"
  by (simp_all add: run_event_def)

lemma run_Flush: "FlushOutbox sim_packages sim_service sys1 = (None, sys2)"
  by (simp add: run sim_packages_def sim_service_def sys1_def sys2_def run_outbox_def run_message_def del: runes.simps)

lemmas run_process_defs [run] = ProcessUpload_def processUpload_def repo_GetByID_def select_by_id_def first_row_def scanAvatar_def
  run_row_def row_avatar_def uuid_scan_format repo_MarkProcessing_def update_mark_processing_def
  S3_Download_def sim_get_def thumb_specs_def repo_CompleteProcessing_def update_complete_def
  ParseThumbnailKeys_def unmarshal_strmap_def ThumbnailObjectKey_def size_defs ExtForMIME_def

lemma thumb_png [run]: "MakeThumbnail sim_codecs a_png w h (FormatFromMIME ''image/png'') = Inr (take 12 a_png, ''image/png'')"
proof -
  have "TrimSpace (ToLower ''png'') = ''png''" by (rule canonical_fixed) (simp add: canonical_eval)
  then show ?thesis
    by (simp add: MakeThumbnail_def Decode_def sim_codecs_def FormatFromMIME_def mime_defs checkPixels_def
        wrap64_def MaxPixels_def Encode_def Resize_def png_facts)
qed

definition sys3 :: "sim sys" where "sys3 = snd (ProcessUpload sim_packages sim_service run_event sys2)"

lemma run_Process: "ProcessUpload sim_packages sim_service run_event sys2 = (None, sys3)"
proof -
  have "\<exists>t. ProcessUpload sim_packages sim_service run_event sys2 = (None, t)"
    by (simp add: run sim_packages_def sim_service_def sys1_def sys2_def run_outbox_def run_message_def del: runes.simps)
  then show ?thesis by (auto simp: sys3_def)
qed

lemma run_completed:
  "wf_db (tables sys3)" "\<exists>a. db_live (tables sys3) 1 = Some a \<and> av_ProcessingStatus a = ProcessingCompleted"
  by (simp_all add: sys3_def run sim_packages_def sim_service_def sys1_def sys2_def run_outbox_def run_message_def
      wf_db_def db_live_def lookup_row_def live_row_def del: runes.simps)

definition sys4 :: "sim sys" where "sys4 = snd (Delete sim_packages sim_service 1 ''alice'' sys1)"

lemmas run_delete_defs [run] = Delete_def delete_def repo_SoftDelete_def update_soft_delete_def deleteOutboxEvent_eq
  delete_event_def DeleteEventID_def OutboxDelete_def object_keys_def marshal_delete_def marshal_strings_def

lemma run_Delete_bob: "\<exists>t. Delete sim_packages sim_service 1 ''bob'' sys1 = (Some ErrForbidden, t)"
  by (simp add: run sim_packages_def sim_service_def sys1_def run_outbox_def del: runes.simps)

lemma run_Delete: "Delete sim_packages sim_service 1 ''alice'' sys1 = (None, sys4)"
proof -
  have "\<exists>t. Delete sim_packages sim_service 1 ''alice'' sys1 = (None, t)"
    by (simp add: run sim_packages_def sim_service_def sys1_def run_outbox_def del: runes.simps)
  then show ?thesis by (auto simp: sys4_def)
qed

definition sys5 :: "sim sys" where
  "sys5 = snd (ProcessDelete sim_packages sim_service (delete_event (app_packages sim_world) run_avatar) sys4)"

lemma run_key_trimmed: "TrimSpace run_key = run_key"
  unfolding run_key_def by (rule TrimSpace_printable_ends) (simp_all add: printable_def)

lemma run_ProcessDelete:
  "ProcessDelete sim_packages sim_service (delete_event (app_packages sim_world) run_avatar) sys4 = (None, sys5)"
proof -
  have "sim_s3 (outside sys4) = []"
    by (simp add: sys4_def run sim_packages_def sim_service_def sys1_def run_outbox_def del: runes.simps)
  then have "\<exists>t. ProcessDelete sim_packages sim_service (delete_event (app_packages sim_world) run_avatar) sys4 = (None, t)"
    by (simp add: ProcessDelete_def sim_packages_def sim_service_def app_service_def NewAvatarService_def S3_store_def
        S3_Delete_def remove_one_def delete_event_def object_keys_def run_avatar_def run_key_trimmed run_world key_ascii)
  then show ?thesis by (auto simp: sys5_def)
qed

definition run_payload :: ImagePayload where
  "run_payload = \<lparr>ip_Data = a_png, ip_ContentType = ''image/png'',
     ip_ETag = etag (app_packages sim_world) run_avatar ''original'' [] a_png\<rparr>"

definition sys6 :: "sim sys" where "sys6 = snd (FetchImage sim_packages sim_service run_avatar [] [] sys1)"

lemma run_Fetch: "FetchImage sim_packages sim_service run_avatar [] [] sys1 = (Inr run_payload, sys6)"
proof -
  have "NormalizeSize [] = Inr ''original''" "NormalizeFormat [] = Inr []"
    by (simp_all add: NormalizeSize_def NormalizeFormat_def Let_def ToLower_def size_defs utf8_def)
  then have "\<exists>t. FetchImage sim_packages sim_service run_avatar [] [] sys1 = (Inr run_payload, t)"
    by (simp add: FetchImage_def run sim_packages_def sim_service_def run_payload_def run_avatar_def sys1_def
        FormatFromMIME_def del: runes.simps)
  then show ?thesis by (auto simp: sys6_def)
qed

lemma wf_runs: "wf_db (tables sys_start)" "wf_db (tables sys1)" "wf_db (tables sys2)"
  by (simp_all add: wf_db_def sys_start_def empty_db_def sys1_def sys2_def run_row_def run_outbox_def)

lemma EventIDFrom_published_witness:
  "EventIDFrom \<lparr>m_Topic = ''t'', m_Partition = 0, m_Offset = 7, m_Key = ''k'', m_Value = Some JNull, m_Time = 5,
     m_Headers = event_headers sim_kafka_client sim_start ''upload:1''\<rparr> ''body'' = (if ''upload:1'' = [] then ''body'' else ''upload:1'')"
  by (rule EventIDFrom_published)
    (simp add: sim_kafka_client_def EqualFold_def runes_ascii fold_rune_def del: runes.simps)

end
