(* ===== verification/Repository_Properties.thy ===== *)
theory Repository_Properties
  imports Sim_Runs
begin

text \<open>
  What the repository promises: the refinement of the abstract store, the atomicity of its two
  transactions, the lease behind \<open>MarkProcessing\<close>, the agreement of the query for stuck uploads
  with it, and the order of the listings.
\<close>

section \<open>Refinement\<close>

text \<open>
  C7. The PostgreSQL repository refines the abstract store: through the view of its tables (ids ever
  used, live avatars, outbox events, unpublished entries in order) every operation has the effect
  the interface promises, on success and on every error, for every behaviour of the driver that
  leaves the rest of the outside alone.
\<close>

theorem repository_refines:
  assumes "keeps rest (pg_reply D)"
  shows "avatar_store (AvatarRepository D) (\<lambda>s. wf_db (tables s)) (\<lambda>s. db_used (tables s))
    (\<lambda>s. db_live (tables s)) (\<lambda>s. db_events (tables s)) (\<lambda>s. db_unpub (tables s))
    (\<lambda>s. (metrics s, rest (outside s)))"
  using assms by (rule postgres.store [OF postgres.intro])

theorem repository_refines_witness:
  "avatar_store (AvatarRepository sim_driver) (\<lambda>s. wf_db (tables s)) (\<lambda>s. db_used (tables s))
    (\<lambda>s. db_live (tables s)) (\<lambda>s. db_events (tables s)) (\<lambda>s. db_unpub (tables s))
    (\<lambda>s. (metrics s, sim_objects (outside s)))"
  by (rule repository_refines) (rule keepsI, simp add: sim_driver_def split: prod.split)

section \<open>The tables\<close>

text \<open>
  C16. Whatever the driver does (refused calls, lost replies, failed commits), any sequence of
  repository calls keeps the tables well-formed (unique avatar ids and event ids, outbox ids
  increasing and covered by the sequence), keeps every avatar row (deletion is soft) and never
  turns the sequence back.
\<close>

theorem repository_keeps_tables:
  assumes "(store_step (AvatarRepository D))\<^sup>*\<^sup>* s t" "wf_db (tables s)"
  shows "wf_db (tables t) \<and> db_used (tables s) \<subseteq> db_used (tables t) \<and> outbox_seq (tables s) \<le> outbox_seq (tables t)"
  using assms
proof (induction rule: rtranclp_induct)
  case (step t u)
  then show ?case using grows_repo_step [OF step.hyps(2)] by (auto simp: grows_def)
qed simp

theorem repository_keeps_tables_witness:
  "wf_db (tables sys1) \<and> db_used (tables sys1) \<subseteq> db_used (tables (snd (repo_MarkProcessing sim_driver 1 sys1)))"
proof -
  have "store_step (AvatarRepository sim_driver) sys1 (snd (repo_MarkProcessing sim_driver 1 sys1))"
    by (rule step_mark [of _ 1 _ "fst (repo_MarkProcessing sim_driver 1 sys1)"]) (simp add: AvatarRepository_sel)
  then show ?thesis using repository_keeps_tables [OF r_into_rtranclp wf_runs(2)] wf_runs(2) by blast
qed

section \<open>Transactions\<close>

text \<open>
  C15. Creating an avatar is atomic: when the call returns an id, the avatar's row and its outbox entry
  are both there; when it fails, either neither is, or (a commit whose reply was lost) both are.
  The row is never there without the event, nor the event without the row.
\<close>

theorem create_is_atomic:
  assumes "wf_db (tables s)" "short_event ev" "repo_CreateWithOutbox D a ev s = (r, t)"
  shows "(\<exists>e. r = Inl e) \<and> t_avatars (tables t) = t_avatars (tables s) \<and> t_outbox (tables t) = t_outbox (tables s)
    \<or> av_ID a \<notin> db_used (tables s) \<and> db_live (tables t) (av_ID a) \<noteq> None
      \<and> (\<exists>p. oe_Payload ev = Some p \<and> db_events (tables t) (oe_EventID ev) = Some (oe_Kind ev, p))"
  using assms(3) unfolding repo_CreateWithOutbox_def
proof (cases rule: withTx_cases)
  case (committed e now x s2 e')
  have "fst (repo_CreateWithOutbox D a ev s) = r" using assms(3) by simp
  obtain s3 where c1: "call D (\<lambda>_. insert_avatar a now) (s\<lparr>outside := e\<rparr>) = (Inr (), s3)"
    and c2: "insertOutbox D now ev s3 = (Inr x, s2)"
    using committed(2) by (auto split: prod.splits sum.splits)
  have i: "insert_avatar a now (tables s) = (Inr (), tables s3)" using c1 by (auto elim: call_Inr)
  have "call D (\<lambda>_. insert_outbox ev now) s3 = (Inr x, s2)"
    using c2 by (auto simp: insertOutbox_def split: prod.splits sum.splits)
  then have o: "insert_outbox ev now (tables s3) = (Inr x, tables s2)" by (auto elim: call_Inr)
  note q = enqueued_insert_outbox [OF o assms(2)]
  from i show ?thesis
  proof (cases rule: insert_avatar_cases)
    case (new row)
    have "db_live (tables s3) (av_ID a) \<noteq> None"
      using db_live_append [of row "tables s"] new by simp
    then show ?thesis using q new(3) committed(3) by (auto simp: enqueued_def db_used_def)
  qed simp
qed (simp_all add: rollback_def)

theorem create_is_atomic_witness:
  "\<exists>n t. repo_CreateWithOutbox sim_driver run_avatar
        \<lparr>oe_ID = 0, oe_EventID = ''upload:1'', oe_Kind = ''upload'', oe_Payload = Some JNull\<rparr> sys_start = (Inr n, t)
     \<and> db_live (tables t) 1 \<noteq> None \<and> db_events (tables t) ''upload:1'' = Some (''upload'', JNull)"
proof -
  let ?ev = "\<lparr>oe_ID = 0, oe_EventID = ''upload:1'', oe_Kind = ''upload'', oe_Payload = Some JNull\<rparr>"
  obtain n t where c: "repo_CreateWithOutbox sim_driver run_avatar ?ev sys_start = (Inr n, t)"
    by (simp add: run run_avatar_def)
  have "short_event ?ev" by (simp add: short_event_def)
  from create_is_atomic [OF wf_runs(1) this c] c show ?thesis by (simp add: run_avatar_def)
qed

section \<open>The lease on an avatar\<close>

text \<open>
  C29. \<open>MarkProcessing\<close> is a lease of two minutes: after one worker got an avatar at time \<open>t\<close>, a second
  call at time \<open>t'\<close> gets it if and only if more than two minutes have passed.
\<close>

theorem mark_is_a_lease:
  assumes "wf_db d" "fst (update_mark_processing i t d) = Inr i"
  shows "fst (update_mark_processing i t' (snd (update_mark_processing i t d))) = Inr i \<longleftrightarrow> t + two_minutes < t'"
proof -
  obtain r where r: "lookup_row d i = Some r" "takeable t r"
    using assms(2) by (auto simp: mark_result [OF assms(1)] split: option.splits if_splits)
  have "grows d (snd (update_mark_processing i t d))" by (rule grows_statements)
  then have w: "wf_db (snd (update_mark_processing i t d))" using assms(1) by (simp add: grows_def)
  show ?thesis using r by (auto simp: mark_result [OF w] mark_lookup [OF assms(1)] takeable_def)
qed

theorem mark_is_a_lease_witness:
  "fst (update_mark_processing 1 1200000000 (snd (update_mark_processing 1 1000000000 (tables sys1)))) = Inr 1
     \<longleftrightarrow> (1000000000 :: int) + two_minutes < 1200000000"
  by (rule mark_is_a_lease [OF wf_runs(2)])
    (simp add: update_mark_processing_def sys1_def run_row_def status_defs first_row_def)

text \<open>
  C30. Recovery looks for exactly the avatars a worker could get: every avatar in the list of stuck
  uploads can be taken at that time, and one that could be taken is left out only when the list
  is full and holds none that was created later.
\<close>

theorem stuck_are_takeable:
  assumes "wf_db d" "fst (select_stuck n t d) = Inr rows"
  shows "(\<forall>r \<in> set rows. fst (update_mark_processing (c_id r) t d) = Inr (c_id r))
    \<and> (\<forall>r \<in> set (t_avatars d). c_deleted_at r = None \<longrightarrow> fst (update_mark_processing (c_id r) t d) = Inr (c_id r) \<longrightarrow>
         r \<in> set rows \<or> length rows = nat n \<and> (\<forall>x \<in> set rows. c_created_at x \<le> c_created_at r))"
proof (intro conjI ballI impI)
  let ?all = "filter (\<lambda>r. c_deleted_at r = None \<and> takeable t r) (t_avatars d)"
  have rows: "rows = take (nat n) (sort_key c_created_at ?all)" using assms(2) by (simp add: stuck_rows)
  have res: "fst (update_mark_processing (c_id r) t d) = Inr (c_id r) \<longleftrightarrow> takeable t r"
    if "r \<in> set (t_avatars d)" "c_deleted_at r = None" for r
    using lookup_row_live [OF assms(1) that] by (simp add: mark_result [OF assms(1)])
  fix r
  show "fst (update_mark_processing (c_id r) t d) = Inr (c_id r)" if "r \<in> set rows"
    using that res [of r] by (auto simp: rows dest: in_set_takeD)
  assume r: "r \<in> set (t_avatars d)" "c_deleted_at r = None" "fst (update_mark_processing (c_id r) t d) = Inr (c_id r)"
  then have "r \<in> set (sort_key c_created_at ?all)" using res by simp
  then consider "r \<in> set rows" | "r \<in> set (drop (nat n) (sort_key c_created_at ?all))"
    unfolding rows by (metis Un_iff append_take_drop_id set_append)
  then show "r \<in> set rows \<or> length rows = nat n \<and> (\<forall>x \<in> set rows. c_created_at x \<le> c_created_at r)"
  proof cases
    case 2
    then have "nat n < length (sort_key c_created_at ?all)" by (metis drop_all emptyE list.set(1) not_less)
    then show ?thesis using take_sort_key_le [OF _ 2] by (auto simp: rows)
  qed blast
qed

theorem stuck_are_takeable_witness:
  "fst (select_stuck 20 1000000000 (tables sys1)) = Inr [run_row]
   \<and> fst (update_mark_processing 1 1000000000 (tables sys1)) = Inr 1"
proof -
  have s: "fst (select_stuck 20 1000000000 (tables sys1)) = Inr [run_row]"
    by (simp add: select_stuck_def sys1_def run_row_def status_defs)
  then show ?thesis using stuck_are_takeable [OF wf_runs(2) s] by (simp add: run_row_def)
qed

section \<open>Listings\<close>

text \<open>
  The listing of a user holds exactly the rows of that user that are not deleted, newest first,
  and the latest avatar is the first of it.
\<close>

lemma latest_heads_the_list:
  "set (user_rows u d) = {r \<in> set (t_avatars d). c_user_id r = u \<and> c_deleted_at r = None}
   \<and> sorted_wrt (\<lambda>a b. c_created_at b \<le> c_created_at a) (user_rows u d)
   \<and> fst (select_by_user u t d) = Inr (user_rows u d)
   \<and> fst (select_latest u t d) = (case user_rows u d of [] \<Rightarrow> Inl ErrNoRows | r # _ \<Rightarrow> Inr r)"
proof -
  have "sorted (map (\<lambda>r. - c_created_at r) (user_rows u d))" by (simp add: user_rows_def)
  then have "sorted_wrt (\<lambda>a b. c_created_at b \<le> c_created_at a) (user_rows u d)" by (simp add: sorted_map)
  moreover have "first_row (take 1 xs) = (case xs of [] \<Rightarrow> Inl ErrNoRows | r # _ \<Rightarrow> Inr r)" for xs :: "avatar_row list"
    by (cases xs) (simp_all add: first_row_def)
  ultimately show ?thesis by (simp add: set_user_rows select_by_user_def select_latest_def flip: user_rows_def)
qed

text \<open>
  C39. The listing of a user is complete and in order, and agrees with the user's current avatar: it holds every
  live avatar of the user once and no other, newest first; the query for the latest avatar finds one exactly
  when the listing is not empty, and then it is in the listing and none there is newer.  A failure of the database
  is never taken for a user without avatars.  Neither query changes the tables.
\<close>

theorem listing_and_latest:
  assumes "wf_db (tables s)" "repo_ListByUserID D u s = (Inr avs, s1)" "repo_GetLatestByUserID D u s1 = (r, s2)"
  shows "tables s1 = tables s \<and> tables s2 = tables s
    \<and> distinct (map av_ID avs) \<and> set avs = {a \<in> ran (db_live (tables s)). av_UserID a = u}
    \<and> sorted_wrt (\<lambda>a b. av_CreatedAt b \<le> av_CreatedAt a) avs
    \<and> (case r of
         Inr a \<Rightarrow> a \<in> set avs \<and> (\<forall>b \<in> set avs. av_CreatedAt b \<le> av_CreatedAt a)
       | Inl err \<Rightarrow> (errors_Is err ErrAvatarNotFound \<and> avs = []) \<or> (\<exists>m. err = ErrWrap ''scan avatar'' (ErrExternal m)))"
proof -
  let ?rows = "user_rows u (tables s)"
  have list: "tables s1 = tables s" "avs = map row_avatar ?rows" using repo_List_effect [OF assms(2,1)] by simp_all
  have sel: "av_ID (row_avatar x) = c_id x" "av_UserID (row_avatar x) = c_user_id x" "av_CreatedAt (row_avatar x) = c_created_at x" for x
    by (simp_all add: row_avatar_def)
  have "distinct (map c_id ?rows)"
    using assms(1) by (auto simp: user_rows_def wf_db_def distinct_map intro: inj_on_subset)
  then have avs: "distinct (map av_ID avs)" "set avs = {a \<in> ran (db_live (tables s)). av_UserID a = u}"
    using assms(1) by (auto simp: list(2) comp_def sel set_user_rows ran_db_live)
  have order: "sorted_wrt (\<lambda>a b. av_CreatedAt b \<le> av_CreatedAt a) avs"
    using latest_heads_the_list by (simp add: list(2) sorted_wrt_map sel)
  obtain row where c: "call D (select_latest u) s1 = (row, s2)" "r = scanAvatar row"
    using assms(3) by (auto simp: repo_GetLatestByUserID_def split: prod.splits)
  have latest: "fst (select_latest u now (tables s)) = (case ?rows of [] \<Rightarrow> Inl ErrNoRows | r # _ \<Rightarrow> Inr r)" for now
    using latest_heads_the_list by blast
  have "tables s2 = tables s"
    using repo_GetLatest_effect [OF assms(3)] assms(1) list(1) by simp
  moreover have "case r of
         Inr a \<Rightarrow> a \<in> set avs \<and> (\<forall>b \<in> set avs. av_CreatedAt b \<le> av_CreatedAt a)
       | Inl err \<Rightarrow> (errors_Is err ErrAvatarNotFound \<and> avs = []) \<or> (\<exists>m. err = ErrWrap ''scan avatar'' (ErrExternal m))"
    using c(1) order unfolding c(2) list(2)
    by (cases rule: call_cases) (auto simp: list(1) latest scanAvatar_def split: list.splits)
  ultimately show ?thesis using list(1) avs order by blast
qed

theorem listing_and_latest_witness:
  "\<exists>a. repo_ListByUserID sim_driver ''alice'' sys1 = (Inr [a], sys1) \<and> a \<in> ran (db_live (tables sys1)) \<and> av_UserID a = ''alice''
    \<and> repo_GetLatestByUserID sim_driver ''alice'' sys1 = (Inr a, sys1)"
proof -
  let ?a = "row_avatar run_row"
  have l: "repo_ListByUserID sim_driver ''alice'' sys1 = (Inr [?a], sys1)"
    "repo_GetLatestByUserID sim_driver ''alice'' sys1 = (Inr ?a, sys1)"
    by (simp_all add: repo_ListByUserID_def repo_GetLatestByUserID_def select_by_user_def select_latest_def user_rows_def call_def
        fetch_all_def sim_driver_def next_reply_def sys1_def sim_start_def scanAvatar_def first_row_def) (simp_all add: run_row_def)
  have "set [?a] = {a \<in> ran (db_live (tables sys1)). av_UserID a = ''alice''}"
    by (rule listing_and_latest [OF wf_runs(2) l, THEN conjunct2, THEN conjunct2, THEN conjunct2, THEN conjunct1])
  moreover have "?a \<in> set [?a]" by simp
  ultimately have "?a \<in> {a \<in> ran (db_live (tables sys1)). av_UserID a = ''alice''}" by (simp only:)
  then show ?thesis using l by (intro exI [of _ ?a]) simp
qed

text \<open>
  The outbox is read in the order of its ids, at most \<open>limit\<close> entries at a time, and marking an
  entry as published takes exactly that entry off the list.
\<close>

lemma outbox_is_a_queue:
  assumes "wf_db d" "0 < n"
  shows "map_sum id (map row_event) (fst (select_unpublished n t d)) = Inr (take (nat n) (db_unpub d))
    \<and> db_unpub (snd (update_published k t d)) = filter (\<lambda>e. oe_ID e \<noteq> k) (db_unpub d)
    \<and> sorted_wrt (<) (map oe_ID (db_unpub d))"
proof -
  let ?u = "filter (\<lambda>r. o_published_at r = None) (t_outbox d)"
  have s: "sorted_wrt (<) (map o_id ?u)" using assms(1) by (simp add: wf_db_def sorted_wrt_map sorted_wrt_filter)
  then have "sort_key o_id ?u = ?u" by (intro sort_key_id_if_sorted) (rule strict_sorted_imp_sorted)
  moreover have "filter (\<lambda>r. o_published_at r = None) (update_where (\<lambda>r. o_id r = k) (\<lambda>r. r\<lparr>o_published_at := Some t\<rparr>) rows)
      = filter (\<lambda>r. o_id r \<noteq> k) (filter (\<lambda>r. o_published_at r = None) rows)" for rows :: "outbox_row list"
    by (induction rows) auto
  moreover have "map oe_ID (db_unpub d) = map o_id ?u" by (simp add: db_unpub_def row_event_def)
  ultimately show ?thesis using s
    by (simp add: select_unpublished_def update_published_def Let_def db_unpub_def take_map filter_map comp_def row_event_def)
qed

lemma outbox_is_a_queue_witness:
  "map_sum id (map row_event) (fst (select_unpublished 50 0 (tables sys1))) = Inr (db_unpub (tables sys1))
   \<and> length (db_unpub (tables sys1)) = 1"
proof -
  have "length (db_unpub (tables sys1)) = 1" by (simp add: db_unpub_def sys1_def run_outbox_def)
  then show ?thesis using outbox_is_a_queue [OF wf_runs(2), of 50 0 0] by simp
qed

end
