(* ===== verification/Service_Properties.thy ===== *)
theory Service_Properties
  imports Sim_Runs
begin

text \<open>
  What the methods of the avatar service do in the program as it is put together: over the
  PostgreSQL repository, the S3 store and the Kafka producer, for every outside world that keeps
  the promises of \<open>outside_world\<close> (calls may fail at any point, and replies may be lost).  The views
  of the state: \<open>bucket\<close> is the content of the configured bucket, \<open>upload_topic\<close> and \<open>delete_topic\<close>
  are the messages of the two topics.
\<close>

abbreviation bucket where "bucket objects cfg s \<equiv> objects (outside s) (S3Bucket cfg)"
abbreviation upload_topic where "upload_topic logs cfg s \<equiv> map m_Value (logs (outside s) (TopicUpload cfg))"
abbreviation delete_topic where "delete_topic logs cfg s \<equiv> map m_Value (logs (outside s) (TopicDelete cfg))"

section \<open>Upload\<close>

text \<open>
  The checks of an upload come in their order (user id, missing data, size, image), each with its
  error, and a rejected upload changes nothing: neither the tables nor the outside, only the
  metrics are counted.
\<close>

lemma Upload_rejects:
  assumes "ValidateUserID u \<noteq> None \<or> data = [] \<or> svc_maxBytes svc < int (length data) \<or> Inspect (codecs P) data = Inl e"
  shows "Upload P svc u name data s =
    (Inl (if ValidateUserID u \<noteq> None then ErrInvalidUserID else if data = [] then ErrFileRequired
          else if svc_maxBytes svc < int (length data) then ErrFileTooLarge else e),
     observe P (UploadDuration ''error'') (observe P (UploadsTotal ''error'') s))"
  using assms ValidateUserID_error
  by (auto simp: Upload_def upload_def err_of_simps StatusOK_def Let_def split: option.splits)

lemma Upload_rejects_witness:
  "Upload sim_packages sim_service ''alice'' ''me.png'' [] sys_start =
    (Inl (if ValidateUserID ''alice'' \<noteq> None then ErrInvalidUserID else if ([] :: string) = [] then ErrFileRequired
          else if svc_maxBytes sim_service < int (length ([] :: string)) then ErrFileTooLarge else ErrInvalidImage),
     observe sim_packages (UploadDuration ''error'') (observe sim_packages (UploadsTotal ''error'') sys_start))"
  by (rule Upload_rejects) simp

text \<open>
  C14. A successful upload: the id is a fresh one, the avatar with the user's id, the detected type and
  the size of the data is live under it and pending, the data is stored under the avatar's key,
  and the upload event is recorded in the outbox, from which it has not been published.
\<close>

theorem Upload_stores:
  assumes "outside_world W cfg objects logs" "wf_db (tables s)"
    and "Upload (app_packages W) (app_service W cfg) u name data s = (Inr a, t)"
  shows "\<exists>info a'. Inspect (w_codecs W) data = Inr info \<and> av_UserID a = u
    \<and> av_MimeType a = info_MIME info \<and> av_SizeBytes a = int (length data)
    \<and> av_ID a \<notin> db_used (tables s) \<and> same_core a a' \<and> av_ProcessingStatus a' = ProcessingPending
    \<and> db_live (tables t) = (db_live (tables s))(av_ID a \<mapsto> a')
    \<and> bucket objects cfg t = (bucket objects cfg s)(av_S3Key a \<mapsto> (info_MIME info, data))
    \<and> db_events (tables t) = (db_events (tables s))
        (UploadEventID (w_uuid_String W (av_ID a)) \<mapsto> (OutboxUpload, marshal_upload (recover_event (app_packages W) a)))
    \<and> upload_topic logs cfg t = upload_topic logs cfg s"
  using avatar_backend.Upload_success [OF outside_world.backend [OF assms(1)] assms(3,2)]
  by (simp add: app_packages_def)

theorem Upload_stores_witness:
  "\<exists>info a'. Inspect (w_codecs sim_world) a_png = Inr info \<and> av_UserID run_avatar = ''alice''
    \<and> av_MimeType run_avatar = info_MIME info \<and> av_SizeBytes run_avatar = int (length a_png)
    \<and> av_ID run_avatar \<notin> db_used (tables sys_start) \<and> same_core run_avatar a' \<and> av_ProcessingStatus a' = ProcessingPending
    \<and> db_live (tables sys1) = (db_live (tables sys_start))(av_ID run_avatar \<mapsto> a')
    \<and> bucket sim_objects sim_config sys1 = (bucket sim_objects sim_config sys_start)(av_S3Key run_avatar \<mapsto> (info_MIME info, a_png))
    \<and> db_events (tables sys1) = (db_events (tables sys_start))
        (UploadEventID (w_uuid_String sim_world (av_ID run_avatar)) \<mapsto> (OutboxUpload, marshal_upload (recover_event (app_packages sim_world) run_avatar)))
    \<and> upload_topic sim_logs sim_config sys1 = upload_topic sim_logs sim_config sys_start"
  by (rule Upload_stores [OF sim.outside_world_axioms wf_runs(1) run_Upload [unfolded sim_packages_def sim_service_def]])

text \<open>
  C13. An upload is all or nothing for the database: whatever its result, either avatars and events are
  as before, or exactly one fresh avatar and exactly its upload event, for that avatar and that user,
  have been added.  (The second case with an error is a commit whose reply was lost.)  The topics are
  not touched, and of the objects at most the one of this upload, whose key is the user's own.
\<close>

theorem Upload_all_or_nothing:
  assumes "outside_world W cfg objects logs" "wf_db (tables s)"
    and "Upload (app_packages W) (app_service W cfg) u name data s = (r, t)"
  shows "wf_db (tables t) \<and> upload_topic logs cfg t = upload_topic logs cfg s
    \<and> delete_topic logs cfg t = delete_topic logs cfg s
    \<and> (\<exists>j x. \<forall>k. k \<noteq> OriginalObjectKey u (w_uuid_String W j) x \<longrightarrow> bucket objects cfg t k = bucket objects cfg s k)
    \<and> ((\<exists>err. r = Inl err) \<and> db_live (tables t) = db_live (tables s) \<and> db_events (tables t) = db_events (tables s)
         \<and> db_unpub (tables t) = db_unpub (tables s)
       \<or> (\<exists>i a' e. i \<notin> db_used (tables s) \<and> av_ID a' = i \<and> (length u \<le> 255 \<longrightarrow> av_UserID a' = u)
            \<and> db_live (tables t) = (db_live (tables s))(i \<mapsto> a')
            \<and> db_events (tables t) = (db_events (tables s))(UploadEventID (w_uuid_String W i) \<mapsto> (OutboxUpload, marshal_upload e))
            \<and> ue_AvatarID e = w_uuid_String W i \<and> ue_UserID e = u \<and> (\<forall>a. r = Inr a \<longrightarrow> av_ID a = i)))"
proof -
  obtain r1 s1 where up: "upload (app_packages W) (app_service W cfg) u name data s = (r1, s1)" by fastforce
  then have t: "tables t = tables s1" "outside t = outside s1" and r: "r = r1"
    using assms(3) by (auto simp: Upload_def Let_def app_packages_def observe_sys_def split: sum.splits)
  note b = outside_world.backend [OF assms(1)]
  note blobs = avatar_backend.upload_blobs [OF b up, unfolded upload_key_def]
  show ?thesis
  proof (cases rule: avatar_backend.upload_effect [OF b up assms(2), case_names unchanged committed])
    case (unchanged err)
    then show ?thesis using blobs r by (simp add: t app_packages_def)
  next
    case (committed info a a')
    have "\<exists>i a' e. i \<notin> db_used (tables s) \<and> av_ID a' = i \<and> (length u \<le> 255 \<longrightarrow> av_UserID a' = u)
            \<and> db_live (tables t) = (db_live (tables s))(i \<mapsto> a')
            \<and> db_events (tables t) = (db_events (tables s))(UploadEventID (w_uuid_String W i) \<mapsto> (OutboxUpload, marshal_upload e))
            \<and> ue_AvatarID e = w_uuid_String W i \<and> ue_UserID e = u \<and> (\<forall>a. r = Inr a \<longrightarrow> av_ID a = i)"
      using committed(5,10,13,15,17,18,23)
      by (intro exI [of _ "av_ID a"] exI [of _ a'] exI [of _ "recover_event (app_packages W) a"])
        (auto simp: t r same_core_def recover_event_def app_packages_def)
    then show ?thesis using blobs committed(20-22) by (simp add: t app_packages_def)
  qed
qed

theorem Upload_all_or_nothing_witness:
  "wf_db (tables sys1) \<and> upload_topic sim_logs sim_config sys1 = upload_topic sim_logs sim_config sys_start
    \<and> delete_topic sim_logs sim_config sys1 = delete_topic sim_logs sim_config sys_start
    \<and> (\<exists>j x. \<forall>k. k \<noteq> OriginalObjectKey ''alice'' (w_uuid_String sim_world j) x \<longrightarrow>
          bucket sim_objects sim_config sys1 k = bucket sim_objects sim_config sys_start k)"
  using Upload_all_or_nothing [OF sim.outside_world_axioms wf_runs(1) run_Upload [unfolded sim_packages_def sim_service_def]]
  by blast

text \<open>
  C40. The name an upload is stored under is never empty, has at most 255 bytes and no separator of
  either kind, with one exception: a name made of slashes only is kept as a single slash.
\<close>

theorem sanitizeFileName_safe:
  assumes "length ext \<le> 249" "CHR ''/'' \<notin> set ext" "CHR 0x5C \<notin> set ext"
  shows "sanitizeFileName name ext \<noteq> [] \<and> length (sanitizeFileName name ext) \<le> 255
    \<and> CHR 0x5C \<notin> set (sanitizeFileName name ext)
    \<and> (CHR ''/'' \<in> set (sanitizeFileName name ext) \<longrightarrow> sanitizeFileName name ext = ''/'')"
proof -
  let ?n = "ReplaceByte (Base (TrimSpace name)) (CHR 0x5C) (CHR ''_'')"
  have n: "?n \<noteq> []" "CHR 0x5C \<notin> set ?n" by (auto simp: ReplaceByte_def)
  have slash: "?n = ''/''" if "CHR ''/'' \<in> set ?n"
  proof -
    have "CHR ''/'' \<in> set (Base (TrimSpace name))" using that by (auto simp: ReplaceByte_def split: if_splits)
    then show ?thesis using Base_no_slash [of "TrimSpace name"] by (simp add: ReplaceByte_def)
  qed
  have "take 255 ?n \<noteq> []" "CHR 0x5C \<notin> set (take 255 ?n)" using n by (auto dest: in_set_takeD)
  moreover have "CHR ''/'' \<in> set (take 255 ?n) \<longrightarrow> length ?n \<le> 255" using slash in_set_takeD by fastforce
  ultimately show ?thesis
    using n slash assms by (auto simp: sanitizeFileName_def Let_def dest: in_set_takeD)
qed

theorem sanitizeFileName_safe_witness:
  "sanitizeFileName ''../me.png'' ''.png'' \<noteq> [] \<and> length (sanitizeFileName ''../me.png'' ''.png'') \<le> 255
    \<and> CHR 0x5C \<notin> set (sanitizeFileName ''../me.png'' ''.png'')"
  using sanitizeFileName_safe [of "''.png''" "''../me.png''"] by simp

section \<open>Deletion\<close>

text \<open>
  C12. Only the owner deletes an avatar.  Whatever its arguments and its result, \<open>Delete\<close> either leaves
  avatars and events as they were (and then returns an error), or it removes exactly the avatar it
  was called for, which belongs to the user who called it, and records exactly the delete event
  that names all objects of that avatar.  It touches neither the objects nor the topics.
\<close>

theorem Delete_only_own:
  assumes "outside_world W cfg objects logs" "wf_db (tables s)"
    and "Delete (app_packages W) (app_service W cfg) i u s = (r, t)"
  shows "wf_db (tables t) \<and> bucket objects cfg t = bucket objects cfg s
    \<and> upload_topic logs cfg t = upload_topic logs cfg s \<and> delete_topic logs cfg t = delete_topic logs cfg s
    \<and> ((\<exists>err. r = Some err) \<and> db_live (tables t) = db_live (tables s) \<and> db_events (tables t) = db_events (tables s)
         \<and> db_unpub (tables t) = db_unpub (tables s)
       \<or> (\<exists>a. db_live (tables s) i = Some a \<and> av_ID a = i \<and> av_UserID a = u
            \<and> db_live (tables t) = (db_live (tables s))(i := None)
            \<and> db_events (tables t) = (db_events (tables s))(DeleteEventID (w_uuid_String W i) \<mapsto>
                (OutboxDelete, marshal_delete (delete_event (app_packages W) a)))))"
proof -
  obtain r1 s1 where d: "delete (app_packages W) (app_service W cfg) i u s = (r1, s1)" by fastforce
  then have t: "tables t = tables s1" "outside t = outside s1" "r = r1"
    using assms(3) by (auto simp: Delete_def app_packages_def observe_sys_def)
  show ?thesis
  proof (cases rule: avatar_backend.delete_effect [OF outside_world.backend [OF assms(1)] d assms(2),
        case_names unchanged deleted])
    case (unchanged err)
    then show ?thesis by (simp add: t)
  next
    case (deleted a)
    then show ?thesis by (simp add: t app_packages_def)
  qed
qed

theorem Delete_only_own_witness:
  "wf_db (tables sys4) \<and> bucket sim_objects sim_config sys4 = bucket sim_objects sim_config sys1
    \<and> upload_topic sim_logs sim_config sys4 = upload_topic sim_logs sim_config sys1
    \<and> delete_topic sim_logs sim_config sys4 = delete_topic sim_logs sim_config sys1
    \<and> ((\<exists>err. None = Some (err :: goerr)) \<and> db_live (tables sys4) = db_live (tables sys1)
         \<and> db_events (tables sys4) = db_events (tables sys1) \<and> db_unpub (tables sys4) = db_unpub (tables sys1)
       \<or> (\<exists>a. db_live (tables sys1) 1 = Some a \<and> av_ID a = 1 \<and> av_UserID a = ''alice''
            \<and> db_live (tables sys4) = (db_live (tables sys1))(1 := None)
            \<and> db_events (tables sys4) = (db_events (tables sys1))(DeleteEventID (w_uuid_String sim_world 1) \<mapsto>
                (OutboxDelete, marshal_delete (delete_event (app_packages sim_world) a)))))"
  by (rule Delete_only_own [OF sim.outside_world_axioms wf_runs(2) run_Delete [unfolded sim_packages_def sim_service_def]])

text \<open>
  C19. Handling the delete event of an avatar without an error removes the original and every thumbnail
  that was entered in the avatar, and no other object; with an error it removes some of these at
  most.  Keys are taken without surrounding white space, and empty ones are skipped.
\<close>

theorem ProcessDelete_removes:
  assumes "outside_world W cfg objects logs"
    and "ProcessDelete (app_packages W) (app_service W cfg) (delete_event (app_packages W) a) s = (r, t)"
  shows "db_live (tables t) = db_live (tables s) \<and> db_events (tables t) = db_events (tables s)
    \<and> (\<forall>k. bucket objects cfg t k \<noteq> bucket objects cfg s k \<longrightarrow>
         bucket objects cfg t k = None \<and> (\<exists>k' \<in> set (object_keys a). k = TrimSpace k'))
    \<and> (r = None \<longrightarrow> (\<forall>k \<in> set (object_keys a). TrimSpace k \<noteq> [] \<longrightarrow> bucket objects cfg t (TrimSpace k) = None))"
proof -
  obtain r1 s1 where d: "os_Delete (svc_objects (app_service W cfg)) (object_keys a) s = (r1, s1)" by fastforce
  then have t: "tables t = tables s1" "outside t = outside s1" "r = r1"
    using assms(2) by (auto simp: ProcessDelete_def delete_event_def app_packages_def observe_sys_def)
  from avatar_backend.os_delete_frame [OF outside_world.backend [OF assms(1)] d] obtain K where
    "K \<subseteq> real_keys (object_keys a)" "bucket objects cfg s1 = bucket objects cfg s |` (- K)"
    "r1 = None \<longrightarrow> K = real_keys (object_keys a)" "db_live (tables s1) = db_live (tables s)"
    "db_events (tables s1) = db_events (tables s)" by blast
  then show ?thesis unfolding t by (auto simp: real_keys_def restrict_map_def)
qed

theorem ProcessDelete_removes_witness:
  "db_live (tables sys5) = db_live (tables sys4) \<and> bucket sim_objects sim_config sys5 (TrimSpace run_key) = None"
  using ProcessDelete_removes [OF sim.outside_world_axioms run_ProcessDelete [unfolded sim_packages_def sim_service_def]]
  by (simp add: object_keys_def run_avatar_def run_key_trimmed key_ascii)

section \<open>The outbox\<close>

text \<open>
  C6. At-least-once delivery: a flush takes entries off the outbox only from its first fifty, and only
  when their event has been written to its topic; avatars, events and objects stay as they are, and
  nothing is taken off the topics.  A flush without error has published all of the first fifty.
\<close>

theorem Flush_at_least_once:
  assumes "outside_world W cfg objects logs" "wf_db (tables s)"
    and "FlushOutbox (app_packages W) (app_service W cfg) s = (r, t)"
  shows "wf_db (tables t) \<and> db_live (tables t) = db_live (tables s) \<and> db_events (tables t) = db_events (tables s)
    \<and> bucket objects cfg t = bucket objects cfg s
    \<and> prefix (upload_topic logs cfg s) (upload_topic logs cfg t) \<and> prefix (delete_topic logs cfg s) (delete_topic logs cfg t)
    \<and> (\<exists>D \<subseteq> set (take 50 (db_unpub (tables s))). db_unpub (tables t) = filter (\<lambda>e. e \<notin> D) (db_unpub (tables s))
         \<and> (\<forall>e \<in> D. \<exists>p. oe_Payload e = Some p \<and> delivered (upload_topic logs cfg t) (delete_topic logs cfg t) (oe_Kind e) p)
         \<and> (r = None \<longrightarrow> db_unpub (tables t) = drop 50 (db_unpub (tables s))))"
  using avatar_backend.flush_effect [OF outside_world.backend [OF assms(1)] assms(3,2)] by blast

theorem Flush_at_least_once_witness:
  "wf_db (tables sys2) \<and> db_live (tables sys2) = db_live (tables sys1) \<and> db_events (tables sys2) = db_events (tables sys1)
    \<and> bucket sim_objects sim_config sys2 = bucket sim_objects sim_config sys1
    \<and> prefix (upload_topic sim_logs sim_config sys1) (upload_topic sim_logs sim_config sys2)
    \<and> prefix (delete_topic sim_logs sim_config sys1) (delete_topic sim_logs sim_config sys2)
    \<and> (\<exists>D \<subseteq> set (take 50 (db_unpub (tables sys1))). db_unpub (tables sys2) = filter (\<lambda>e. e \<notin> D) (db_unpub (tables sys1))
         \<and> (\<forall>e \<in> D. \<exists>p. oe_Payload e = Some p
              \<and> delivered (upload_topic sim_logs sim_config sys2) (delete_topic sim_logs sim_config sys2) (oe_Kind e) p)
         \<and> (None = (None :: goerr option) \<longrightarrow> db_unpub (tables sys2) = drop 50 (db_unpub (tables sys1))))"
  by (rule Flush_at_least_once [OF sim.outside_world_axioms wf_runs(2) run_Flush [unfolded sim_packages_def sim_service_def]])

context outside_world
begin

lemma empty_inv: "tables s = empty_db \<Longrightarrow> app.inv s"
  unfolding app.inv_def recorded_def
  by (simp add: empty_db_def wf_db_def db_live_def lookup_row_def db_events_def)

end

text \<open>
  C1. The promise of the transactional outbox, for every sequence of service calls from the empty
  database, whatever fails on the way: a live avatar has its upload event recorded, an avatar that
  was stored and is gone has its delete event recorded, and every recorded event can be read and is
  waiting in the outbox or has been written to its topic.
\<close>

theorem outbox_promise:
  assumes "outside_world W cfg objects logs" "tables s = empty_db"
    and "(svc_step (app_packages W) (app_service W cfg))\<^sup>*\<^sup>* s t"
  shows "(\<forall>i a. db_live (tables t) i = Some a \<longrightarrow>
        (\<exists>p. db_events (tables t) (UploadEventID (w_uuid_String W i)) = Some (OutboxUpload, p)))
    \<and> (\<forall>i. db_events (tables t) (UploadEventID (w_uuid_String W i)) \<noteq> None \<longrightarrow> db_live (tables t) i = None \<longrightarrow>
        (\<exists>p. db_events (tables t) (DeleteEventID (w_uuid_String W i)) = Some (OutboxDelete, p)))
    \<and> (\<forall>eid k p. db_events (tables t) eid = Some (k, p) \<longrightarrow> decodes k p \<and>
        (eid \<in> oe_EventID ` set (db_unpub (tables t)) \<or> delivered (upload_topic logs cfg t) (delete_topic logs cfg t) k p))"
proof -
  note b = outside_world.backend [OF assms(1)]
  from avatar_backend.inv_reachable [OF b assms(3) outside_world.empty_inv [OF assms(1,2)]] show ?thesis
    unfolding avatar_backend.inv_def [OF b] recorded_def by (auto simp: app_packages_def)
qed

theorem outbox_promise_witness:
  "\<exists>p. db_events (tables sys1) (UploadEventID (w_uuid_String sim_world 1)) = Some (OutboxUpload, p) \<and> decodes OutboxUpload p
    \<and> (UploadEventID (w_uuid_String sim_world 1) \<in> oe_EventID ` set (db_unpub (tables sys1))
       \<or> delivered (upload_topic sim_logs sim_config sys1) (delete_topic sim_logs sim_config sys1) OutboxUpload p)"
proof -
  have "(svc_step (app_packages sim_world) (app_service sim_world sim_config))\<^sup>*\<^sup>* sys_start sys1"
    by (rule r_into_rtranclp, rule svc_Upload [OF run_Upload [unfolded sim_packages_def sim_service_def]])
  note promise = outbox_promise [OF sim.outside_world_axioms _ this]
  moreover have "db_live (tables sys1) 1 = Some (row_avatar run_row)"
    by (simp add: db_live_def lookup_row_def live_row_def sys1_def run_row_def)
  ultimately show ?thesis by (simp add: sys_start_def) blast
qed

section \<open>Processing\<close>

text \<open>
  An upload event whose avatar id is no UUID is a poison message: it is refused with a permanent
  error, which the worker does not retry, and nothing but the metric changes.
\<close>

lemma ProcessUpload_poison:
  assumes "uuid_Parse P (ue_AvatarID ev) = Inl e"
  shows "\<exists>err. IsPermanent err \<and> ProcessUpload P svc ev s = (Some err, observe P (ProcessedTotal ''upload'' ''error'') s)"
proof -
  obtain err where err: "Permanent (Some (ErrWrap ''invalid avatar_id'' e)) = Some err"
    by (cases "errors_Is e ErrPermanent") (auto simp: Permanent_def)
  then have "IsPermanent err" using Permanent_marks by (simp add: IsPermanent_def)
  then show ?thesis using assms err by (simp add: ProcessUpload_def processUpload_def StatusOK_def)
qed

text \<open>
  C17. What the handling of an upload event may change, whatever happens on the way: the row of the one
  avatar it names, which stays that avatar, and objects under its thumbnail keys.  It ends without
  an error only if the avatar is gone, if nothing changed (the avatar was completed or another worker
  has it), if the data is not an image, or if both thumbnails have been made from the stored data,
  are stored, and are entered in the row together with the size of the image.
\<close>

theorem ProcessUpload_effect:
  assumes "outside_world W cfg objects logs" "wf_db (tables s)" "w_uuid_Parse W (ue_AvatarID ev) = Inr i"
    and "ProcessUpload (app_packages W) (app_service W cfg) ev s = (r, t)"
  shows "wf_db (tables t) \<and> db_events (tables t) = db_events (tables s) \<and> db_unpub (tables t) = db_unpub (tables s)
    \<and> (\<forall>j. j \<noteq> i \<longrightarrow> db_live (tables t) j = db_live (tables s) j)
    \<and> rel_option same_avatar (db_live (tables s) i) (db_live (tables t) i)
    \<and> (\<forall>k. \<not> thumb_key (ue_AvatarID ev) k \<longrightarrow> bucket objects cfg t k = bucket objects cfg s k)
    \<and> (r = None \<longrightarrow>
       db_live (tables s) i = None \<and> db_live (tables t) = db_live (tables s) \<and> bucket objects cfg t = bucket objects cfg s
     \<or> (\<exists>a. db_live (tables s) i = Some a \<and>
          (db_live (tables t) = db_live (tables s) \<and> bucket objects cfg t = bucket objects cfg s
           \<or> (\<exists>data ct. bucket objects cfg s (if ue_S3Key ev = [] then av_S3Key a else ue_S3Key ev) = Some (ct, data) \<and>
               (bucket objects cfg t = bucket objects cfg s \<and> (\<exists>err. Inspect (w_codecs W) data = Inl err)
                \<or> (\<exists>a'. db_live (tables t) i = Some a' \<and> same_avatar a a'
                    \<and> processed (w_codecs W) (ue_AvatarID ev) data (bucket objects cfg t) a'))))))"
proof -
  obtain r1 s1 where p: "processUpload (app_packages W) (app_service W cfg) ev s = (r1, s1)" by fastforce
  then have t: "tables t = tables s1" "outside t = outside s1" "r = r1"
    using assms(4) by (auto simp: ProcessUpload_def app_packages_def observe_sys_def)
  note b = outside_world.backend [OF assms(1)]
  have "uuid_Parse (app_packages W) (ue_AvatarID ev) = Inr i" using assms(3) by (simp add: app_packages_def)
  moreover have c: "codecs (app_packages W) = w_codecs W" by (simp add: app_packages_def)
  ultimately have "uuid_Parse (app_packages W) (ue_AvatarID ev) = Inr i" "codecs (app_packages W) = w_codecs W" by blast+
  note law = avatar_backend.processUpload_effect [OF b p assms(2) this(1),
      unfolded avatar_backend.works_on_def [OF b] at_most_def this(2)]
  show ?thesis unfolding t using law by (elim conjE, intro conjI) assumption+
qed

theorem ProcessUpload_effect_witness:
  "wf_db (tables sys3) \<and> db_events (tables sys3) = db_events (tables sys2) \<and> db_live (tables sys3) 2 = db_live (tables sys2) 2
    \<and> rel_option same_avatar (db_live (tables sys2) 1) (db_live (tables sys3) 1)"
  using ProcessUpload_effect [OF sim.outside_world_axioms wf_runs(3) _ run_Process [unfolded sim_packages_def sim_service_def], of 1]
  by (simp add: run_event_def sim_world_def uuid_scan_format)

text \<open>
  C18. Redelivery is harmless: once an avatar is completed, handling its upload event again (as
  at-least-once delivery makes the worker do) changes neither an avatar nor an event nor an object,
  whatever the calls below answer.
\<close>

theorem ProcessUpload_idempotent:
  assumes "outside_world W cfg objects logs" "wf_db (tables s)" "w_uuid_Parse W (ue_AvatarID ev) = Inr i"
    and "db_live (tables s) i = Some a" "av_ProcessingStatus a = ProcessingCompleted"
    and "ProcessUpload (app_packages W) (app_service W cfg) ev s = (r, t)"
  shows "db_live (tables t) = db_live (tables s) \<and> db_events (tables t) = db_events (tables s)
    \<and> db_unpub (tables t) = db_unpub (tables s) \<and> bucket objects cfg t = bucket objects cfg s
    \<and> (\<forall>e. r = Some e \<longrightarrow> \<not> errors_Is e ErrAvatarNotFound)"
proof -
  note b = outside_world.backend [OF assms(1)]
  obtain rg s1 where g: "GetByID (svc_repo (app_service W cfg)) i s = (rg, s1)" by fastforce
  note g' = avatar_backend.get_works [OF b g assms(2)]
  have "tables t = tables s1 \<and> outside t = outside s1 \<and> (\<forall>e. r = Some e \<longrightarrow> rg = Inl e)"
    using assms g g' by (cases rg)
      (auto simp: ProcessUpload_def processUpload_def app_packages_def observe_sys_def split: if_splits)
  then show ?thesis using g' assms(4) unfolding avatar_backend.works_on_def [OF b] by auto
qed

theorem ProcessUpload_idempotent_witness:
  "db_live (tables (snd (ProcessUpload sim_packages sim_service run_event sys3))) = db_live (tables sys3)
    \<and> bucket sim_objects sim_config (snd (ProcessUpload sim_packages sim_service run_event sys3)) = bucket sim_objects sim_config sys3"
proof -
  obtain a where a: "db_live (tables sys3) 1 = Some a" "av_ProcessingStatus a = ProcessingCompleted"
    using run_completed(2) by blast
  have id: "w_uuid_Parse sim_world (ue_AvatarID run_event) = Inr 1"
    by (simp add: run_event_def sim_world_def uuid_scan_format)
  show ?thesis
    using ProcessUpload_idempotent [OF sim.outside_world_axioms run_completed(1) id a, of
        "fst (ProcessUpload sim_packages sim_service run_event sys3)" "snd (ProcessUpload sim_packages sim_service run_event sys3)"]
    by (simp add: sim_packages_def sim_service_def)
qed

section \<open>Serving images\<close>

lemma NormalizeFormat_mime:
  assumes "NormalizeFormat f = Inr g" "g \<noteq> []"
  shows "\<exists>m \<in> image_mimes. g = FormatFromMIME m"
proof -
  have "case NormalizeFormat f of Inl e \<Rightarrow> True | Inr g \<Rightarrow> g \<in> {[], ''jpeg'', ''png'', ''webp''}"
    by (simp add: NormalizeFormat_def Let_def AllowedFormats_None)
  then have "g \<in> {''jpeg'', ''png'', ''webp''}" using assms by simp
  moreover have "{''jpeg'', ''png'', ''webp''} = FormatFromMIME ` image_mimes"
    by (simp add: image_mimes_def FormatFromMIME_def mime_defs insert_commute)
  ultimately show ?thesis by blast
qed

lemma Convert_format: "NormalizeFormat f = Inr g \<Longrightarrow> g \<noteq> [] \<Longrightarrow> Convert c data g = Inr (b, m) \<Longrightarrow> FormatFromMIME m = g"
  by (cases "Decode c data") (auto simp: Convert_def dest!: NormalizeFormat_mime Encode_mime)

lemma FormatFromMIME_Nil: "FormatFromMIME [] = []" "m \<in> image_mimes \<Longrightarrow> FormatFromMIME m \<noteq> []"
  by (simp add: FormatFromMIME_def mime_defs) (auto simp: image_mimes_def FormatFromMIME_def mime_defs)

text \<open>A served image: what was downloaded, as it is or converted.\<close>

lemma FetchImage_Inr:
  assumes "FetchImage P svc a sz f s = (Inr pay, t)"
  obtains size format data ct where "NormalizeSize sz = Inr size" "NormalizeFormat f = Inr format"
    "os_Download (svc_objects svc)
       (if size \<noteq> SizeOriginal \<and> snd (ThumbnailKey a size) then fst (ThumbnailKey a size) else av_S3Key a) s = (Inr (data, ct), t)"
    "(if format \<noteq> [] \<and> format \<noteq> (if FormatFromMIME ct = [] then FormatFromMIME (av_MimeType a) else FormatFromMIME ct)
      then Convert (codecs P) data format else Inr (data, if ct = [] then av_MimeType a else ct))
     = Inr (ip_Data pay, ip_ContentType pay)"
    "ip_ETag pay = etag P a size format (ip_Data pay)"
proof -
  obtain size format where n: "NormalizeSize sz = Inr size" "NormalizeFormat f = Inr format"
    using assms by (auto simp: FetchImage_def split: sum.splits)
  let ?key = "if size \<noteq> SizeOriginal \<and> snd (ThumbnailKey a size) then fst (ThumbnailKey a size) else av_S3Key a"
  obtain r s1 where d: "os_Download (svc_objects svc) ?key s = (r, s1)" by fastforce
  have key: "(if size \<noteq> SizeOriginal then (case ThumbnailKey a size of (thumb, ok) \<Rightarrow> if ok then thumb else av_S3Key a)
               else av_S3Key a) = ?key" by (auto split: prod.split)
  obtain data ct where r: "r = Inr (data, ct)"
    using assms n d key by (cases r) (auto simp: FetchImage_def Let_def)
  let ?out = "if format \<noteq> [] \<and> format \<noteq> (if FormatFromMIME ct = [] then FormatFromMIME (av_MimeType a) else FormatFromMIME ct)
      then Convert (codecs P) data format else Inr (data, if ct = [] then av_MimeType a else ct)"
  have f: "FetchImage P svc a sz f s =
      (case ?out of Inl e \<Rightarrow> (Inl e, s1)
       | Inr (d', ct') \<Rightarrow> (Inr \<lparr>ip_Data = d', ip_ContentType = ct', ip_ETag = etag P a size format d'\<rparr>, s1))"
    unfolding FetchImage_def n Let_def sum.case prod.case key d r by (rule refl)
  obtain d' ct' where o: "?out = Inr (d', ct')" using assms unfolding f by (cases ?out) auto
  have "t = s1" "ip_ETag pay = etag P a size format d'" "ip_Data pay = d'" "ip_ContentType pay = ct'"
    using assms unfolding f o by auto
  then show thesis using that [OF n] d r o by simp
qed

text \<open>
  The format of a stored object: by its content type, and of an object that has none of the three by the
  type that was detected at the upload.
\<close>

definition stored_format :: "Avatar \<Rightarrow> string \<Rightarrow> string" where
  "stored_format a ct = FormatFromMIME (if ct \<in> image_mimes then ct else av_MimeType a)"

lemma stored_format_eq:
  "(if FormatFromMIME ct = [] then FormatFromMIME (av_MimeType a) else FormatFromMIME ct) = stored_format a ct"
  using FormatFromMIME_Nil by (auto simp: stored_format_def image_mimes_def FormatFromMIME_def mime_defs)

text \<open>The format that was asked for is the format that is served.\<close>

lemma served_as_asked:
  assumes "NormalizeFormat f = Inr format"
    and "(if format \<noteq> [] \<and> format \<noteq> stored_format a ct then Convert c data format
      else Inr (data, if ct = [] then av_MimeType a else ct)) = Inr (data', ct')"
  shows "(if format \<in> {[], stored_format a ct} then data' = data \<and> ct' = (if ct = [] then av_MimeType a else ct)
      else Convert c data format = Inr (data', ct') \<and> FormatFromMIME ct' = format)
    \<and> (format = [] \<or> FormatFromMIME ct' = format \<or> ct \<notin> insert [] image_mimes)"
proof (cases "format \<in> {[], stored_format a ct}")
  case False
  then have "Convert c data format = Inr (data', ct')" using assms(2) by simp
  then show ?thesis using Convert_format [OF assms(1)] False by auto
next
  case True
  then have p: "data' = data" "ct' = (if ct = [] then av_MimeType a else ct)"
    using assms(2) by (auto split: if_splits)
  have "FormatFromMIME ct' = format" if "format \<noteq> []" "ct \<in> insert [] image_mimes"
    unfolding p using True that by (auto simp: stored_format_def dest: image_mimes_not_Nil)
  then have "format = [] \<or> FormatFromMIME ct' = format \<or> ct \<notin> insert [] image_mimes" by blast
  then show ?thesis using p True by simp
qed

text \<open>
  C20. \<open>FetchImage\<close> serves what is stored: it reads the thumbnail that the avatar has in the requested
  size, otherwise the original.  When no format is requested, or the one that the object is stored in, the
  answer has its bytes and content type unchanged; otherwise, and only then, they are what the conversion to the
  requested format made of the bytes.  A requested format is what the answer has, unless the stored type is none
  of the three; the ETag is that of the avatar, the size, the format and the bytes served.  Nothing changes.
\<close>

theorem FetchImage_serves:
  assumes "outside_world W cfg objects logs"
    and "FetchImage (app_packages W) (app_service W cfg) a sz f s = (Inr pay, t)"
  shows "bucket objects cfg t = bucket objects cfg s \<and> db_live (tables t) = db_live (tables s)
    \<and> (\<exists>size format data ct. NormalizeSize sz = Inr size \<and> NormalizeFormat f = Inr format
        \<and> bucket objects cfg s (if size \<noteq> SizeOriginal \<and> snd (ThumbnailKey a size) then fst (ThumbnailKey a size) else av_S3Key a) = Some (ct, data)
        \<and> (if format \<in> {[], stored_format a ct}
           then ip_Data pay = data \<and> ip_ContentType pay = (if ct = [] then av_MimeType a else ct)
           else Convert (w_codecs W) data format = Inr (ip_Data pay, ip_ContentType pay) \<and> FormatFromMIME (ip_ContentType pay) = format)
        \<and> (format = [] \<or> FormatFromMIME (ip_ContentType pay) = format \<or> ct \<notin> insert [] image_mimes)
        \<and> ip_ETag pay = etag (app_packages W) a size format (ip_Data pay))"
proof -
  have c: "codecs (app_packages W) = w_codecs W" by (simp add: app_packages_def)
  show ?thesis
  proof (rule FetchImage_Inr [OF assms(2), unfolded c stored_format_eq])
    fix size format data ct
    let ?key = "if size \<noteq> SizeOriginal \<and> snd (ThumbnailKey a size) then fst (ThumbnailKey a size) else av_S3Key a"
    assume n: "NormalizeSize sz = Inr size" "NormalizeFormat f = Inr format"
      and d: "os_Download (svc_objects (app_service W cfg)) ?key s = (Inr (data, ct), t)"
      and o: "(if format \<noteq> [] \<and> format \<noteq> stored_format a ct then Convert (w_codecs W) data format
        else Inr (data, if ct = [] then av_MimeType a else ct)) = Inr (ip_Data pay, ip_ContentType pay)"
      and e: "ip_ETag pay = etag (app_packages W) a size format (ip_Data pay)"
    note fr = avatar_backend.os_download_frame [OF outside_world.backend [OF assms(1)] d]
    have "objects (outside s) (S3Bucket cfg) ?key = Some (ct, data)" using fr by blast
    moreover have "objects (outside t) (S3Bucket cfg) = objects (outside s) (S3Bucket cfg)" "db_live (tables t) = db_live (tables s)"
      using fr by blast+
    ultimately show ?thesis using n e served_as_asked [OF n(2) o] by blast
  qed
qed

theorem FetchImage_serves_witness:
  "bucket sim_objects sim_config sys6 = bucket sim_objects sim_config sys1 \<and> db_live (tables sys6) = db_live (tables sys1)
    \<and> (\<exists>size format data ct. NormalizeSize [] = Inr size \<and> NormalizeFormat [] = Inr format
        \<and> bucket sim_objects sim_config sys1 (if size \<noteq> SizeOriginal \<and> snd (ThumbnailKey run_avatar size) then fst (ThumbnailKey run_avatar size)
            else av_S3Key run_avatar) = Some (ct, data)
        \<and> (if format \<in> {[], stored_format run_avatar ct}
           then ip_Data run_payload = data \<and> ip_ContentType run_payload = (if ct = [] then av_MimeType run_avatar else ct)
           else Convert (w_codecs sim_world) data format = Inr (ip_Data run_payload, ip_ContentType run_payload)
             \<and> FormatFromMIME (ip_ContentType run_payload) = format)
        \<and> (format = [] \<or> FormatFromMIME (ip_ContentType run_payload) = format \<or> ct \<notin> insert [] image_mimes)
        \<and> ip_ETag run_payload = etag (app_packages sim_world) run_avatar size format (ip_Data run_payload))"
  by (rule FetchImage_serves [OF sim.outside_world_axioms run_Fetch [unfolded sim_packages_def sim_service_def]])

end
