(* ===== verification/Liveness.thy ===== *)
theory Liveness
  imports Service_Properties
begin

text \<open>
  The outbox drains.  \<open>calm_world\<close> adds to the outside world a set of states in which the database
  answers every call and the broker takes every message, and which these calls do not leave.  From
  such a state every flush succeeds, so that after enough of them every event has been published.
\<close>

section \<open>A world that answers\<close>

locale calm_world = outside_world W cfg objects logs
  for W :: "('e, 'i) world" and cfg :: Config
    and objects :: "'e \<Rightarrow> string \<Rightarrow> string \<Rightarrow> (string \<times> string) option"
    and logs :: "'e \<Rightarrow> string \<Rightarrow> message list" +
  fixes calm :: "'e \<Rightarrow> bool"
  assumes pg_calm: "calm e \<Longrightarrow> pg_reply (w_pg W) e = (rep, e') \<Longrightarrow> rep = Delivered \<and> calm e'"
    and write_calm: "calm e \<Longrightarrow> kafka_WriteMessages (w_kafka W) topic msg e = (r, e') \<Longrightarrow> r = None \<and> calm e'"
    and clock_calm: "calm e \<Longrightarrow> kafka_time_Now (w_kafka W) e = (now, e') \<Longrightarrow> calm e'"
begin

lemma call_calm:
  assumes "call (w_pg W) st s = (r, t)" "calm (outside s)"
  shows "calm (outside t) \<and> (\<exists>now. r = fst (st now (tables s)))"
proof -
  obtain rep e where p: "pg_reply (w_pg W) (outside s) = (rep, e)" by fastforce
  obtain r1 d where st: "st (pg_now (w_pg W) e) (tables s) = (r1, d)" by fastforce
  have "rep = Delivered" "calm e" using pg_calm [OF assms(2) p] by simp_all
  then show ?thesis using assms(1) p st by (auto simp: call_def intro: exI [of _ "pg_now (w_pg W) e"])
qed

lemma list_calm:
  assumes "ListUnpublished (svc_repo (app_service W cfg)) 50 s = (r, t)" "calm (outside s)"
  shows "calm (outside t) \<and> (\<exists>items. r = Inr items)"
proof -
  obtain r1 s1 where c: "call (w_pg W) (select_unpublished 50) s = (r1, s1)" by fastforce
  obtain rows where "r1 = Inr rows" "calm (outside s1)"
    using call_calm [OF c assms(2)] by (auto simp: select_unpublished_def)
  moreover obtain rep e where p: "pg_reply (w_pg W) (outside s1) = (rep, e)" by fastforce
  ultimately have "rep = Delivered" "calm e" using pg_calm [OF _ p] by simp_all
  then show ?thesis using assms(1) c p \<open>r1 = Inr rows\<close>
    by (auto simp: AvatarRepository_def repo_ListUnpublished_def fetch_all_def)
qed

lemma publish_calm:
  assumes "publishKind (app_service W cfg) k (Some p) s = (r, t)" "decodes k p" "calm (outside s)"
  shows "r = None \<and> calm (outside t)"
proof -
  have w: "r' = None \<and> calm (outside t')" if "writeJSON (w_kafka W) topic key eid pay s = (r', t')" for topic key eid pay r' t'
  proof -
    obtain now e1 where n: "kafka_time_Now (w_kafka W) (outside s) = (now, e1)" by fastforce
    let ?msg = "\<lparr>m_Topic = [], m_Partition = 0, m_Offset = 0, m_Key = key, m_Value = Some pay,
      m_Time = now, m_Headers = event_headers (w_kafka W) (outside s) eid\<rparr>"
    obtain r2 e2 where m: "kafka_WriteMessages (w_kafka W) topic ?msg e1 = (r2, e2)" by fastforce
    have "r2 = None" "calm e2" using write_calm [OF clock_calm [OF assms(3) n] m] by simp_all
    then show ?thesis using that n m by (auto simp: writeJSON_def Let_def lift_def observe_sys_def)
  qed
  have "OutboxDelete \<noteq> OutboxUpload" by (simp add: OutboxUpload_def OutboxDelete_def)
  then show ?thesis using assms(1,2) w
    by (auto simp: decodes_def publishKind_def Producer_publisher_def Producer_PublishUpload_def Producer_PublishDelete_def)
qed

lemma mark_calm:
  assumes "MarkOutboxPublished (svc_repo (app_service W cfg)) i s = (r, t)" "calm (outside s)"
  shows "r = None \<and> calm (outside t)"
proof -
  obtain r1 s1 where c: "call (w_pg W) (update_published i) s = (r1, s1)" by fastforce
  then show ?thesis using assms(1) call_calm [OF c assms(2)]
    by (auto simp: AvatarRepository_def repo_MarkOutboxPublished_def update_published_def Let_def)
qed

lemma flush_item_calm:
  assumes "flush_item (app_packages W) (app_service W cfg) item s = (r, t)" "calm (outside s)"
    "oe_Payload item = Some p" "decodes (oe_Kind item) p"
  shows "r = None \<and> calm (outside t)"
proof -
  obtain r1 s1 where k: "publishKind (app_service W cfg) (oe_Kind item) (Some p) s = (r1, s1)" by fastforce
  note k1 = publish_calm [OF k assms(4,2)]
  then have "flush_item (app_packages W) (app_service W cfg) item s = MarkOutboxPublished (svc_repo (app_service W cfg)) (oe_ID item) s1"
    using k assms(3) by (simp add: flush_item_def publishWithRetry_def eval_nat_numeral)
  then show ?thesis using assms(1) mark_calm [of "oe_ID item" s1 r t] k1 by (simp del: app_service_sel)
qed

lemma flush_calm:
  assumes "FlushOutbox (app_packages W) (app_service W cfg) s = (r, t)" "app.inv s" "calm (outside s)"
  shows "r = None \<and> calm (outside t) \<and> app.inv t \<and> db_unpub (tables t) = drop 50 (db_unpub (tables s))
    \<and> db_live (tables t) = db_live (tables s)"
proof -
  have ok: "wf_db (tables s)" and dec: "\<And>eid k p. db_events (tables s) eid = Some (k, p) \<Longrightarrow> decodes k p"
    using assms(2) by (auto simp: app.inv_def recorded_def)
  obtain r1 s1 where l: "ListUnpublished (svc_repo (app_service W cfg)) 50 s = (r1, s1)" by fastforce
  obtain items where items: "r1 = Inr items" "calm (outside s1)" using list_calm [OF l assms(3)] by blast
  have "items = take 50 (db_unpub (tables s))" using app.unpublished_law [OF l ok] items(1) by simp
  then have ev: "\<exists>p. oe_Payload e = Some p \<and> decodes (oe_Kind e) p" if "e \<in> set items" for e
    using that app.unpub_events [OF ok] dec by (blast dest: in_set_takeD)
  have "for_first (flush_item (app_packages W) (app_service W cfg)) items None
      (observe (app_packages W) (OutboxUnpublished_Set (int (length items))) s1) = (r, t)"
    using assms(1) l items(1) by (simp add: FlushOutbox_def)
  then have "r = None \<and> calm (outside t)"
  proof (rule for_first_None)
    show "calm (outside (observe (app_packages W) (OutboxUnpublished_Set (int (length items))) s1))"
      using items(2) by (simp add: app_packages_def observe_sys_def)
    show "r = None \<and> calm (outside t)"
      if "e \<in> set items" "calm (outside s)" "flush_item (app_packages W) (app_service W cfg) e s = (r, t)" for e s r t
      using ev [OF that(1)] flush_item_calm [OF that(3,2)] by blast
  qed
  then show ?thesis using app.flush_effect [OF assms(1) ok] app.inv_flush [OF assms(1,2)] by auto
qed

lemma drains:
  assumes "app.inv s" "calm (outside s)"
  shows "let t = ((\<lambda>s. snd (FlushOutbox (app_packages W) (app_service W cfg) s)) ^^ n) s in
    app.inv t \<and> calm (outside t) \<and> db_unpub (tables t) = drop (50 * n) (db_unpub (tables s))
      \<and> db_live (tables t) = db_live (tables s)"
proof (induction n)
  case 0
  then show ?case using assms by simp
next
  case (Suc n)
  let ?t = "((\<lambda>s. snd (FlushOutbox (app_packages W) (app_service W cfg) s)) ^^ n) s"
  obtain r u where f: "FlushOutbox (app_packages W) (app_service W cfg) ?t = (r, u)" by fastforce
  then show ?case using Suc flush_calm [OF f] by (simp add: Let_def add.commute)
qed

end

section \<open>The simulated world with nothing left to fail\<close>

interpretation calm: calm_world sim_world sim_config sim_objects sim_logs "\<lambda>e. sim_pg e = [] \<and> sim_kafka e = []"
  by unfold_locales
    (auto simp: sim_world_def sim_driver_def sim_kafka_client_def scripted_def next_reply_def put_kafka_def)

section \<open>The outbox drains\<close>

text \<open>
  C3. Eventual delivery: from any state that service calls reach from the empty database, with
  whatever failures, once the outside answers again, \<open>n\<close> flushes empty an outbox of at most fifty
  times \<open>n\<close> entries; the avatars are the same, and the upload event of every one of them has then been
  written to its topic.
\<close>

theorem outbox_drains:
  assumes "calm_world W cfg objects logs calm" "tables s = empty_db"
    and "(svc_step (app_packages W) (app_service W cfg))\<^sup>*\<^sup>* s t" "calm (outside t)"
    and "length (db_unpub (tables t)) \<le> 50 * n"
    and "u = ((\<lambda>s. snd (FlushOutbox (app_packages W) (app_service W cfg) s)) ^^ n) t"
  shows "db_unpub (tables u) = [] \<and> db_live (tables u) = db_live (tables t)
    \<and> (\<forall>i a. db_live (tables u) i = Some a \<longrightarrow>
        (\<exists>p. db_events (tables u) (UploadEventID (w_uuid_String W i)) = Some (OutboxUpload, p)
           \<and> delivered (upload_topic logs cfg u) (delete_topic logs cfg u) OutboxUpload p))"
proof -
  have ow: "outside_world W cfg objects logs" using assms(1) by (simp add: calm_world_def)
  note b = outside_world.backend [OF ow]
  have inv: "avatar_backend.inv (\<lambda>s. wf_db (tables s)) (\<lambda>s. db_used (tables s)) (\<lambda>s. db_live (tables s))
      (\<lambda>s. db_events (tables s)) (\<lambda>s. db_unpub (tables s)) (upload_topic logs cfg) (delete_topic logs cfg) (app_packages W) t"
    by (rule avatar_backend.inv_reachable [OF b assms(3) outside_world.empty_inv [OF ow assms(2)]])
  have "avatar_backend.inv (\<lambda>s. wf_db (tables s)) (\<lambda>s. db_used (tables s)) (\<lambda>s. db_live (tables s))
      (\<lambda>s. db_events (tables s)) (\<lambda>s. db_unpub (tables s)) (upload_topic logs cfg) (delete_topic logs cfg) (app_packages W) u"
    and "db_unpub (tables u) = []" "db_live (tables u) = db_live (tables t)"
    using calm_world.drains [OF assms(1) inv assms(4), of n] assms(5,6) by (simp_all add: Let_def)
  then have rec: "recorded (w_uuid_String W) (db_used (tables u)) (db_live (tables u)) (db_events (tables u))
      (db_unpub (tables u)) (upload_topic logs cfg u) (delete_topic logs cfg u)"
    unfolding avatar_backend.inv_def [OF b] by (simp add: app_packages_def)
  have "\<exists>p. db_events (tables u) (UploadEventID (w_uuid_String W i)) = Some (OutboxUpload, p)
      \<and> delivered (upload_topic logs cfg u) (delete_topic logs cfg u) OutboxUpload p"
    if live: "db_live (tables u) i = Some a" for i a
  proof -
    obtain p where "db_events (tables u) (UploadEventID (w_uuid_String W i)) = Some (OutboxUpload, p)"
      using rec live unfolding recorded_def by blast
    moreover from this have "delivered (upload_topic logs cfg u) (delete_topic logs cfg u) OutboxUpload p"
      using rec \<open>db_unpub (tables u) = []\<close> unfolding recorded_def by fastforce
    ultimately show ?thesis by blast
  qed
  then show ?thesis using \<open>db_unpub (tables u) = []\<close> \<open>db_live (tables u) = db_live (tables t)\<close> by blast
qed

theorem outbox_drains_witness:
  "db_unpub (tables sys2) = [] \<and> db_live (tables sys2) = db_live (tables sys1)
    \<and> (\<exists>p. delivered (upload_topic sim_logs sim_config sys2) (delete_topic sim_logs sim_config sys2) OutboxUpload p)"
proof -
  have "(svc_step (app_packages sim_world) (app_service sim_world sim_config))\<^sup>*\<^sup>* sys_start sys1"
    by (rule r_into_rtranclp, rule svc_Upload [OF run_Upload [unfolded sim_packages_def sim_service_def]])
  moreover have "sys2 = ((\<lambda>s. snd (FlushOutbox (app_packages sim_world) (app_service sim_world sim_config) s)) ^^ 1) sys1"
    using run_Flush [unfolded sim_packages_def sim_service_def] by simp
  moreover have "tables sys_start = empty_db" "sim_pg (outside sys1) = [] \<and> sim_kafka (outside sys1) = []"
    "length (db_unpub (tables sys1)) \<le> 50 * 1"
    by (simp_all add: sys_start_def sys1_def sim_start_def db_unpub_def run_outbox_def)
  ultimately have "db_unpub (tables sys2) = [] \<and> db_live (tables sys2) = db_live (tables sys1)
    \<and> (\<forall>i a. db_live (tables sys2) i = Some a \<longrightarrow>
        (\<exists>p. db_events (tables sys2) (UploadEventID (w_uuid_String sim_world i)) = Some (OutboxUpload, p)
           \<and> delivered (upload_topic sim_logs sim_config sys2) (delete_topic sim_logs sim_config sys2) OutboxUpload p))"
    by (intro outbox_drains [OF calm.calm_world_axioms]) assumption+
  moreover have "db_live (tables sys1) 1 = Some (row_avatar run_row)"
    by (simp add: db_live_def lookup_row_def live_row_def sys1_def run_row_def)
  ultimately show ?thesis by metis
qed

end
