(* ===== verification/Worker_Properties.thy ===== *)
theory Worker_Properties
  imports Service_Properties
begin

text \<open>
  What the worker promises: the schedule of its retries, the treatment of messages that cannot be
  read, the outbox promise kept by its loops, and that a loop ends when the broker has no more
  messages.
\<close>

section \<open>Retries\<close>

text \<open>
  \<open>k\<close> attempts in a row failed with errors that are not permanent, and each was followed by its whole pause:
  \<open>st j\<close> is the state before attempt \<open>j\<close>, \<open>b\<close> the first pause.
\<close>

definition retried ::
    "(int \<Rightarrow> ('s, goerr option) op) \<Rightarrow> ('s, goerr option) op \<Rightarrow> int \<Rightarrow> (nat \<Rightarrow> 's) \<Rightarrow> nat \<Rightarrow> bool" where
  "retried wait fn b st k \<longleftrightarrow> (\<forall>j < k. \<exists>err u. fn (st j) = (Some err, u) \<and> \<not> IsPermanent err
     \<and> wait (b * 2 ^ j) u = (None, st (Suc j)))"

text \<open>What attempt \<open>k\<close> of \<open>n\<close> makes of the whole: the result \<open>(r, t)\<close>.\<close>

definition last_attempt ::
    "(int \<Rightarrow> ('s, goerr option) op) \<Rightarrow> ('s, goerr option) op \<Rightarrow> int \<Rightarrow> nat \<Rightarrow> nat \<Rightarrow> 's \<Rightarrow> goerr option \<times> 's \<Rightarrow> bool" where
  "last_attempt wait fn b n k s rt \<longleftrightarrow> k < n \<and>
     (case fn s of
        (None, u) \<Rightarrow> rt = (None, u)
      | (Some err, u) \<Rightarrow>
          if IsPermanent err \<or> k = n - 1 then rt = (Some err, u)
          else \<exists>ctxerr v. wait (b * 2 ^ k) u = (Some ctxerr, v) \<and> rt = (Some ctxerr, v))"

lemma retry_attempts_run:
  "\<exists>k st. st 0 = s \<and> retried wait fn b st k
     \<and> last_attempt wait fn b (Suc n) k (st k) (retry_attempts wait (Suc n) b fn e s)"
proof (induction n arbitrary: b e s)
  case 0
  show ?case
    by (intro exI [of _ 0] exI [of _ "\<lambda>_. s"])
      (auto simp: retried_def last_attempt_def split: prod.splits option.splits)
next
  case (Suc n)
  obtain r1 u where f: "fn s = (r1, u)" by fastforce
  obtain r2 v where w: "wait b u = (r2, v)" by fastforce
  show ?case
  proof (cases "\<exists>err. r1 = Some err \<and> \<not> IsPermanent err \<and> r2 = None")
    case True
    then obtain err where err: "r1 = Some err" "\<not> IsPermanent err" "r2 = None" by blast
    obtain k st where k: "st 0 = v" "retried wait fn (b * 2) st k"
      "last_attempt wait fn (b * 2) (Suc n) k (st k) (retry_attempts wait (Suc n) (b * 2) fn (Some err) v)"
      using Suc.IH by blast
    have "retried wait fn b (case_nat s st) (Suc k)"
      using k(1,2) f w err by (auto simp: retried_def less_Suc_eq_0_disj mult.assoc)
    moreover have "retry_attempts wait (Suc (Suc n)) b fn e s = retry_attempts wait (Suc n) (b * 2) fn (Some err) v"
      using f w err by simp
    then have "last_attempt wait fn b (Suc (Suc n)) (Suc k) (st k) (retry_attempts wait (Suc (Suc n)) b fn e s)"
      using k(3) unfolding last_attempt_def by (auto simp: mult.assoc split: prod.splits option.splits if_splits)
    ultimately show ?thesis by (intro exI [of _ "Suc k"] exI [of _ "case_nat s st"]) simp
  next
    case False
    then show ?thesis using f w
      by (intro exI [of _ 0] exI [of _ "\<lambda>_. s"]) (auto simp: retried_def last_attempt_def split: option.splits)
  qed
qed

text \<open>
  C32. What \<open>withRetry\<close> does with a message, call by call: the handler is called again after, and only after, an
  error that is not permanent, at most five times in all, and after a pause of 200, 400, 800, 1600
  milliseconds that was not interrupted.  The last call decides: its success, or its error if it is permanent or
  of the fifth call, is the result, and nothing happens after it; if the pause behind it is cut short by the
  context, the error of the context is the result.
\<close>

theorem withRetry_schedule:
  "\<exists>k st. st 0 = s \<and> k < 5
    \<and> (\<forall>j < k. \<exists>err u. fn (st j) = (Some err, u) \<and> \<not> IsPermanent err \<and> wait_or_done P (200 * 2 ^ j) u = (None, st (Suc j)))
    \<and> (case fn (st k) of
         (None, u) \<Rightarrow> withRetry P (NewWorker svc up del) fn s = (None, u)
       | (Some err, u) \<Rightarrow>
           if IsPermanent err \<or> k = 4 then withRetry P (NewWorker svc up del) fn s = (Some err, u)
           else \<exists>ctxerr v. wait_or_done P (200 * 2 ^ k) u = (Some ctxerr, v)
             \<and> withRetry P (NewWorker svc up del) fn s = (Some ctxerr, v))"
proof -
  have eq: "withRetry P (NewWorker svc up del) fn s = retry_attempts (wait_or_done P) (Suc 4) 200 fn None s"
    by (simp add: withRetry_def NewWorker_def)
  obtain k st where k: "st 0 = s" "retried (wait_or_done P) fn 200 st k"
    "last_attempt (wait_or_done P) fn 200 (Suc 4) k (st k) (withRetry P (NewWorker svc up del) fn s)"
    using retry_attempts_run [of s "wait_or_done P" fn 200 4 None] unfolding eq [symmetric] by (elim exE conjE)
  have "k < 5" using k(3) by (simp add: last_attempt_def)
  note parts = k(1) this k(2) [unfolded retried_def] k(3) [unfolded last_attempt_def diff_Suc_1, THEN conjunct2]
  show ?thesis by (rule exI [where x = k], rule exI [where x = st], intro conjI) (fact parts)+
qed

text \<open>
  A program whose state is the record of calls and pauses; its service has no backend that answers.
\<close>

definition trace_packages :: "(int option list, string) packages" where
  "trace_packages = \<lparr>codecs = sim_codecs, uuid_String = uuid_format, uuid_Parse = uuid_scan,
     uuid_New = (\<lambda>s. (0, s)), time_Now = (\<lambda>s. (0, s)), wait_or_done = (\<lambda>k s. (None, s @ [Some k])),
     observe = (\<lambda>m s. s)\<rparr>"

definition down_service :: "'s AvatarService" where
  "down_service =
    (let down = (\<lambda>s. (Inl (ErrExternal ''down''), s)) in
     NewAvatarService
       \<lparr>CreateWithOutbox = (\<lambda>a ev. down), GetByID = (\<lambda>i s. (Inl (ErrExternal ''down''), s)),
        GetLatestByUserID = (\<lambda>u s. (Inl (ErrExternal ''down''), s)), ListByUserID = (\<lambda>u s. (Inl (ErrExternal ''down''), s)),
        SoftDeleteOwnedWithOutbox = (\<lambda>i u ev s. (Inl (ErrExternal ''down''), s)),
        MarkProcessing = (\<lambda>i s. (Inl (ErrExternal ''down''), s)),
        CompleteProcessing = (\<lambda>i m w h s. (Some (ErrExternal ''down''), s)),
        FailProcessing = (\<lambda>i s. (Some (ErrExternal ''down''), s)),
        ListUnpublished = (\<lambda>n s. (Inl (ErrExternal ''down''), s)),
        MarkOutboxPublished = (\<lambda>i s. (Some (ErrExternal ''down''), s)),
        ListStuckUploads = (\<lambda>n s. (Inl (ErrExternal ''down''), s))\<rparr>
       \<lparr>os_Upload = (\<lambda>k ct d s. (Some (ErrExternal ''down''), s)), os_Download = (\<lambda>k s. (Inl (ErrExternal ''down''), s)),
        os_Delete = (\<lambda>ks s. (Some (ErrExternal ''down''), s))\<rparr>
       \<lparr>PublishUpload = (\<lambda>e s. (Some (ErrExternal ''down''), s)), PublishDelete = (\<lambda>e s. (Some (ErrExternal ''down''), s))\<rparr>
       [] 0)"

definition closed_cursor :: "'s cursor" where
  "closed_cursor = \<lparr>cur_Fetch = (\<lambda>s. (Inl (ErrExternal ''closed''), s)), cur_Commit = (\<lambda>m s. (None, s))\<rparr>"

text \<open>A handler that fails twice and then succeeds.\<close>

definition third_time :: "(int option list, goerr option) op" where
  "third_time s = (if length s < 4 then Some ErrForbidden else None, s @ [None])"

theorem withRetry_schedule_witness:
  "(\<exists>k st. st 0 = [] \<and> k < 5
    \<and> (\<forall>j < k. \<exists>err u. third_time (st j) = (Some err, u) \<and> \<not> IsPermanent err
        \<and> wait_or_done trace_packages (200 * 2 ^ j) u = (None, st (Suc j)))
    \<and> (case third_time (st k) of
         (None, u) \<Rightarrow> withRetry trace_packages (NewWorker down_service closed_cursor closed_cursor) third_time [] = (None, u)
       | (Some err, u) \<Rightarrow>
           if IsPermanent err \<or> k = 4
           then withRetry trace_packages (NewWorker down_service closed_cursor closed_cursor) third_time [] = (Some err, u)
           else \<exists>ctxerr v. wait_or_done trace_packages (200 * 2 ^ k) u = (Some ctxerr, v)
             \<and> withRetry trace_packages (NewWorker down_service closed_cursor closed_cursor) third_time [] = (Some ctxerr, v)))
   \<and> withRetry trace_packages (NewWorker down_service closed_cursor closed_cursor) third_time []
      = (None, [None, Some 200, None, Some 400, None])"
  by (rule conjI, rule withRetry_schedule)
    (simp add: withRetry_def NewWorker_def third_time_def trace_packages_def IsPermanent_def eval_nat_numeral)

section \<open>Messages that cannot be read\<close>

definition bad_message :: message where
  "bad_message = \<lparr>m_Topic = ''avatar.uploaded'', m_Partition = 0, m_Offset = 3, m_Key = [], m_Value = None,
     m_Time = 0, m_Headers = []\<rparr>"

definition bad_cursor :: "'s cursor" where
  "bad_cursor = \<lparr>cur_Fetch = (\<lambda>s. (Inr bad_message, s)), cur_Commit = (\<lambda>m s. (None, s))\<rparr>"

text \<open>
  C33. A message whose value is not the JSON of an upload event is dropped: it is handled once, counted
  as an error and committed, so that the partition goes on with the next message; the service is
  not called.  The loop ends only when the commit fails.
\<close>

theorem poison_is_dropped:
  assumes "cur_Fetch c s = (Inr msg, s1)" "unmarshal_upload (m_Value msg) = Inl e"
  shows "consume_one P ctx_done (NewWorker svc up del) c (handleUpload P (NewWorker svc up del)) s =
    (case cur_Commit c msg (observe P (KafkaMessages ''consume'' (m_Topic msg) ''error'') s1) of
       (Some err, t) \<Rightarrow> (Inl (Some (ErrWrap ''commit dropped message'' err)), t)
     | (None, t) \<Rightarrow> (Inr (), t))"
proof -
  obtain err where err: "Permanent (Some (ErrWrap ''decode upload event'' e)) = Some err"
    by (cases "errors_Is e ErrPermanent") (auto simp: Permanent_def)
  then have "IsPermanent err" using Permanent_marks by (simp add: IsPermanent_def)
  then have "withRetry P (NewWorker svc up del) (handleUpload P (NewWorker svc up del) msg) s1 = (Some err, s1)"
    using assms(2) err by (simp add: withRetry_def NewWorker_def eval_nat_numeral handleUpload_def)
  then show ?thesis using assms(1) by (simp add: consume_one_def)
qed

theorem poison_is_dropped_witness:
  "consume_one trace_packages (\<lambda>s. False) (NewWorker down_service bad_cursor closed_cursor) bad_cursor
      (handleUpload trace_packages (NewWorker down_service bad_cursor closed_cursor)) [] =
    (case cur_Commit bad_cursor bad_message (observe trace_packages (KafkaMessages ''consume'' (m_Topic bad_message) ''error'') []) of
       (Some err, t) \<Rightarrow> (Inl (Some (ErrWrap ''commit dropped message'' err)), t)
     | (None, t) \<Rightarrow> (Inr (), t))"
  by (rule poison_is_dropped [of _ _ _ _ "ErrText ''json''"])
    (simp_all add: bad_cursor_def bad_message_def unmarshal_upload_def unmarshal_struct_def)

text \<open>
  A message whose first attempt failed is committed and so given up when the context ends during the
  pause, although it has not been tried five times.
\<close>

lemma shutdown_drops_message:
  assumes "cur_Fetch c s = (Inr msg, s1)" "handle msg s1 = (Some err, s2)" "\<not> IsPermanent err"
    and "wait_or_done P 200 s2 = (Some ctxerr, s3)"
    and "cur_Commit c msg (observe P (KafkaMessages ''consume'' (m_Topic msg) ''error'') s3) = (None, t)"
  shows "consume_one P ctx_done (NewWorker svc up del) c handle s = (Inr (), t)"
  using assms by (simp add: consume_one_def withRetry_def NewWorker_def eval_nat_numeral)

section \<open>The loops keep the outbox promise\<close>

context outside_world
begin

lemma inv_lift: "keeps (\<lambda>e. (objects e, logs e)) m \<Longrightarrow> preserves app.inv (lift m)"
  by (rule preservesI) (auto simp: app.inv_def lift_def dest: keepsD split: prod.splits)

lemma inv_handlers:
  "w_svc w = app_service W cfg \<Longrightarrow> preserves app.inv (handleUpload (app_packages W) w m)"
  "w_svc w = app_service W cfg \<Longrightarrow> preserves app.inv (handleDelete (app_packages W) w m)"
  using app.inv_step [OF svc_ProcessUpload] app.inv_step [OF svc_ProcessDelete]
  by (auto intro!: preservesI simp: handleUpload_def handleDelete_def Let_def split: sum.splits)

lemma inv_consume:
  assumes "consume (app_packages W) ctx_done w (kafka_cursor (w_kafka W) topic) handle s = Some (r, t)" "app.inv s"
    and "\<And>m. preserves app.inv (handle m)"
  shows "app.inv t"
proof (rule consume_preserves [where I = app.inv, OF assms(1,2)])
  show "preserves app.inv (cur_Fetch (kafka_cursor (w_kafka W) topic))"
    "preserves app.inv (cur_Commit (kafka_cursor (w_kafka W) topic) m)" for m
    by (simp_all add: kafka_cursor_def inv_lift kf.fetch_law kf.commit_law)
  show "preserves app.inv (wait_or_done (app_packages W) k)" for k
    using inv_lift [OF w_wait] by (simp add: app_packages_def)
qed (simp_all add: assms(3))

end

text \<open>
  The worker keeps the promise of the outbox: from any state that service calls reach from the
  empty database, when one of its two loops ends, after whatever messages and failures, the tables
  are well-formed, every live avatar has its upload event, every avatar that is gone its delete
  event, and every event is readable and is waiting in the outbox or has reached its topic.
\<close>

lemma worker_keeps_promise:
  assumes "outside_world W cfg objects logs" "tables s0 = empty_db"
    and "(svc_step (app_packages W) (app_service W cfg))\<^sup>*\<^sup>* s0 s" "w = app_worker W cfg"
    and "consume (app_packages W) ctx_done w (w_upload w) (handleUpload (app_packages W) w) s = Some (r, t)
       \<or> consume (app_packages W) ctx_done w (w_delete w) (handleDelete (app_packages W) w) s = Some (r, t)"
  shows "wf_db (tables t)
    \<and> recorded (w_uuid_String W) (db_used (tables t)) (db_live (tables t)) (db_events (tables t)) (db_unpub (tables t))
        (upload_topic logs cfg t) (delete_topic logs cfg t)"
proof -
  note b = outside_world.backend [OF assms(1)]
  have w: "w_svc w = app_service W cfg" "w_upload w = kafka_cursor (w_kafka W) (TopicUpload cfg)"
    "w_delete w = kafka_cursor (w_kafka W) (TopicDelete cfg)"
    by (simp_all add: assms(4) app_worker_def NewWorker_def)
  have s: "avatar_backend.inv (\<lambda>s. wf_db (tables s)) (\<lambda>s. db_used (tables s)) (\<lambda>s. db_live (tables s))
      (\<lambda>s. db_events (tables s)) (\<lambda>s. db_unpub (tables s)) (upload_topic logs cfg) (delete_topic logs cfg) (app_packages W) s"
    by (rule avatar_backend.inv_reachable [OF b assms(3) outside_world.empty_inv [OF assms(1,2)]])
  have "avatar_backend.inv (\<lambda>s. wf_db (tables s)) (\<lambda>s. db_used (tables s)) (\<lambda>s. db_live (tables s))
      (\<lambda>s. db_events (tables s)) (\<lambda>s. db_unpub (tables s)) (upload_topic logs cfg) (delete_topic logs cfg) (app_packages W) t"
    using assms(5)
  proof
    assume "consume (app_packages W) ctx_done w (w_upload w) (handleUpload (app_packages W) w) s = Some (r, t)"
    then show ?thesis
      unfolding w by (rule outside_world.inv_consume [OF assms(1) _ s outside_world.inv_handlers(1) [OF assms(1) w(1)]])
  next
    assume "consume (app_packages W) ctx_done w (w_delete w) (handleDelete (app_packages W) w) s = Some (r, t)"
    then show ?thesis
      unfolding w by (rule outside_world.inv_consume [OF assms(1) _ s outside_world.inv_handlers(2) [OF assms(1) w(1)]])
  qed
  then show ?thesis unfolding avatar_backend.inv_def [OF b] by (simp add: app_packages_def)
qed

text \<open>A run: the worker reads the upload event of the example and finds the topic closed after it.\<close>

definition sys2f :: "sim sys" where
  "sys2f = sys2\<lparr>outside := (outside sys2)\<lparr>sim_next := (sim_next (outside sys2))(''avatar.uploaded'' := 1)\<rparr>\<rparr>"

abbreviation sim_worker where
  "sim_worker \<equiv> app_worker sim_world sim_config"

lemma sim_worker_sel:
  "w_svc sim_worker = sim_service" "w_attempts sim_worker = 5"
  "cur_Fetch (w_upload sim_worker) s =
     (if \<not> sim_cancelled (outside s) \<and> sim_next (outside s) ''avatar.uploaded'' < length (sim_logs (outside s) ''avatar.uploaded'')
      then (Inr (sim_logs (outside s) ''avatar.uploaded'' ! sim_next (outside s) ''avatar.uploaded''),
            s\<lparr>outside := (outside s)\<lparr>sim_next := (sim_next (outside s))(''avatar.uploaded'' := sim_next (outside s) ''avatar.uploaded'' + 1)\<rparr>\<rparr>)
      else (Inl (ErrExternal ''closed''), s\<lparr>outside := (outside s)\<lparr>sim_cancelled := True\<rparr>\<rparr>))"
  "cur_Commit (w_upload sim_worker) m s = (None, s\<lparr>outside := (outside s)\<lparr>sim_committed :=
      (sim_committed (outside s))(''avatar.uploaded'' := nat (m_Offset m) + 1)\<rparr>\<rparr>)"
  by (simp_all add: app_worker_def NewWorker_def kafka_cursor_def sim_world_def sim_kafka_client_def sim_config_def
      lift_def sim_service_def)

lemma run_handle: "\<exists>t. ProcessUpload sim_packages sim_service run_event sys2f = (None, t) \<and>
     sim_logs (outside t) ''avatar.uploaded'' = [run_message] \<and> sim_next (outside t) ''avatar.uploaded'' = 1"
    by (simp add: sys2f_def run sim_packages_def sim_service_def sys1_def sys2_def run_outbox_def run_message_def del: runes.simps)

lemma run_fetch: "cur_Fetch (w_upload sim_worker) sys2 = (Inr run_message, sys2f)"
  by (simp add: sim_worker_sel sys2f_def sys2_def sys1_def sim_start_def)

lemma run_handled:
  obtains t where "handleUpload sim_packages sim_worker run_message sys2f = (None, t)"
    "sim_logs (outside t) ''avatar.uploaded'' = [run_message]" "sim_next (outside t) ''avatar.uploaded'' = 1"
proof -
  obtain t where t: "ProcessUpload sim_packages sim_service run_event sys2f = (None, t)"
     "sim_logs (outside t) ''avatar.uploaded'' = [run_message]" "sim_next (outside t) ''avatar.uploaded'' = 1"
    using run_handle by blast
  have "EventIDFrom run_message (ue_EventID run_event) = ue_EventID run_event"
    by (simp add: EventIDFrom_def run_message_def run_event_def)
  moreover have "ue_EventID run_event \<noteq> []" "m_Value run_message = Some (marshal_upload run_event)"
    by (simp_all add: run_event_def run_message_def)
  ultimately have "handleUpload sim_packages sim_worker run_message sys2f = (None, t)"
    using t(1) by (simp add: handleUpload_def event_read sim_worker_sel del: event_sel)
  then show ?thesis using that t by blast
qed

lemma run_consume: "\<exists>t. consume sim_packages (\<lambda>s. sim_cancelled (outside s)) sim_worker
     (w_upload sim_worker) (handleUpload sim_packages sim_worker) sys2 = Some (None, t)"
proof -
  obtain t where h: "handleUpload sim_packages sim_worker run_message sys2f = (None, t)"
    and t: "sim_logs (outside t) ''avatar.uploaded'' = [run_message]" "sim_next (outside t) ''avatar.uploaded'' = 1"
    by (rule run_handled)
  have c: "consume_one sim_packages (\<lambda>s. sim_cancelled (outside s)) sim_worker
     (w_upload sim_worker) (handleUpload sim_packages sim_worker) sys2 =
     (Inr (), snd (cur_Commit (w_upload sim_worker) run_message (observe sim_packages (KafkaMessages ''consume'' ''avatar.uploaded'' ''ok'') t)))"
    using run_fetch h by (simp add: consume_one_def withRetry_def sim_worker_sel(2) eval_nat_numeral run_message_def)
      (simp add: sim_worker_sel)
  show ?thesis
    by (subst consume.simps, simp add: c, subst consume.simps)
      (simp add: consume_one_def sim_worker_sel t sim_packages_def app_packages_def observe_sys_def)
qed

definition sys7 :: "sim sys" where
  "sys7 = snd (the (consume sim_packages (\<lambda>s. sim_cancelled (outside s)) sim_worker
     (w_upload sim_worker) (handleUpload sim_packages sim_worker) sys2))"

lemma worker_keeps_promise_witness:
  "wf_db (tables sys7)
    \<and> recorded (w_uuid_String sim_world) (db_used (tables sys7)) (db_live (tables sys7)) (db_events (tables sys7))
        (db_unpub (tables sys7)) (upload_topic sim_logs sim_config sys7) (delete_topic sim_logs sim_config sys7)"
proof (rule worker_keeps_promise [OF sim.outside_world_axioms, of sys_start sys2 sim_worker _ None])
  show "(svc_step (app_packages sim_world) (app_service sim_world sim_config))\<^sup>*\<^sup>* sys_start sys2"
    by (rule rtranclp_trans [OF r_into_rtranclp r_into_rtranclp],
        rule svc_Upload [OF run_Upload [unfolded sim_packages_def sim_service_def]],
        rule svc_FlushOutbox [OF run_Flush [unfolded sim_packages_def sim_service_def]])
  show "consume (app_packages sim_world) (\<lambda>s. sim_cancelled (outside s)) sim_worker (w_upload sim_worker)
      (handleUpload (app_packages sim_world) sim_worker) sys2 = Some (None, sys7)
    \<or> consume (app_packages sim_world) (\<lambda>s. sim_cancelled (outside s)) sim_worker (w_delete sim_worker)
      (handleDelete (app_packages sim_world) sim_worker) sys2 = Some (None, sys7)"
    using run_consume by (auto simp: sys7_def sim_packages_def)
qed (simp_all add: sys_start_def)

section \<open>The loops end\<close>

text \<open>
  A loop of the worker ends when its topic does: if \<open>left\<close> counts the messages that can still be
  fetched (a fetched one less, no operation adds one), \<open>consume\<close> returns, with \<open>nil\<close> or the error of
  the last fetch or of a commit, and never runs on for ever.
\<close>

lemma consume_returns:
  fixes left :: "'s \<Rightarrow> nat"
  assumes "\<And>s m t. cur_Fetch c s = (Inr m, t) \<Longrightarrow> left t < left s"
    and "\<And>n m. preserves (\<lambda>s. left s \<le> n) (cur_Commit c m)" "\<And>n m. preserves (\<lambda>s. left s \<le> n) (handle m)"
    and "\<And>n k. preserves (\<lambda>s. left s \<le> n) (wait_or_done P k)" "\<And>x s. left (observe P x s) = left s"
  shows "\<exists>r t. consume P ctx_done w c handle s = Some (r, t)"
proof (induction "left s" arbitrary: s rule: less_induct)
  case less
  obtain r1 s1 where one: "consume_one P ctx_done w c handle s = (r1, s1)" by fastforce
  show ?case
  proof (cases r1)
    case (Inl r)
    then show ?thesis using one by (simp add: consume.simps)
  next
    case (Inr u)
    obtain rf s2 where f: "cur_Fetch c s = (rf, s2)" by fastforce
    obtain msg where msg: "rf = Inr msg" using one Inr f
      by (cases rf) (auto simp: consume_one_def split: if_splits)
    have l2: "left s2 < left s" using assms(1) f msg by simp
    obtain rh s3 where h: "withRetry P w (handle msg) s2 = (rh, s3)" by fastforce
    have "preserves (\<lambda>s. left s \<le> left s2) (withRetry P w (handle msg))"
      unfolding withRetry_def [abs_def] by (rule retry_preserves) (simp_all add: assms)
    from preservesD [OF this _ h] have l3: "left s3 \<le> left s2" by simp
    have "left t \<le> left s3" if c: "cur_Commit c msg (observe P x s3) = (rc, t)" for x rc t
      using preservesD [OF assms(2) _ c, of "left s3"] assms(5) by simp
    then have "left s1 \<le> left s3" using one Inr f msg h
      by (auto simp: consume_one_def split: option.splits prod.splits)
    then have "\<exists>r t. consume P ctx_done w c handle s1 = Some (r, t)" using less l2 l3 by simp
    then show ?thesis using one Inr by (simp add: consume.simps)
  qed
qed

text \<open>In the simulated world: the messages of the delete topic that have not been fetched.\<close>

definition sim_left :: "sim sys \<Rightarrow> nat" where
  "sim_left s = length (sim_logs (outside s) ''avatar.deleted'') - sim_next (outside s) ''avatar.deleted''"

lemma sim_left_lift:
  "keeps (\<lambda>e. (sim_logs e, sim_next e)) m \<Longrightarrow> preserves (\<lambda>s. sim_left s \<le> n) (lift m)"
  by (rule preservesI) (auto simp: sim_left_def lift_def dest: keepsD split: prod.splits)

lemma sim_delete_keeps: "keeps (\<lambda>e. (sim_logs e, sim_next e)) (S3_Delete \<lparr>s3_client = sim_minio, s3_bucket = b\<rparr> keys)"
proof -
  have "preserves (\<lambda>e. (sim_logs e, sim_next e) = v) (S3_Delete \<lparr>s3_client = sim_minio, s3_bucket = b\<rparr> keys)" for v
    unfolding S3_Delete_def
    by (rule for_err_preserves, rule preservesI)
      (auto simp: remove_one_def Let_def sim_minio_def put_s3_def elim!: scripted_cases split: if_splits prod.splits option.splits)
  then show ?thesis by (simp add: keeps_def preserves_def)
qed

lemma consume_returns_witness:
  "\<exists>r t. consume sim_packages (\<lambda>s. sim_cancelled (outside s)) (app_worker sim_world sim_config)
     (w_delete (app_worker sim_world sim_config)) (handleDelete sim_packages (app_worker sim_world sim_config)) sys5 = Some (r, t)"
proof (rule consume_returns [of _ sim_left])
  note defs = app_worker_def NewWorker_def kafka_cursor_def sim_world_def sim_kafka_client_def sim_config_def
  show "sim_left t < sim_left s" if "cur_Fetch (w_delete (app_worker sim_world sim_config)) s = (Inr m, t)" for s m t
    using that by (auto simp: defs lift_def sim_left_def split: if_splits)
  show "preserves (\<lambda>s. sim_left s \<le> n) (cur_Commit (w_delete (app_worker sim_world sim_config)) m)" for n m
    by (simp add: defs) (rule sim_left_lift, simp add: keeps_def)
  show "preserves (\<lambda>s. sim_left s \<le> n) (wait_or_done sim_packages k)" for n k
    by (simp add: sim_packages_def app_packages_def sim_world_def) (rule sim_left_lift, simp add: keeps_def)
  show "sim_left (observe sim_packages x s) = sim_left s" for x s
    by (simp add: sim_packages_def app_packages_def observe_sys_def sim_left_def)
  show "preserves (\<lambda>s. sim_left s \<le> n) (handleDelete sim_packages (app_worker sim_world sim_config) m)" for n m
  proof (rule preservesI)
    fix s r and t :: "sim sys"
    assume s: "sim_left s \<le> n" and h: "handleDelete sim_packages (app_worker sim_world sim_config) m s = (r, t)"
    show "sim_left t \<le> n"
    proof (cases "unmarshal_delete (m_Value m)")
      case (Inl e)
      then show ?thesis using h s by (simp add: handleDelete_def)
    next
      case (Inr ev)
      obtain r1 s1 where d: "lift (S3_Delete \<lparr>s3_client = sim_minio, s3_bucket = S3Bucket sim_config\<rparr> (de_S3Keys ev)) s = (r1, s1)"
        by fastforce
      have "sim_left s1 \<le> n" using preservesD [OF sim_left_lift [OF sim_delete_keeps] s d] .
      then show ?thesis using h d Inr
        by (auto simp: handleDelete_def ProcessDelete_def Let_def app_worker_def NewWorker_def S3_store_def
            sim_world_def sim_packages_def app_packages_def observe_sys_def sim_left_def)
    qed
  qed
qed

end
