(* ===== verification/End_To_End.thy ===== *)
theory End_To_End
  imports Worker_Properties
begin

text \<open>
  The way of a picture through the program: an upload by the server, a flush of the outbox by the
  maintenance loop, and the handling of the message by a worker, which may all be different processes.
\<close>

context avatar_backend
begin

lemma stored_key:
  assumes "Upload P svc u name data s = (Inr a, t)" "ok s"
  shows "av_S3Key a \<noteq> []"
proof -
  obtain s1 where up: "upload P svc u name data s = (Inr a, s1)"
    using assms(1) by (auto simp: Upload_def Let_def split: prod.splits sum.splits)
  show ?thesis
    by (cases rule: upload_effect [OF up assms(2), case_names unchanged committed])
      (auto simp: upload_key_def OriginalObjectKey_def)
qed

text \<open>After the flush: the message in the topic, and the avatar and the picture that it names.\<close>

definition on_its_way :: "Avatar \<Rightarrow> string \<Rightarrow> 's \<Rightarrow> AvatarUploadEvent \<Rightarrow> Info \<Rightarrow> Avatar \<Rightarrow> bool" where
  "on_its_way a data s e info a1 \<longleftrightarrow> Some (marshal_upload e) \<in> set (ulog s)
     \<and> ue_AvatarID e = uuid_String P (av_ID a) \<and> ue_S3Key e = to_valid_utf8 (av_S3Key a)
     \<and> live s (av_ID a) = Some a1 \<and> av_ProcessingStatus a1 = ProcessingPending
     \<and> Inspect (codecs P) data = Inr info \<and> blobs s (av_S3Key a) = Some (info_MIME info, data)"

lemma uploaded_message:
  assumes "inv s" "Upload P svc u name data s = (Inr a, s1)" "length (unpub s1) \<le> 50" "FlushOutbox P svc s1 = (None, s2)"
  shows "inv s2 \<and> live s2 = live s1 \<and> (\<exists>e info a1. on_its_way a data s2 e info a1)"
proof -
  have inv1: "inv s1" using inv_step [OF svc_Upload] assms(1,2) by blast
  have inv2: "inv s2" using inv_flush [OF assms(4) inv1] .
  have ok: "ok s" "ok s1" using assms(1) inv1 by (simp_all add: inv_def)
  note f = flush_effect [OF assms(4) ok(2)]
  let ?p = "marshal_upload (recover_event P a)"
  obtain info a1 where a1: "events s1 (UploadEventID (uuid_String P (av_ID a))) = Some (OutboxUpload, ?p)"
    "Inspect (codecs P) data = Inr info" "live s1 (av_ID a) = Some a1" "av_ProcessingStatus a1 = ProcessingPending"
    "blobs s1 (av_S3Key a) = Some (info_MIME info, data)"
    using Upload_success [OF assms(2) ok(1)] by auto
  then have "events s2 (UploadEventID (uuid_String P (av_ID a))) = Some (OutboxUpload, ?p)" "unpub s2 = []"
    using f assms(3) by auto
  then have "delivered (ulog s2) (dlog s2) OutboxUpload ?p"
    using inv2 unfolding inv_def recorded_def by fastforce
  then obtain e where "unmarshal_upload (Some ?p) = Inr e" "Some (marshal_upload e) \<in> set (ulog s2)"
    by (auto simp: delivered_def OutboxUpload_def OutboxDelete_def)
  then have "on_its_way a data s2 e info a1"
    using a1 f uuid_facts(3) unfolding unmarshal_marshal_upload by (auto simp: on_its_way_def recover_event_def)
  then show ?thesis using inv2 f by blast
qed

lemma handled_upload:
  assumes "w_svc w = svc" "handleUpload P w msg s = (None, t)" "m_Value msg = Some (marshal_upload e)"
    and "ue_AvatarID e = uuid_String P i" "valid_utf8 (ue_S3Key e)" "ue_S3Key e \<noteq> []"
    and "ok s" "live s i = Some a" "av_ProcessingStatus a = ProcessingPending"
    and "blobs s (ue_S3Key e) = Some (ct, data)" "Inspect (codecs P) data = Inr info"
  shows "\<exists>a'. live t i = Some a' \<and> same_avatar a a' \<and> processed (codecs P) (uuid_String P i) data (blobs t) a'"
proof -
  obtain ev where ev: "ProcessUpload P svc ev s = (None, t)" "ue_AvatarID ev = uuid_String P i" "ue_S3Key ev = ue_S3Key e"
    using assms(1-5) uuid_facts(3) unfolding handleUpload_def assms(3) unmarshal_marshal_upload
    by (auto simp: Let_def valid_utf8_def split: if_splits)
  then obtain t1 where "processUpload P svc ev s = (None, t1)" "live t = live t1" "blobs t = blobs t1"
    by (auto simp: ProcessUpload_def split: prod.splits)
  then show ?thesis using pending_processed [of ev s t1 i a ct data info] assms(6-11) ev(2,3) uuid_facts(4) by simp
qed

lemma handled_on_its_way:
  assumes "on_its_way a data s2 e info a1" "valid_utf8 (av_S3Key a)" "av_S3Key a \<noteq> []"
    and "m_Value msg = Some (marshal_upload e)" "w_svc w = svc"
    and "ok s" "live s (av_ID a) = live s2 (av_ID a)" "blobs s (av_S3Key a) = blobs s2 (av_S3Key a)"
    and "handleUpload P w msg s = (None, t)"
  shows "\<exists>a'. live t (av_ID a) = Some a' \<and> same_avatar a1 a'
    \<and> processed (codecs P) (uuid_String P (av_ID a)) data (blobs t) a'"
  by (rule handled_upload [OF assms(5,9,4)])
    (use assms(1-3,6-8) in \<open>simp_all add: on_its_way_def valid_utf8_def\<close>)

end

section \<open>From the upload to the thumbnails\<close>

text \<open>
  C4. The whole way: in any state that the service has reached from the empty database, with
  whatever failures before, a picture that was accepted while at most fifty outbox entries wait, this one
  included, and under a key that is valid UTF-8, is after a flush without error in the
  topic as a message that names it; and in whatever state a worker handles that message without an
  error, as long as the avatar's row and its picture are still what they were after the flush (not deleted, not
  taken by another worker), the avatar is completed: its thumbnails of
  both sizes, made of the very bytes that were uploaded, are stored under the keys it records, with
  its width and height.
\<close>
theorem upload_gets_thumbnails:
  assumes "outside_world W cfg objects logs" "tables s0 = empty_db"
    and "(svc_step (app_packages W) (app_service W cfg))\<^sup>*\<^sup>* s0 s"
    and "Upload (app_packages W) (app_service W cfg) u name data s = (Inr a, s1)" "valid_utf8 (av_S3Key a)"
    and "length (db_unpub (tables s1)) \<le> 50" "FlushOutbox (app_packages W) (app_service W cfg) s1 = (None, s2)"
  shows "\<exists>msg \<in> set (logs (outside s2) (TopicUpload cfg)). \<forall>s3 t.
      wf_db (tables s3) \<and> db_live (tables s3) (av_ID a) = db_live (tables s2) (av_ID a)
      \<and> bucket objects cfg s3 (av_S3Key a) = bucket objects cfg s2 (av_S3Key a)
      \<and> handleUpload (app_packages W) (app_worker W cfg) msg s3 = (None, t)
      \<longrightarrow> (\<exists>a'. db_live (tables t) (av_ID a) = Some a' \<and> rel_option same_avatar (db_live (tables s1) (av_ID a)) (Some a')
            \<and> processed (w_codecs W) (w_uuid_String W (av_ID a)) data (bucket objects cfg t) a')"
proof -
  let ?P = "app_packages W" and ?svc = "app_service W cfg"
  note b = outside_world.backend [OF assms(1)]
  note inv = avatar_backend.inv_reachable [OF b assms(3) outside_world.empty_inv [OF assms(1,2)]]
  then have "wf_db (tables s)" unfolding avatar_backend.inv_def [OF b] by blast
  note key = avatar_backend.stored_key [OF b assms(4) this]
  note sent = avatar_backend.uploaded_message [OF b inv assms(4,6,7)]
  then obtain e info a1 where way: "avatar_backend.on_its_way (\<lambda>s. db_live (tables s)) (bucket objects cfg) (upload_topic logs cfg)
      ?P a data s2 e info a1" by blast
  note d = way [unfolded avatar_backend.on_its_way_def [OF b]]
  obtain msg where msg: "msg \<in> set (logs (outside s2) (TopicUpload cfg))" "m_Value msg = Some (marshal_upload e)"
    using d by auto
  have W: "w_svc (app_worker W cfg) = ?svc" by (simp add: app_worker_def NewWorker_def)
  show ?thesis
  proof (rule bexI [OF _ msg(1)], intro allI impI, elim conjE)
    fix s3 t
    assume s3: "wf_db (tables s3)" "db_live (tables s3) (av_ID a) = db_live (tables s2) (av_ID a)"
      "bucket objects cfg s3 (av_S3Key a) = bucket objects cfg s2 (av_S3Key a)"
      and h: "handleUpload ?P (app_worker W cfg) msg s3 = (None, t)"
    from avatar_backend.handled_on_its_way [OF b way assms(5) key msg(2) W s3 h]
    show "\<exists>a'. db_live (tables t) (av_ID a) = Some a' \<and> rel_option same_avatar (db_live (tables s1) (av_ID a)) (Some a')
        \<and> processed (w_codecs W) (w_uuid_String W (av_ID a)) data (bucket objects cfg t) a'"
      using sent d by (auto simp: app_packages_def)
  qed
qed

lemma run_handle_message: "handleUpload sim_packages sim_worker run_message sys2 = (None, sys3)"
proof -
  have "EventIDFrom run_message (ue_EventID run_event) = ue_EventID run_event"
    by (simp add: EventIDFrom_def run_message_def run_event_def)
  moreover have "ue_EventID run_event \<noteq> []" "m_Value run_message = Some (marshal_upload run_event)"
    by (simp_all add: run_event_def run_message_def)
  ultimately show ?thesis
    using run_Process by (simp add: handleUpload_def event_read sim_worker_sel)
qed

theorem upload_gets_thumbnails_witness:
  "\<exists>a'. db_live (tables sys3) (av_ID run_avatar) = Some a'
    \<and> processed (w_codecs sim_world) (w_uuid_String sim_world (av_ID run_avatar)) a_png (bucket sim_objects sim_config sys3) a'"
proof -
  have "tables sys_start = empty_db" "valid_utf8 (av_S3Key run_avatar)" "length (db_unpub (tables sys1)) \<le> 50"
    by (simp_all add: sys_start_def sys1_def sim_start_def db_unpub_def run_avatar_def valid_utf8_def key_ascii)
  from upload_gets_thumbnails [OF sim.outside_world_axioms this(1) rtranclp.rtrancl_refl
      run_Upload [unfolded sim_packages_def sim_service_def] this(2,3) run_Flush [unfolded sim_packages_def sim_service_def]]
  obtain msg where "msg \<in> set (sim_logs (outside sys2) (TopicUpload sim_config))"
    and m: "\<And>s3 t. wf_db (tables s3) \<Longrightarrow> db_live (tables s3) (av_ID run_avatar) = db_live (tables sys2) (av_ID run_avatar) \<Longrightarrow>
      bucket sim_objects sim_config s3 (av_S3Key run_avatar) = bucket sim_objects sim_config sys2 (av_S3Key run_avatar) \<Longrightarrow>
      handleUpload (app_packages sim_world) sim_worker msg s3 = (None, t) \<Longrightarrow>
      \<exists>a'. db_live (tables t) (av_ID run_avatar) = Some a'
        \<and> processed (w_codecs sim_world) (w_uuid_String sim_world (av_ID run_avatar)) a_png (bucket sim_objects sim_config t) a'"
    by blast
  then have "msg = run_message" by (simp add: sys2_def sim_config_def)
  then show ?thesis using m [OF wf_runs(3) refl refl] run_handle_message unfolding sim_packages_def by blast
qed

end
