(* ===== verification/Service_Frame.thy ===== *)
theory Service_Frame
  imports Service_Invariant App
begin

text \<open>
  What every call outside keeps, the whole service keeps: a predicate that no operation of the store,
  the object store, the publisher and the packages falsifies is not falsified by any method of the
  service (locale \<open>service_frame\<close>); and for the assembled program, a predicate of the outside that no
  call of a driver or client falsifies (locale \<open>outside_frame\<close>).
\<close>

section \<open>Rules\<close>

named_theorems preserving \<open>how a composed operation preserves a predicate\<close>

lemma preserves_return [preserving]: "preserves I (\<lambda>s. (r, s))"
  by (simp add: preserves_def)

lemma preserves_bind [preserving]:
  "preserves I m \<Longrightarrow> (\<And>r. preserves I (k r)) \<Longrightarrow> preserves I (\<lambda>s. case m s of (r, s) \<Rightarrow> k r s)"
  by (simp add: preserves_def split: prod.splits) (metis prod.collapse snd_conv)

lemma preserves_case_sum [preserving]:
  "(\<And>e. preserves I (f e)) \<Longrightarrow> (\<And>x. preserves I (g x)) \<Longrightarrow> preserves I (\<lambda>s. case r of Inl e \<Rightarrow> f e s | Inr x \<Rightarrow> g x s)"
  by (cases r) simp_all

lemma preserves_case_option [preserving]:
  "preserves I f \<Longrightarrow> (\<And>x. preserves I (g x)) \<Longrightarrow> preserves I (\<lambda>s. case r of None \<Rightarrow> f s | Some x \<Rightarrow> g x s)"
  by (cases r) simp_all

lemma preserves_case_prod [preserving]:
  "(\<And>x y. preserves I (f x y)) \<Longrightarrow> preserves I (\<lambda>s. case p of (x, y) \<Rightarrow> f x y s)"
  by (cases p) simp

lemma preserves_if [preserving]:
  "preserves I f \<Longrightarrow> preserves I g \<Longrightarrow> preserves I (\<lambda>s. if b then f s else g s)"
  by (cases b) simp_all

lemma preserves_let [preserving]: "(\<And>x. preserves I (f x)) \<Longrightarrow> preserves I (\<lambda>s. let x = y in f x s)"
  by simp

section \<open>The service\<close>

locale service_frame =
  fixes P :: "('s, 'i) packages" and svc :: "'s AvatarService" and I :: "'s \<Rightarrow> bool"
  assumes store_keeps: "store_step (svc_repo svc) s t \<Longrightarrow> I s \<Longrightarrow> I t"
    and objects_keep: "preserves I (os_Upload (svc_objects svc) k ct d)" "preserves I (os_Download (svc_objects svc) k)"
      "preserves I (os_Delete (svc_objects svc) ks)"
    and publisher_keeps: "preserves I (PublishUpload (svc_publisher svc) ue)" "preserves I (PublishDelete (svc_publisher svc) de)"
    and packages_keep: "preserves I (uuid_New P)" "preserves I (time_Now P)" "preserves I (wait_or_done P n)"
    and observe_keeps: "I s \<Longrightarrow> I (observe P x s)"
begin

lemma repo_keeps:
  "preserves I (CreateWithOutbox (svc_repo svc) a ev)" "preserves I (GetByID (svc_repo svc) i)"
  "preserves I (GetLatestByUserID (svc_repo svc) u)" "preserves I (ListByUserID (svc_repo svc) u)"
  "preserves I (SoftDeleteOwnedWithOutbox (svc_repo svc) i u ev)" "preserves I (MarkProcessing (svc_repo svc) i)"
  "preserves I (CompleteProcessing (svc_repo svc) i th wd h)" "preserves I (FailProcessing (svc_repo svc) i)"
  "preserves I (ListUnpublished (svc_repo svc) m)" "preserves I (MarkOutboxPublished (svc_repo svc) m)"
  "preserves I (ListStuckUploads (svc_repo svc) m)"
  by (rule preservesI, erule store_keeps [OF store_step.intros(1)] store_keeps [OF store_step.intros(2)]
      store_keeps [OF store_step.intros(3)] store_keeps [OF store_step.intros(4)] store_keeps [OF store_step.intros(5)]
      store_keeps [OF store_step.intros(6)] store_keeps [OF store_step.intros(7)] store_keeps [OF store_step.intros(8)]
      store_keeps [OF store_step.intros(9)] store_keeps [OF store_step.intros(10)] store_keeps [OF store_step.intros(11)], assumption)+

lemma observe_return: "preserves I (\<lambda>s. (r, observe P x s))" "preserves I m \<Longrightarrow> preserves I (\<lambda>s. m (observe P x s))"
  using observe_keeps by (simp_all add: preserves_def)

lemmas keep = preserving repo_keeps objects_keep publisher_keeps packages_keep observe_return

lemma Upload_keeps: "preserves I (Upload P svc u name data)"
proof -
  have "preserves I (upload P svc u name data)"
    unfolding upload_def [abs_def] Let_def by (intro keep)
  then show ?thesis unfolding Upload_def [abs_def] Let_def by (intro keep)
qed

lemma read_keeps: "preserves I (Get svc i)" "preserves I (GetLatest svc u)" "preserves I (List_svc svc u)"
  "preserves I (FetchImage P svc a sz f)"
  unfolding Get_def [abs_def] GetLatest_def [abs_def] List_svc_def [abs_def] FetchImage_def [abs_def] Let_def
  by (intro keep)+

lemma Delete_keeps: "preserves I (Delete P svc i u)" "preserves I (DeleteLatest P svc u)"
proof -
  have "preserves I (delete P svc i u)" for i
    unfolding delete_def [abs_def] by (intro keep)
  then show "preserves I (Delete P svc i u)" for i
    unfolding Delete_def [abs_def] by (intro keep)
  then show "preserves I (DeleteLatest P svc u)"
    unfolding DeleteLatest_def [abs_def] by (intro keep)
qed

lemma publish_attempts_keeps:
  assumes "preserves I fn"
  shows "preserves I (publish_attempts (wait_or_done P) n b fn e)"
proof (induction n arbitrary: b e)
  case 0
  then show ?case by (simp add: preserves_def)
next
  case (Suc n)
  have "preserves I (\<lambda>s. publish_attempts (wait_or_done P) (Suc n) b fn e s)"
    unfolding publish_attempts.simps by (intro keep assms Suc)
  then show ?case by simp
qed

lemma FlushOutbox_keeps: "preserves I (FlushOutbox P svc)"
proof -
  have "preserves I (publishKind svc k p)" for k p
    unfolding publishKind_def [abs_def] by (intro keep)
  then have "preserves I (flush_item P svc item)" for item
    unfolding flush_item_def [abs_def] publishWithRetry_def [abs_def] by (intro keep publish_attempts_keeps)
  then show ?thesis
    unfolding FlushOutbox_def [abs_def] by (intro keep for_first_preserves)
qed

lemma make_thumbs_keeps: "preserves I (make_thumbs P svc i aid d m specs thumbs)"
proof (induction specs arbitrary: thumbs)
  case (Cons spec specs)
  obtain sz wd h where s: "spec = (sz, wd, h)" by (metis prod_cases3)
  have "preserves I (\<lambda>s. make_thumbs P svc i aid d m (spec # specs) thumbs s)"
    unfolding s make_thumbs.simps Let_def by (intro keep Cons)
  then show ?case by simp
qed (simp add: preserves_def)

lemma ProcessUpload_keeps: "preserves I (ProcessUpload P svc e)"
proof -
  have "preserves I (processUpload P svc e)"
    unfolding processUpload_def [abs_def] Let_def by (intro keep make_thumbs_keeps)
  then show ?thesis unfolding ProcessUpload_def [abs_def] by (intro keep)
qed

lemma ProcessDelete_keeps: "preserves I (ProcessDelete P svc d)"
  unfolding ProcessDelete_def [abs_def] by (intro keep)

lemma RecoverStuck_keeps: "preserves I (RecoverStuck P svc)"
  unfolding RecoverStuck_def [abs_def] by (intro keep for_first_preserves ProcessUpload_keeps)

lemmas service_keeps = Upload_keeps read_keeps Delete_keeps FlushOutbox_keeps RecoverStuck_keeps
  ProcessUpload_keeps ProcessDelete_keeps

lemma handlers_keep:
  assumes "w_svc w = svc"
  shows "preserves I (handleUpload P w m)" "preserves I (handleDelete P w m)"
  unfolding handleUpload_def [abs_def] handleDelete_def [abs_def] Let_def assms
  by (intro preserving service_keeps)+

lemma svc_step_keeps: "svc_step P svc s t \<Longrightarrow> I s \<Longrightarrow> I t"
  by (induction rule: svc_step.induct) (erule preservesD [rotated 2], rule service_keeps, assumption)+

end

section \<open>The program\<close>

locale outside_frame =
  fixes W :: "('e, 'i) world" and J :: "'e \<Rightarrow> bool"
  assumes J_packages: "preserves J (w_uuid_New W)" "preserves J (w_time_Now W)" "preserves J (w_wait W n)"
    and J_pg: "preserves J (pg_reply (w_pg W))"
    and J_minio: "preserves J (minio_PutObject (w_minio W) b k ct d)" "preserves J (minio_GetObject (w_minio W) b k)"
      "preserves J (minio_Stat (w_minio W) h)" "preserves J (minio_ReadAll (w_minio W) h)"
      "preserves J (minio_RemoveObject (w_minio W) b k)"
    and J_kafka: "preserves J (kafka_WriteMessages (w_kafka W) t m)" "preserves J (kafka_FetchMessage (w_kafka W) t)"
      "preserves J (kafka_CommitMessages (w_kafka W) t m)" "preserves J (kafka_time_Now (w_kafka W))"
begin

abbreviation JS :: "'e sys \<Rightarrow> bool" where "JS s \<equiv> J (outside s)"

lemma lift_keeps:
  assumes "preserves J m"
  shows "preserves JS (lift m)"
proof (rule preservesI)
  fix s r t assume s: "JS s" "lift m s = (r, t)"
  obtain r1 e where m: "m (outside s) = (r1, e)" by fastforce
  from preservesD [OF assms s(1) m] show "JS t" using s(2) m by (auto simp: lift_def)
qed

lemma pg_keeps:
  assumes "JS s" "pg_reply (w_pg W) (outside s) = (rep, e)"
  shows "J e"
  by (rule preservesD [OF J_pg assms])

lemma call_keeps: "preserves JS (call (w_pg W) st)" "preserves JS (fetch_all (w_pg W) rows)"
proof -
  show "preserves JS (call (w_pg W) st)"
  proof (rule preservesI)
    fix s r t assume s: "JS s" "call (w_pg W) st s = (r, t)"
    obtain rep e where p: "pg_reply (w_pg W) (outside s) = (rep, e)" by fastforce
    from pg_keeps [OF s(1) p] show "JS t" using s(2) p by (auto simp: call_def split: prod.splits reply.splits)
  qed
  show "preserves JS (fetch_all (w_pg W) rows)"
  proof (rule preservesI)
    fix s r t assume s: "JS s" "fetch_all (w_pg W) rows s = (r, t)"
    obtain rep e where p: "pg_reply (w_pg W) (outside s) = (rep, e)" by fastforce
    from pg_keeps [OF s(1) p] show "JS t" using s(2) p by (auto simp: fetch_all_def split: reply.splits)
  qed
qed

lemma withTx_keeps:
  assumes "\<And>t. preserves JS (fn t)"
  shows "preserves JS (withTx (w_pg W) fn)"
proof (rule preservesI)
  fix s r u assume s: "JS s" "withTx (w_pg W) fn s = (r, u)"
  obtain r1 s1 where 1: "call (w_pg W) (\<lambda>t d. (Inr t, d)) s = (r1, s1)" by fastforce
  have j1: "JS s1" by (rule preservesD [OF call_keeps(1) s(1) 1])
  show "JS u"
  proof (cases r1)
    case (Inr t)
    obtain r2 s2 where 2: "fn t s1 = (r2, s2)" by fastforce
    have j2: "JS s2" by (rule preservesD [OF assms j1 2])
    obtain rep e where p: "pg_reply (w_pg W) (outside s2) = (rep, e)" by fastforce
    show ?thesis using s(2) 1 2 p Inr j2 pg_keeps [OF j2 p] by (auto simp: withTx_def split: sum.splits reply.splits)
  qed (use s 1 j1 in \<open>simp add: withTx_def\<close>)
qed

lemma pg_repo_keeps:
  "preserves JS (repo_CreateWithOutbox (w_pg W) a ev)" "preserves JS (repo_GetByID (w_pg W) i)"
  "preserves JS (repo_GetLatestByUserID (w_pg W) u)" "preserves JS (repo_ListByUserID (w_pg W) u)"
  "preserves JS (repo_SoftDelete (w_pg W) i u ev)" "preserves JS (repo_MarkProcessing (w_pg W) i)"
  "preserves JS (repo_CompleteProcessing (w_pg W) i th wd h)" "preserves JS (repo_FailProcessing (w_pg W) i)"
  "preserves JS (repo_ListUnpublished (w_pg W) m)" "preserves JS (repo_MarkOutboxPublished (w_pg W) m)"
  "preserves JS (repo_ListStuckUploads (w_pg W) m)"
proof -
  have i: "preserves JS (insertOutbox (w_pg W) t ev)" for t
    unfolding insertOutbox_def [abs_def] by (intro preserving call_keeps)
  note tx = withTx_keeps i call_keeps preserving
  show "preserves JS (repo_CreateWithOutbox (w_pg W) a ev)" unfolding repo_CreateWithOutbox_def by (intro tx)
  show "preserves JS (repo_SoftDelete (w_pg W) i u ev)" unfolding repo_SoftDelete_def by (intro tx)
qed (unfold repo_GetByID_def [abs_def] repo_GetLatestByUserID_def [abs_def] repo_ListByUserID_def [abs_def]
    repo_MarkProcessing_def [abs_def] repo_CompleteProcessing_def [abs_def] repo_FailProcessing_def [abs_def]
    repo_ListUnpublished_def [abs_def] repo_MarkOutboxPublished_def [abs_def] repo_ListStuckUploads_def [abs_def] Let_def,
  (intro call_keeps preserving)+)

lemma store_step_keeps: "store_step (AvatarRepository (w_pg W)) s t \<Longrightarrow> JS s \<Longrightarrow> JS t"
  by (induction rule: store_step.induct)
    (simp_all add: AvatarRepository_def, (erule preservesD [rotated 2], rule pg_repo_keeps, assumption)+)

lemma s3_keeps:
  "preserves J (S3_Upload \<lparr>s3_client = w_minio W, s3_bucket = b\<rparr> k ct d)"
  "preserves J (S3_Download \<lparr>s3_client = w_minio W, s3_bucket = b\<rparr> k)"
  "preserves J (S3_Delete \<lparr>s3_client = w_minio W, s3_bucket = b\<rparr> ks)"
proof -
  have "preserves J (remove_one \<lparr>s3_client = w_minio W, s3_bucket = b\<rparr> k)" for k
    unfolding remove_one_def [abs_def] Let_def S3.simps by (intro preserving J_minio)
  then show "preserves J (S3_Delete \<lparr>s3_client = w_minio W, s3_bucket = b\<rparr> ks)"
    unfolding S3_Delete_def by (rule for_err_preserves)
qed (unfold S3_Upload_def [abs_def] S3_Download_def [abs_def] Let_def S3.simps, (intro preserving J_minio)+)

lemma observe_JS: "JS s \<Longrightarrow> JS (observe_sys x s)"
  by simp

lemma writeJSON_keeps: "preserves JS (writeJSON (w_kafka W) topic key eid pay)"
proof -
  have r: "preserves JS (\<lambda>s. (r, observe_sys x s))" for r x by (simp add: preserves_def)
  have w: "preserves JS (\<lambda>s. f (event_headers (w_kafka W) (outside s) eid) s)"
    if "\<And>h. preserves JS (f h)" for f :: "header list \<Rightarrow> ('e sys, goerr option) op"
    using that by (simp add: preserves_def)
  show ?thesis unfolding writeJSON_def [abs_def] Let_def
    by (rule w, intro preserving r lift_keeps J_kafka)
qed

end

sublocale outside_frame \<subseteq> service_frame "app_packages W" "app_service W cfg" "\<lambda>s. J (outside s)" for cfg
proof
  show "JS t" if "store_step (svc_repo (app_service W cfg)) s t" "JS s" for s t
    using store_step_keeps that by simp
qed (simp_all add: S3_store_def Producer_publisher_def Producer_PublishUpload_def Producer_PublishDelete_def lift_keeps
    s3_keeps writeJSON_keeps app_packages_def J_packages)

end
