(* ===== verification/Completion.thy ===== *)
theory Completion
  imports Liveness End_To_End Service_Frame
begin

text \<open>
  A picture is completed.  \<open>calm_program\<close> adds to a calm world an object store that answers: then the
  upload of a picture, a flush and the handling of its message do not only do the right thing when they
  succeed (\<open>End_To_End\<close>), they succeed.
\<close>

section \<open>Plain text\<close>

text \<open>Strings that \<open>json.Marshal\<close> and a \<open>jsonb\<close> column take as they are.\<close>

abbreviation plain_text :: "string \<Rightarrow> bool" where
  "plain_text s \<equiv> ascii s \<and> CHR 0x00 \<notin> set s"

lemma no_nul_thumbs:
  assumes "\<And>k v. (k, v) \<in> set m \<Longrightarrow> plain_text k \<and> plain_text v"
  shows "no_nul (ThumbnailKeysJSON (Some m))"
  using assms by (auto simp: ThumbnailKeysJSON_def marshal_strmap_def marshal_string_def list_all_iff)

lemma update_entries: "set (AList.update k v m) \<subseteq> insert (k, v) (set m)"
  by (induction m) auto

lemma plain_ExtForMIME: "plain_text (ExtForMIME mime)"
  by (simp add: ExtForMIME_def)

lemma plain_specs: "(sz, w, h) \<in> set thumb_specs \<Longrightarrow> plain_text sz"
  by (auto simp: thumb_specs_def size_defs)

lemma int4_dims:
  assumes "Inspect c data = Inr info"
  shows "int4 (info_Width info)" "int4 (info_Height info)"
proof -
  have d: "0 < info_Width info" "0 < info_Height info" "info_Width info * info_Height info \<le> 20000000"
    using assms checkPixels_None by (auto simp: Inspect_def split: sum.splits prod.splits option.splits)
  have "info_Width info \<le> 20000000" "info_Height info \<le> 20000000"
    using d by (smt (verit) mult_le_cancel_left1 mult_le_cancel_right1)+
  then show "int4 (info_Width info)" "int4 (info_Height info)" using d(1,2) by (simp_all add: int4_def)
qed

section \<open>A program whose outside answers\<close>

locale calm_program =
  calm_world W cfg objects logs calm + outside_frame W calm
  for W :: "('e, 'i) world" and cfg :: Config
    and objects :: "'e \<Rightarrow> string \<Rightarrow> string \<Rightarrow> (string \<times> string) option"
    and logs :: "'e \<Rightarrow> string \<Rightarrow> message list" and calm :: "'e \<Rightarrow> bool" +
  assumes put_answers: "calm e \<Longrightarrow> minio_PutObject (w_minio W) b k ct d e = (r, e') \<Longrightarrow> r = None"
    and get_answers: "calm e \<Longrightarrow> minio_GetObject (w_minio W) b k e = (rh, e') \<Longrightarrow> \<not> isl rh"
    and stat_answers: "calm e \<Longrightarrow> objects e b k \<noteq> None \<Longrightarrow> minio_Stat (w_minio W) (b, k) e = (rs, e') \<Longrightarrow> \<not> isl rs"
    and read_answers: "calm e \<Longrightarrow> objects e b k \<noteq> None \<Longrightarrow> minio_ReadAll (w_minio W) (b, k) e = (rs, e') \<Longrightarrow> \<not> isl rs"
    and uuid_printable: "CHR 0x00 \<notin> set (w_uuid_String W i)"
begin

lemma calm_step: "store_step (AvatarRepository (w_pg W)) s t \<Longrightarrow> calm (outside s) \<Longrightarrow> calm (outside t)"
  using store_step_keeps by blast

subsection \<open>The database\<close>

lemma get_succeeds:
  assumes "GetByID (svc_repo (app_service W cfg)) i s = (r, t)" "wf_db (tables s)" "calm (outside s)"
    "db_live (tables s) i = Some a"
  shows "r = Inr a"
proof -
  obtain r1 s1 where c: "call (w_pg W) (select_by_id i) s = (r1, s1)" by fastforce
  obtain row where row: "lookup_row (tables s) i = Some row" "a = row_avatar row"
    using assms(4) by (auto simp: db_live_def)
  have "distinct (map c_id (t_avatars (tables s)))" using assms(2) by (simp add: wf_db_def)
  from lookup_row_filter [OF this, of i "\<lambda>_. True"] have "r1 = Inr row"
    using call_calm [OF c assms(3)] row(1) by (auto simp: select_by_id_def first_row_def)
  then show ?thesis using assms(1) c row(2) by (simp add: AvatarRepository_def repo_GetByID_def scanAvatar_def)
qed

lemma mark_succeeds:
  assumes "MarkProcessing (svc_repo (app_service W cfg)) i s = (r, t)" "wf_db (tables s)" "calm (outside s)"
    "db_live (tables s) i = Some a" "av_ProcessingStatus a = ProcessingPending"
  shows "r = Inr True"
proof -
  obtain r1 s1 where c: "call (w_pg W) (update_mark_processing i) s = (r1, s1)" by fastforce
  obtain row where row: "lookup_row (tables s) i = Some row" "c_processing_status row = ProcessingPending"
    using assms(4,5) by (auto simp: db_live_def row_avatar_def)
  then have "takeable now row" for now by (simp add: takeable_def)
  then have "r1 = Inr i"
    using call_calm [OF c assms(3)] row(1) by (auto simp: mark_result [OF assms(2)])
  then show ?thesis using assms(1) c by (simp add: AvatarRepository_def repo_MarkProcessing_def)
qed

lemma complete_succeeds:
  assumes "CompleteProcessing (svc_repo (app_service W cfg)) i (Some m) w h s = (r, t)" "wf_db (tables s)"
    "calm (outside s)" "db_live (tables s) i \<noteq> None" "int4 w" "int4 h" "no_nul (ThumbnailKeysJSON (Some m))"
  shows "r = None"
proof -
  obtain r1 s1 where c: "call (w_pg W) (update_complete i (ThumbnailKeysJSON (Some m)) w h) s = (r1, s1)" by fastforce
  obtain row where row: "lookup_row (tables s) i = Some row" using assms(4) by (auto simp: db_live_def)
  have "distinct (map c_id (t_avatars (tables s)))" using assms(2) by (simp add: wf_db_def)
  from lookup_row_filter [OF this, of i "\<lambda>_. True"] have "r1 = Inr 1"
    using call_calm [OF c assms(3)] row assms(5-7) by (auto simp: update_complete_def Let_def)
  then show ?thesis using assms(1) c by (simp add: AvatarRepository_def repo_CompleteProcessing_def)
qed

subsection \<open>The object store\<close>

lemma download_succeeds:
  assumes "os_Download (svc_objects (app_service W cfg)) k s = (r, t)" "calm (outside s)"
    "objects (outside s) (S3Bucket cfg) k = Some (ct, d)"
  shows "r = Inr (d, ct) \<and> tables t = tables s"
proof -
  let ?b = "S3Bucket cfg"
  obtain rh e1 where g: "minio_GetObject (w_minio W) ?b k (outside s) = (rh, e1)" by fastforce
  obtain rs e2 where st: "minio_Stat (w_minio W) (?b, k) e1 = (rs, e2)" by fastforce
  obtain rd e3 where rd: "minio_ReadAll (w_minio W) (?b, k) e2 = (rd, e3)" by fastforce
  have c1: "calm e1" by (rule preservesD [OF J_minio(2) assms(2) g])
  have c2: "calm e2" by (rule preservesD [OF J_minio(3) c1 st])
  have o1: "objects e1 ?b k = Some (ct, d)" using s3.handle_law [OF g] assms(3) by simp
  have o2: "objects e2 ?b k = Some (ct, d)" using s3.stat_law [OF st] o1 by simp
  have "rh = Inr (?b, k)" using get_answers [OF assms(2) g] s3.handle_law [OF g] by (cases rh) auto
  moreover have "rs = Inr ct" using stat_answers [OF c1 _ st] s3.stat_law [OF st] o1 by (cases rs) auto
  moreover have "rd = Inr d" using read_answers [OF c2 _ rd] s3.read_law [OF rd] o2 by (cases rd) auto
  ultimately show ?thesis using assms(1) g st rd by (auto simp: S3_store_def lift_def S3_Download_def)
qed

lemma put_succeeds:
  assumes "os_Upload (svc_objects (app_service W cfg)) k ct d s = (r, t)" "calm (outside s)"
  shows "r = None \<and> calm (outside t) \<and> tables t = tables s"
proof -
  obtain e where e: "S3_Upload \<lparr>s3_client = w_minio W, s3_bucket = S3Bucket cfg\<rparr> k ct d (outside s) = (r, e)"
    "t = s\<lparr>outside := e\<rparr>"
    using assms(1) by (auto simp: S3_store_def elim!: lift_cases)
  have "calm e" by (rule preservesD [OF s3_keeps(1) assms(2) e(1)])
  moreover have "r = None"
    using e(1) by (auto simp: S3_Upload_def Let_def dest: put_answers [OF assms(2)] split: prod.splits option.splits)
  ultimately show ?thesis using e(2) by simp
qed

subsection \<open>The thumbnails\<close>

lemma thumbs_succeed:
  assumes "\<And>sz w h. (sz, w, h) \<in> set specs \<Longrightarrow>
      plain_text sz \<and> (\<exists>r. MakeThumbnail (w_codecs W) data w h (FormatFromMIME mime) = Inr r)"
    and "\<And>k v. (k, v) \<in> set thumbs \<Longrightarrow> plain_text k \<and> plain_text v" "plain_text aid" "calm (outside s)"
  shows "\<exists>m t. make_thumbs (app_packages W) (app_service W cfg) i aid data mime specs thumbs s = (Inr m, t)
    \<and> calm (outside t) \<and> tables t = tables s \<and> no_nul (ThumbnailKeysJSON (Some m))"
  using assms
proof (induction specs arbitrary: thumbs s)
  case Nil
  then show ?case by (auto intro!: no_nul_thumbs)
next
  case (Cons spec specs)
  obtain sz w h where spec: "spec = (sz, w, h)" by (metis prod_cases3)
  obtain body mt where b: "MakeThumbnail (w_codecs W) data w h (FormatFromMIME mime) = Inr (body, mt)" "plain_text sz"
    using Cons.prems(1) [of sz w h] spec by (metis list.set_intros(1) prod.exhaust)
  define key where "key = ThumbnailObjectKey aid sz (ExtForMIME mt)"
  obtain r1 s1 where p: "os_Upload (svc_objects (app_service W cfg)) key mt body s = (r1, s1)" by fastforce
  note p1 = put_succeeds [OF p Cons.prems(4)]
  have "plain_text key" using b(2) Cons.prems(3) plain_ExtForMIME by (simp add: key_def ThumbnailObjectKey_def)
  then have entries: "plain_text k \<and> plain_text v" if "(k, v) \<in> set (AList.update sz key thumbs)" for k v
    using that update_entries [of sz key thumbs] Cons.prems(2) b(2) by blast
  have "make_thumbs (app_packages W) (app_service W cfg) i aid data mime (spec # specs) thumbs s
      = make_thumbs (app_packages W) (app_service W cfg) i aid data mime specs (AList.update sz key thumbs) s1"
    using b(1) p p1 by (simp add: spec key_def Let_def app_packages_def del: app_service_sel)
  moreover have "\<exists>m t. make_thumbs (app_packages W) (app_service W cfg) i aid data mime specs (AList.update sz key thumbs) s1 = (Inr m, t)
    \<and> calm (outside t) \<and> tables t = tables s1 \<and> no_nul (ThumbnailKeysJSON (Some m))"
    by (rule Cons.IH [OF _ entries Cons.prems(3)], rule Cons.prems(1)) (use p1 in simp_all)
  ultimately show ?case using p1 by simp
qed

lemma process_succeeds:
  assumes "uuid_Parse (app_packages W) (ue_AvatarID ev) = Inr i" "plain_text (ue_AvatarID ev)" "ue_S3Key ev \<noteq> []"
    and s: "wf_db (tables s)" "calm (outside s)" "db_live (tables s) i = Some a" "av_ProcessingStatus a = ProcessingPending"
    and "bucket objects cfg s (ue_S3Key ev) = Some (ct, data)" "Inspect (w_codecs W) data = Inr info"
    and "\<And>sz w h. (sz, w, h) \<in> set thumb_specs \<Longrightarrow>
      \<exists>r. MakeThumbnail (w_codecs W) data w h (FormatFromMIME (info_MIME info)) = Inr r"
  shows "\<exists>t. ProcessUpload (app_packages W) (app_service W cfg) ev s = (None, t)"
proof -
  let ?P = "app_packages W" and ?svc = "app_service W cfg"
  obtain rg s1 where g: "GetByID (svc_repo ?svc) i s = (rg, s1)" by fastforce
  have rg: "rg = Inr a" by (rule get_succeeds [OF g s(1-3)])
  have g1: "wf_db (tables s1)" "db_live (tables s1) = db_live (tables s)" "calm (outside s1)" "bucket objects cfg s1 = bucket objects cfg s"
    using app.get_works [OF g s(1)] calm_step [OF step_get s(2)] g by (simp_all add: app.works_on_def)
  obtain rm s2 where m: "MarkProcessing (svc_repo ?svc) i s1 = (rm, s2)" by fastforce
  have rm: "rm = Inr True" by (rule mark_succeeds [OF m g1(1,3)]) (use g1 s in simp_all)
  have m2: "wf_db (tables s2)" "db_live (tables s2) i \<noteq> None" "calm (outside s2)" "bucket objects cfg s2 = bucket objects cfg s"
    using app.mark_works [OF m g1(1)] app.mark_law [OF m g1(1)] calm_step [OF step_mark g1(3)] m g1(4) rm
    by (auto simp: app.works_on_def)
  obtain rd s3 where d: "os_Download (svc_objects ?svc) (ue_S3Key ev) s2 = (rd, s3)" by fastforce
  have d3: "rd = Inr (data, ct)" "tables s3 = tables s2"
    using download_succeeds [OF d m2(3)] m2(4) assms(8) by auto
  have c3: "calm (outside s3)" using preservesD [OF objects_keep(2) m2(3) d] .
  obtain tm s4 where t: "make_thumbs ?P ?svc i (ue_AvatarID ev) data (info_MIME info) thumb_specs [] s3 = (Inr tm, s4)"
    "calm (outside s4)" "tables s4 = tables s3" "no_nul (ThumbnailKeysJSON (Some tm))"
    using thumbs_succeed [OF _ _ assms(2) c3, of thumb_specs data "info_MIME info" "[]" i] assms(10) plain_specs by auto
  obtain rc s5 where c: "CompleteProcessing (svc_repo ?svc) i (Some tm) (info_Width info) (info_Height info) s4 = (rc, s5)" by fastforce
  have "rc = None"
    by (rule complete_succeeds [OF c _ t(2) _ int4_dims [OF assms(9)] t(4)]) (use t(3) d3(2) m2 in simp_all)
  moreover have "av_ProcessingStatus a \<noteq> ProcessingCompleted"
    using s(4) by (simp add: ProcessingPending_def ProcessingCompleted_def)
  moreover have "codecs ?P = w_codecs W" by (simp add: app_packages_def)
  ultimately have "processUpload ?P ?svc ev s = (None, s5)"
    using assms(1,3,9) g rg m rm d d3(1) t(1) c by (simp add: processUpload_def del: app_service_sel)
  then show ?thesis by (simp add: ProcessUpload_def)
qed

lemma handling_succeeds:
  assumes "m_Value msg = Some (marshal_upload e)" "ue_AvatarID e = uuid_String (app_packages W) i"
    and "valid_utf8 (ue_S3Key e)" "ue_S3Key e \<noteq> []"
    and "wf_db (tables s)" "calm (outside s)" "db_live (tables s) i = Some a" "av_ProcessingStatus a = ProcessingPending"
    and "bucket objects cfg s (ue_S3Key e) = Some (ct, data)" "Inspect (w_codecs W) data = Inr info"
    and "\<And>sz w h. (sz, w, h) \<in> set thumb_specs \<Longrightarrow>
      \<exists>r. MakeThumbnail (w_codecs W) data w h (FormatFromMIME (info_MIME info)) = Inr r"
  shows "\<exists>t. handleUpload (app_packages W) (app_worker W cfg) msg s = (None, t)"
proof -
  have id: "uuid_Parse (app_packages W) (ue_AvatarID e) = Inr i" "plain_text (ue_AvatarID e)"
    using app.uuid_facts(3,4) uuid_printable by (simp_all add: assms(2)) (simp add: app_packages_def)
  obtain ev where ev: "handleUpload (app_packages W) (app_worker W cfg) msg s = ProcessUpload (app_packages W) (app_service W cfg) ev s"
    "ue_AvatarID ev = ue_AvatarID e" "ue_S3Key ev = ue_S3Key e"
    using assms(3) id(2) unfolding handleUpload_def assms(1) unmarshal_marshal_upload
    by (auto simp: Let_def valid_utf8_def app_worker_def NewWorker_def)
  show ?thesis
    unfolding ev(1) by (rule process_succeeds [where i = i]) (use assms(4-) id ev(2,3) in simp_all)
qed

lemma completes_on_its_way:
  assumes "app.on_its_way a data s2 e info a1" "valid_utf8 (av_S3Key a)" "av_S3Key a \<noteq> []"
    and "m_Value msg = Some (marshal_upload e)" "wf_db (tables s)" "calm (outside s)"
    and "db_live (tables s) (av_ID a) = db_live (tables s2) (av_ID a)"
    and "bucket objects cfg s (av_S3Key a) = bucket objects cfg s2 (av_S3Key a)"
    and "\<And>sz w h. (sz, w, h) \<in> set thumb_specs \<Longrightarrow>
      \<exists>r. MakeThumbnail (w_codecs W) data w h (FormatFromMIME (info_MIME info)) = Inr r"
  shows "\<exists>t a'. handleUpload (app_packages W) (app_worker W cfg) msg s = (None, t) \<and> db_live (tables t) (av_ID a) = Some a'
    \<and> same_avatar a1 a' \<and> processed (w_codecs W) (w_uuid_String W (av_ID a)) data (bucket objects cfg t) a'"
proof -
  note way = assms(1) [unfolded app.on_its_way_def]
  have P: "codecs (app_packages W) = w_codecs W" "uuid_String (app_packages W) = w_uuid_String W"
    by (simp_all add: app_packages_def)
  obtain t where t: "handleUpload (app_packages W) (app_worker W cfg) msg s = (None, t)"
    using handling_succeeds [OF assms(4), of "av_ID a" s a1 "info_MIME info" data info] way assms(2,3,5-9)
    by (auto simp: valid_utf8_def P)
  have "w_svc (app_worker W cfg) = app_service W cfg" by (simp add: app_worker_def NewWorker_def)
  from app.handled_on_its_way [OF assms(1-4) this assms(5,7,8) t] show ?thesis using t by (auto simp: P)
qed

lemma flush_completes:
  assumes "app.inv s" "calm (outside s)" "Upload (app_packages W) (app_service W cfg) u name data s = (Inr a, s1)"
    and "valid_utf8 (av_S3Key a)" "length (db_unpub (tables s1)) \<le> 50" "Inspect (w_codecs W) data = Inr info"
    and thumbs: "\<And>sz w h. (sz, w, h) \<in> set thumb_specs \<Longrightarrow>
      \<exists>r. MakeThumbnail (w_codecs W) data w h (FormatFromMIME (info_MIME info)) = Inr r"
  obtains s2 msg where "FlushOutbox (app_packages W) (app_service W cfg) s1 = (None, s2)" "calm (outside s2)" "wf_db (tables s2)"
    "msg \<in> set (logs (outside s2) (TopicUpload cfg))"
    "\<And>s3. calm (outside s3) \<Longrightarrow> wf_db (tables s3) \<Longrightarrow> db_live (tables s3) (av_ID a) = db_live (tables s2) (av_ID a) \<Longrightarrow>
      bucket objects cfg s3 (av_S3Key a) = bucket objects cfg s2 (av_S3Key a) \<Longrightarrow>
      \<exists>t a'. handleUpload (app_packages W) (app_worker W cfg) msg s3 = (None, t) \<and> db_live (tables t) (av_ID a) = Some a'
        \<and> rel_option same_avatar (db_live (tables s1) (av_ID a)) (Some a')
        \<and> processed (w_codecs W) (w_uuid_String W (av_ID a)) data (bucket objects cfg t) a'"
proof -
  have inv1: "app.inv s1" using app.inv_step [OF svc_Upload [OF assms(3)]] assms(1) by blast
  have calm1: "calm (outside s1)" using preservesD [OF Upload_keeps assms(2,3)] .
  obtain rf s2 where f: "FlushOutbox (app_packages W) (app_service W cfg) s1 = (rf, s2)" by fastforce
  have f2: "rf = None" "calm (outside s2)" using flush_calm [OF f inv1 calm1] by simp_all
  note f' = f [unfolded f2(1)]
  have key: "av_S3Key a \<noteq> []" using app.stored_key [OF assms(3)] assms(1) by (simp add: app.inv_def)
  note sent = app.uploaded_message [OF assms(1,3,5) f']
  then obtain e info' a1 where way: "app.on_its_way a data s2 e info' a1" by blast
  note d = way [unfolded app.on_its_way_def]
  then have info: "info' = info" using assms(6) by (simp add: app_packages_def)
  obtain msg where msg: "msg \<in> set (logs (outside s2) (TopicUpload cfg))" "m_Value msg = Some (marshal_upload e)"
    using d by auto
  have a1: "db_live (tables s1) (av_ID a) = Some a1" and wf: "wf_db (tables s2)" using sent d by (simp_all add: app.inv_def)
  show thesis
    by (rule that [OF f' f2(2) wf msg(1)])
      (use completes_on_its_way [OF way [unfolded info] assms(4) key msg(2) _ _ _ _ thumbs] a1 in auto)
qed

end

section \<open>The simulated world without failures\<close>

abbreviation sim_calm :: "sim \<Rightarrow> bool" where
  "sim_calm e \<equiv> sim_pg e = [] \<and> sim_s3 e = [] \<and> sim_kafka e = []"

interpretation calm_run: calm_program sim_world sim_config sim_objects sim_logs sim_calm
  by unfold_locales
    (auto simp: sim_world_def sim_driver_def sim_kafka_client_def sim_minio_def sim_get_def scripted_def next_reply_def
      put_kafka_def put_s3_def preserves_def split: if_splits option.splits)

section \<open>From the upload to the thumbnails, without failures\<close>

text \<open>
  C5. Completion: however the service failed before, once the outside answers, a picture that is accepted
  while at most fifty outbox entries wait, this one included, and under a key that is valid UTF-8, is in the topic
  after one flush, which succeeds; and whenever a worker
  takes the message from there, in any state in which the outside answers and the avatar's row and its picture are
  still what they were after the flush, handling it succeeds and completes the avatar, provided that the codecs can make the
  thumbnails.  So no call of the code fails for a reason of its own: the identifiers parse, the keys and
  sizes fit their columns, the lease is free.
\<close>

theorem upload_completes:
  assumes "calm_program W cfg objects logs calm" "tables s0 = empty_db"
    and "(svc_step (app_packages W) (app_service W cfg))\<^sup>*\<^sup>* s0 s" "calm (outside s)"
    and "Upload (app_packages W) (app_service W cfg) u name data s = (Inr a, s1)" "valid_utf8 (av_S3Key a)"
    and "length (db_unpub (tables s1)) \<le> 50"
    and "Inspect (w_codecs W) data = Inr info"
    and "\<forall>(sz, w, h) \<in> set thumb_specs. \<exists>r. MakeThumbnail (w_codecs W) data w h (FormatFromMIME (info_MIME info)) = Inr r"
  shows "\<exists>s2. FlushOutbox (app_packages W) (app_service W cfg) s1 = (None, s2) \<and> calm (outside s2) \<and> wf_db (tables s2)
    \<and> (\<exists>msg \<in> set (logs (outside s2) (TopicUpload cfg)). \<forall>s3.
        calm (outside s3) \<and> wf_db (tables s3) \<and> db_live (tables s3) (av_ID a) = db_live (tables s2) (av_ID a)
        \<and> bucket objects cfg s3 (av_S3Key a) = bucket objects cfg s2 (av_S3Key a)
        \<longrightarrow> (\<exists>t a'. handleUpload (app_packages W) (app_worker W cfg) msg s3 = (None, t)
              \<and> db_live (tables t) (av_ID a) = Some a' \<and> rel_option same_avatar (db_live (tables s1) (av_ID a)) (Some a')
              \<and> processed (w_codecs W) (w_uuid_String W (av_ID a)) data (bucket objects cfg t) a'))"
proof -
  have w: "calm_world W cfg objects logs calm" using assms(1) by (simp add: calm_program_def)
  then have ow: "outside_world W cfg objects logs" by (simp add: calm_world_def)
  note inv = avatar_backend.inv_reachable [OF outside_world.backend [OF ow] assms(3) outside_world.empty_inv [OF ow assms(2)]]
  show ?thesis
    by (rule calm_program.flush_completes [OF assms(1) inv assms(4-8)]) (use assms(9) in blast)+
qed

theorem upload_completes_witness:
  "\<exists>msg \<in> set (sim_logs (outside sys2) (TopicUpload sim_config)). \<exists>t a'.
     handleUpload (app_packages sim_world) (app_worker sim_world sim_config) msg sys2 = (None, t)
     \<and> db_live (tables t) 1 = Some a' \<and> processed (w_codecs sim_world) (w_uuid_String sim_world 1) a_png (bucket sim_objects sim_config t) a'"
proof -
  have s: "tables sys_start = empty_db" "sim_calm (outside sys_start)" "valid_utf8 (av_S3Key run_avatar)"
    "length (db_unpub (tables sys1)) \<le> 50"
    by (simp_all add: sys_start_def sim_start_def sys1_def db_unpub_def run_avatar_def valid_utf8_def key_ascii)
  have i: "Inspect (w_codecs sim_world) a_png = Inr \<lparr>info_MIME = MIMEPNG, info_Ext = ''.png'', info_Width = 640, info_Height = 480\<rparr>"
    using inspect_png by (simp add: sim_world_def)
  have t: "\<exists>r. MakeThumbnail (w_codecs sim_world) a_png w h (FormatFromMIME
      (info_MIME \<lparr>info_MIME = MIMEPNG, info_Ext = ''.png'', info_Width = 640, info_Height = 480\<rparr>)) = Inr r" for w h
    using thumb_png by (simp add: sim_world_def MIMEPNG_def)
  from upload_completes [OF calm_run.calm_program_axioms s(1) rtranclp.rtrancl_refl s(2)
      run_Upload [unfolded sim_packages_def sim_service_def] s(3,4) i] t run_Flush [unfolded sim_packages_def sim_service_def]
  obtain msg where "msg \<in> set (sim_logs (outside sys2) (TopicUpload sim_config))" "sim_calm (outside sys2)" "wf_db (tables sys2)"
    and "\<And>s3. sim_calm (outside s3) \<Longrightarrow> wf_db (tables s3) \<Longrightarrow> db_live (tables s3) (av_ID run_avatar) = db_live (tables sys2) (av_ID run_avatar) \<Longrightarrow>
      bucket sim_objects sim_config s3 (av_S3Key run_avatar) = bucket sim_objects sim_config sys2 (av_S3Key run_avatar) \<Longrightarrow>
      \<exists>t a'. handleUpload (app_packages sim_world) (app_worker sim_world sim_config) msg s3 = (None, t)
        \<and> db_live (tables t) (av_ID run_avatar) = Some a' \<and> rel_option same_avatar (db_live (tables sys1) (av_ID run_avatar)) (Some a')
        \<and> processed (w_codecs sim_world) (w_uuid_String sim_world (av_ID run_avatar)) a_png (bucket sim_objects sim_config t) a'"
    by fastforce
  from this(1) this(4) [OF this(2,3) refl refl] show ?thesis by (auto simp: run_avatar_def)
qed

end
