(* ===== verification/Go_Time.thy ===== *)
theory Go_Time
  imports Go_Strings
begin

text \<open>
  \<open>time.Time.UTC().Format("2006-01-02T15:04:05Z")\<close>, the one layout the HTTP handlers use.  An instant
  is a number of microseconds since 1970; the day is turned into a date of the proleptic Gregorian
  calendar by counting the days of eras of 400 years that begin in March.
\<close>

definition civil :: "int \<Rightarrow> int \<times> int \<times> int" where
  "civil day =
    (let z = day + 719468; era = z div 146097; doe = z mod 146097;
         yoe = (doe - doe div 1460 + doe div 36524 - doe div 146096) div 365;
         doy = doe - (365 * yoe + yoe div 4 - yoe div 100);
         mp = (5 * doy + 2) div 153;
         m = (if mp < 10 then mp + 3 else mp - 9)
     in (yoe + era * 400 + (if m \<le> 2 then 1 else 0), m, doy - (153 * mp + 2) div 5 + 1))"

text \<open>A number with leading zeros up to a width.\<close>

definition zero_pad :: "nat \<Rightarrow> int \<Rightarrow> string" where
  "zero_pad n i =
    (let ds = digits_of (nat \<bar>i\<bar>) in (if i < 0 then ''-'' else []) @ replicate (n - length ds) (CHR ''0'') @ ds)"

definition FormatUTC :: "int \<Rightarrow> string" where
  "FormatUTC t =
    (let secs = t div 1000000; sod = secs mod 86400 in
     (case civil (secs div 86400) of (y, m, d) \<Rightarrow>
        zero_pad 4 y @ ''-'' @ zero_pad 2 m @ ''-'' @ zero_pad 2 d @ ''T'' @
        zero_pad 2 (sod div 3600) @ '':'' @ zero_pad 2 (sod mod 3600 div 60) @ '':'' @ zero_pad 2 (sod mod 60) @ ''Z''))"

end
