(* ===== verification/Http.thy ===== *)
theory Http
  imports Avatar_Service Go_Time
begin

text \<open>
  The vocabulary of \<open>net/http\<close> that the handlers are written with.  A request is what the handlers
  read of it: \<open>rq_Header\<close>, \<open>rq_Query\<close> and \<open>rq_Param\<close> are \<open>r.Header.Get\<close>, \<open>r.URL.Query().Get\<close> and
  \<open>chi.URLParam\<close>, \<open>rq_UserID\<close> is the value under the key of the user id in the context, and
  \<open>rq_Form n m\<close> is what \<open>ParseMultipartForm\<close>, with \<open>m\<close> bytes of memory, makes of the body behind a
  reader that ends it with a \<open>MaxBytesError\<close> after \<open>n\<close> bytes; \<open>fm_Value\<close> is \<open>r.FormValue\<close> after that.  A handler writes to a response and changes the state.
\<close>

section \<open>Requests\<close>

text \<open>An opened file: the bytes that can be read, and the error after them, if any.\<close>

type_synonym upload_file = "string \<times> goerr option"

record form =
  fm_Value :: "string \<Rightarrow> string"
  fm_File :: "string \<Rightarrow> (string \<times> upload_file) result"

record Request =
  rq_Method :: string
  rq_Path :: string
  rq_Header :: "string \<Rightarrow> string"
  rq_RemoteAddr :: string
  rq_Query :: "string \<Rightarrow> string"
  rq_Param :: "string \<Rightarrow> string"
  rq_UserID :: "string option"
  rq_Form :: "int \<Rightarrow> int \<Rightarrow> form result"

text \<open>\<open>io.ReadAll(io.LimitReader(f, n))\<close>.\<close>

definition ReadLimited :: "int \<Rightarrow> upload_file \<Rightarrow> string result" where
  "ReadLimited n f =
    (if n \<le> int (length (fst f)) then Inr (take (nat n) (fst f))
     else (case snd f of None \<Rightarrow> Inr (fst f) | Some err \<Rightarrow> Inl err))"

section \<open>Responses\<close>

text \<open>JSON, with or without a newline at its end; a text of \<open>http.Error\<close>; the bytes of an image.\<close>

datatype content = Json json | Text string | Octets string

text \<open>The status is 0 until it is written; headers that are set later are not sent.\<close>

record Writer =
  wr_Header :: "(string \<times> string) list"
  wr_Status :: int
  wr_Body :: "content list"

definition fresh_writer :: Writer where
  "fresh_writer = \<lparr>wr_Header = [], wr_Status = 0, wr_Body = []\<rparr>"

definition SetHeader :: "string \<Rightarrow> string \<Rightarrow> Writer \<Rightarrow> Writer" where
  "SetHeader k v w = (if wr_Status w \<noteq> 0 then w else w\<lparr>wr_Header := AList.update k v (wr_Header w)\<rparr>)"

definition WriteHeader :: "int \<Rightarrow> Writer \<Rightarrow> Writer" where
  "WriteHeader status w = (if wr_Status w \<noteq> 0 then w else w\<lparr>wr_Status := status\<rparr>)"

definition WriteBody :: "content \<Rightarrow> Writer \<Rightarrow> Writer" where
  "WriteBody c w = (let w = WriteHeader 200 w in w\<lparr>wr_Body := wr_Body w @ [c]\<rparr>)"

definition http_Error :: "string \<Rightarrow> int \<Rightarrow> Writer \<Rightarrow> Writer" where
  "http_Error msg code w =
    WriteBody (Text msg) (WriteHeader code (SetHeader ''X-Content-Type-Options'' ''nosniff''
      (SetHeader ''Content-Type'' ''text/plain; charset=utf-8'' w)))"

lemma writer_simps [simp]:
  "wr_Status (SetHeader k v w) = wr_Status w"
  "wr_Status (WriteHeader n w) = (if wr_Status w = 0 then n else wr_Status w)"
  "wr_Status (WriteBody c w) = (if wr_Status w = 0 then 200 else wr_Status w)"
  "wr_Body (SetHeader k v w) = wr_Body w" "wr_Body (WriteHeader n w) = wr_Body w"
  "wr_Body (WriteBody c w) = wr_Body w @ [c]"
  by (simp_all add: SetHeader_def WriteHeader_def WriteBody_def Let_def)

type_synonym 's handler = "Request \<Rightarrow> Writer \<Rightarrow> ('s, Writer) op"

text \<open>
  Packages around the handlers: the clean-up of the path in \<open>http.Redirect\<close>, the embedded file
  server, \<open>chi\<close> with its middlewares, \<open>cors\<close> and \<open>httprate\<close>, the Prometheus handler, and the route
  pattern that \<open>chi\<close> found for a request.  Each limiter of \<open>httprate\<close> counts for itself: the first
  argument of \<open>hp_LimitBy\<close> tells them apart.
\<close>

record cors_options =
  co_AllowedOrigins :: "string list"
  co_AllowedMethods :: "string list"
  co_AllowedHeaders :: "string list"
  co_ExposedHeaders :: "string list"
  co_AllowCredentials :: bool
  co_MaxAge :: int

record 's route =
  ro_Method :: string
  ro_Pattern :: string
  ro_Handler :: "'s handler"

record 's http_packages =
  hp_Clean :: "string \<Rightarrow> string"
  hp_FileServer :: "string \<Rightarrow> Writer \<Rightarrow> Writer"
  hp_RequestID :: "'s handler \<Rightarrow> 's handler"
  hp_Recoverer :: "'s handler \<Rightarrow> 's handler"
  hp_Timeout :: "int \<Rightarrow> 's handler \<Rightarrow> 's handler"
  hp_cors :: "cors_options \<Rightarrow> 's handler \<Rightarrow> 's handler"
  hp_LimitBy :: "string \<Rightarrow> int \<Rightarrow> int \<Rightarrow> (Request \<Rightarrow> string) \<Rightarrow> 's handler option \<Rightarrow> 's handler \<Rightarrow> 's handler"
  hp_metrics :: "'s handler"
  hp_pattern :: "Request \<Rightarrow> string"
  hp_mux :: "'s route list \<Rightarrow> 's handler"

text \<open>\<open>http.Redirect\<close> with the two status codes in use; only a GET gets a body.\<close>

definition hexEscapeNonASCII :: "string \<Rightarrow> string" where
  "hexEscapeNonASCII s =
    concat (map (\<lambda>c. if of_char c \<ge> (128::nat) then CHR ''%'' # EncodeToString [c] else [c]) s)"

definition htmlEscape :: "string \<Rightarrow> string" where
  "htmlEscape s =
    concat (map (\<lambda>c. if c = CHR ''&'' then ''&amp;'' else if c = CHR ''<'' then ''&lt;''
      else if c = CHR ''>'' then ''&gt;'' else if c = CHR 0x22 then ''&#34;''
      else if c = CHR 0x27 then ''&#39;'' else [c]) s)"

definition StatusText :: "int \<Rightarrow> string" where
  "StatusText code = (if code = 302 then ''Found'' else ''See Other'')"

definition http_Redirect :: "'s http_packages \<Rightarrow> Request \<Rightarrow> string \<Rightarrow> int \<Rightarrow> Writer \<Rightarrow> Writer" where
  "http_Redirect hp r target code w =
    (let url = hp_Clean hp target;
         hadCT = (map_of (wr_Header w) ''Content-Type'' \<noteq> None);
         w = SetHeader ''Location'' (hexEscapeNonASCII url) w;
         w = (if \<not> hadCT \<and> rq_Method r \<in> {''GET'', ''HEAD''} then SetHeader ''Content-Type'' ''text/html; charset=utf-8'' w else w);
         w = WriteHeader code w
     in if \<not> hadCT \<and> rq_Method r = ''GET''
        then WriteBody (Text (''<a href='' @ [CHR 0x22] @ htmlEscape url @ [CHR 0x22] @ ''>'' @ StatusText code @ ''</a>.'')) w
        else w)"

section \<open>Addresses\<close>

text \<open>\<open>net.SplitHostPort\<close>; \<open>None\<close> is its error.\<close>

definition last_colon :: "string \<Rightarrow> (string \<times> string) option" where
  "last_colon s =
    (if CHR '':'' \<in> set s then
       Some (rev (tl (dropWhile (\<lambda>c. c \<noteq> CHR '':'') (rev s))), rev (takeWhile (\<lambda>c. c \<noteq> CHR '':'') (rev s)))
     else None)"

definition SplitHostPort :: "string \<Rightarrow> (string \<times> string) option" where
  "SplitHostPort s =
    (case last_colon s of
       None \<Rightarrow> None
     | Some (before, port) \<Rightarrow>
         if hd s = CHR ''['' then
           (let host = takeWhile (\<lambda>c. c \<noteq> CHR '']'') (tl s); rest = dropWhile (\<lambda>c. c \<noteq> CHR '']'') (tl s) in
            if rest = [] \<or> tl rest \<noteq> CHR '':'' # port then None
            else if CHR ''['' \<in> set (tl s) \<or> CHR '']'' \<in> set (tl rest) then None
            else Some (host, port))
         else if CHR '':'' \<in> set before \<or> CHR ''['' \<in> set s \<or> CHR '']'' \<in> set s then None
         else Some (before, port))"

end
