(* ===== verification/Middleware.thy ===== *)
theory Middleware
  imports Http
begin

text \<open>
  Package \<open>internal/middleware\<close> and the HTTP middleware of \<open>internal/observability/http.go\<close>: handlers
  around a handler.  The rate limiter and CORS are libraries; the code chooses their options.
\<close>

section \<open>Responses (json.go, userid.go)\<close>

text \<open>\<open>json.Marshal\<close> of a map of strings does not fail, so \<open>mustJSON\<close> returns its text.\<close>

definition mustJSON :: "strmap \<Rightarrow> content" where
  "mustJSON v = Json (marshal_strmap v)"

definition mw_writeJSON :: "int \<Rightarrow> strmap \<Rightarrow> Writer \<Rightarrow> Writer" where
  "mw_writeJSON status v w =
    WriteBody (mustJSON v) (WriteHeader status (SetHeader ''Content-Type'' ''application/json'' w))"

section \<open>The user id (userid.go)\<close>

definition HeaderUserID :: string where "HeaderUserID = ''X-User-ID''"

definition WithUserID :: "string \<Rightarrow> Request \<Rightarrow> Request" where
  "WithUserID userID r = r\<lparr>rq_UserID := Some userID\<rparr>"

definition UserIDFrom :: "Request \<Rightarrow> string" where
  "UserIDFrom r = (case rq_UserID r of None \<Rightarrow> [] | Some v \<Rightarrow> v)"

definition UserID :: "'s handler \<Rightarrow> 's handler" where
  "UserID nxt r w s =
    (let userID = rq_Header r HeaderUserID in
     (case ValidateUserID userID of
        Some err \<Rightarrow> (mw_writeJSON 400
          [(''error'', ''Invalid user id''), (''details'', ''X-User-ID header is required'')] w, s)
      | None \<Rightarrow> nxt (WithUserID userID r) w s))"

section \<open>Security (security.go)\<close>

definition CORS :: "'s http_packages \<Rightarrow> string list \<Rightarrow> 's handler \<Rightarrow> 's handler" where
  "CORS hp origins =
    hp_cors hp
     \<lparr>co_AllowedOrigins = (if origins = [] then [''*''] else origins),
      co_AllowedMethods = [''GET'', ''POST'', ''DELETE'', ''OPTIONS''],
      co_AllowedHeaders = [''Accept'', ''Authorization'', ''Content-Type'', ''X-User-ID'', ''Traceparent'', ''Tracestate'', ''Baggage''],
      co_ExposedHeaders = [''ETag'', ''Cache-Control'', ''Content-Type'', ''Traceparent'', ''Tracestate''],
      co_AllowCredentials = False, co_MaxAge = 300\<rparr>"

definition clientIP :: "Request \<Rightarrow> string" where
  "clientIP r = (case SplitHostPort (rq_RemoteAddr r) of None \<Rightarrow> rq_RemoteAddr r | Some (host, _) \<Rightarrow> host)"

text \<open>Windows are in seconds; without a handler for refused requests the library's own answers.\<close>

definition rate_key :: "Request \<Rightarrow> string" where
  "rate_key r = clientIP r @ '':'' @ rq_Method r @ '':'' @ rq_Path r"

definition RateLimit :: "'s http_packages \<Rightarrow> string \<Rightarrow> int \<Rightarrow> 's handler \<Rightarrow> 's handler" where
  "RateLimit hp limiter rps = hp_LimitBy hp limiter (if rps \<le> 0 then 20 else rps) 1 rate_key None"

definition upload_rate_key :: "Request \<Rightarrow> string" where
  "upload_rate_key r = (if rq_Header r HeaderUserID \<noteq> [] then rq_Header r HeaderUserID else clientIP r)"

definition UploadRateLimit :: "'s http_packages \<Rightarrow> string \<Rightarrow> 's handler \<Rightarrow> 's handler" where
  "UploadRateLimit hp limiter = hp_LimitBy hp limiter 10 60 upload_rate_key
     (Some (\<lambda>r w s. (mw_writeJSON 429 [(''error'', ''Too many upload requests'')] w, s)))"

definition SecurityHeaders :: "'s handler \<Rightarrow> 's handler" where
  "SecurityHeaders nxt r w s =
    nxt r (SetHeader ''Referrer-Policy'' ''no-referrer'' (SetHeader ''X-Frame-Options'' ''DENY''
      (SetHeader ''X-Content-Type-Options'' ''nosniff'' w))) s"

section \<open>Metrics of requests (observability/http.go)\<close>

definition MetricsHandler :: "'s http_packages \<Rightarrow> 's handler" where
  "MetricsHandler hp = hp_metrics hp"

text \<open>Spans and log lines are added in \<open>Tracing\<close>; a handler that wrote nothing has sent status 200.\<close>

definition HTTP :: "('s, 'i) packages \<Rightarrow> 's http_packages \<Rightarrow> 's handler \<Rightarrow> 's handler" where
  "HTTP P hp nxt r w s =
    (if rq_Path r = ''/metrics'' then nxt r w s
     else
      (case nxt r w s of (w, s) \<Rightarrow>
       let route = (if hp_pattern hp r \<noteq> [] then hp_pattern hp r else rq_Path r);
           status = (if wr_Status w = 0 then 200 else wr_Status w)
       in (w, observe P (HTTPDuration (rq_Method r) route)
                (observe P (HTTPRequests (rq_Method r) route (Itoa status)) s))))"

section \<open>Laws\<close>

lemma mw_writeJSON_simps [simp]:
  "wr_Status (mw_writeJSON n v w) = (if wr_Status w = 0 then if n = 0 then 200 else n else wr_Status w)"
  by (simp add: mw_writeJSON_def)

text \<open>The address of a client is its host, whether the address is of version 4 or 6.\<close>

lemma last_colon_append: "CHR '':'' \<notin> set port \<Longrightarrow> last_colon (a @ CHR '':'' # port) = Some (a, port)"
  by (auto simp: last_colon_def takeWhile_tail dropWhile_append takeWhile_append)

end
