(* ===== verification/Handlers.thy ===== *)
theory Handlers
  imports Middleware Config
begin

text \<open>
  Package \<open>internal/handlers\<close>: the JSON of responses and errors (\<open>json.go\<close>), the endpoints of the
  avatars (\<open>avatar.go\<close>), the upload form (\<open>web.go\<close>) and the health check (\<open>health.go\<close>).
\<close>

section \<open>JSON (json.go)\<close>

definition writeJSON_http :: "int \<Rightarrow> json \<Rightarrow> Writer \<Rightarrow> Writer" where
  "writeJSON_http status v w =
    WriteBody (Json v) (WriteHeader status (SetHeader ''Content-Type'' ''application/json'' w))"

text \<open>Maps are encoded with sorted keys.\<close>

definition writeError :: "goerr \<Rightarrow> Writer \<Rightarrow> Writer" where
  "writeError err w =
    (if errors_Is err ErrAvatarNotFound then
       writeJSON_http 404 (JObj [(''error'', JStr ''Avatar not found'')]) w
     else if errors_Is err ErrForbidden then
       writeJSON_http 403 (JObj [(''details'', JStr ''You can only delete your own avatars''), (''error'', JStr ''Forbidden'')]) w
     else if errors_Is err ErrInvalidUserID then
       writeJSON_http 400 (JObj [(''details'', JStr ''X-User-ID header is required''), (''error'', JStr ''Invalid user id'')]) w
     else if errors_Is err ErrFileRequired then
       writeJSON_http 400 (JObj [(''error'', JStr ''file is required'')]) w
     else if errors_Is err ErrFileTooLarge then
       writeJSON_http 413 (JObj [(''error'', JStr ''File too large''), (''max_size'', JNum MaxFileSize)]) w
     else if errors_Is err ErrInvalidFileFormat \<or> errors_Is err ErrInvalidImage then
       writeJSON_http 400 (JObj [(''details'', JStr ''Supported formats: jpeg, png, webp''), (''error'', JStr ''Invalid file format'')]) w
     else if errors_Is err ErrImageTooLarge then
       writeJSON_http 400 (JObj [(''details'', JStr ''Maximum resolution is 20 megapixels''), (''error'', JStr ''Image too large'')]) w
     else if errors_Is err ErrInvalidSizeParam then
       writeJSON_http 400 (JObj [(''details'', JStr ''Supported values: original, 100x100, 300x300''), (''error'', JStr ''Invalid size'')]) w
     else if errors_Is err ErrInvalidFormatParam then
       writeJSON_http 400 (JObj [(''details'', JStr ''Supported values: jpeg, png, webp''), (''error'', JStr ''Invalid format'')]) w
     else writeJSON_http 500 (JObj [(''error'', JStr ''internal server error'')]) w)"

text \<open>The response structs, with the names of their \<open>json\<close> tags.\<close>

record uploadResponse =
  ur_ID :: string
  ur_UserID :: string
  ur_URL :: string
  ur_Status :: string
  ur_CreatedAt :: string

definition uploadResponse_json :: "uploadResponse \<Rightarrow> json" where
  "uploadResponse_json u = JObj
     [(''id'', marshal_string (ur_ID u)), (''user_id'', marshal_string (ur_UserID u)), (''url'', marshal_string (ur_URL u)),
      (''status'', marshal_string (ur_Status u)), (''created_at'', marshal_string (ur_CreatedAt u))]"

record thumbnailDTO =
  th_Size :: string
  th_URL :: string

record metadataResponse =
  md_ID :: string
  md_UserID :: string
  md_FileName :: string
  md_MimeType :: string
  md_Size :: int
  md_Width :: int
  md_Height :: int
  md_Thumbnails :: "thumbnailDTO list"
  md_Status :: string
  md_CreatedAt :: string
  md_UpdatedAt :: string

definition metadata_json :: "metadataResponse \<Rightarrow> json" where
  "metadata_json m = JObj
     [(''id'', marshal_string (md_ID m)), (''user_id'', marshal_string (md_UserID m)),
      (''file_name'', marshal_string (md_FileName m)), (''mime_type'', marshal_string (md_MimeType m)),
      (''size'', JNum (md_Size m)),
      (''dimensions'', JObj [(''width'', JNum (md_Width m)), (''height'', JNum (md_Height m))]),
      (''thumbnails'', JArr (map (\<lambda>t. JObj [(''size'', marshal_string (th_Size t)), (''url'', marshal_string (th_URL t))]) (md_Thumbnails m))),
      (''status'', marshal_string (md_Status m)), (''created_at'', marshal_string (md_CreatedAt m)),
      (''updated_at'', marshal_string (md_UpdatedAt m))]"

definition toMetadata :: "('s, 'i) packages \<Rightarrow> Avatar \<Rightarrow> (string \<Rightarrow> string) \<Rightarrow> metadataResponse" where
  "toMetadata P a urlFn =
    \<lparr>md_ID = uuid_String P (av_ID a), md_UserID = av_UserID a, md_FileName = av_FileName a,
     md_MimeType = av_MimeType a, md_Size = av_SizeBytes a, md_Width = av_Width a, md_Height = av_Height a,
     md_Thumbnails = map (\<lambda>size. \<lparr>th_Size = size, th_URL = urlFn size\<rparr>)
        (filter (\<lambda>size. snd (ThumbnailKey a size)) [Size100, Size300]),
     md_Status = av_ProcessingStatus a, md_CreatedAt = FormatUTC (av_CreatedAt a),
     md_UpdatedAt = FormatUTC (av_UpdatedAt a)\<rparr>"

section \<open>Avatars (avatar.go)\<close>

record 's AvatarHandler =
  ah_svc :: "'s AvatarService"
  ah_maxBytes :: int

definition NewAvatarHandler :: "'s AvatarService \<Rightarrow> int \<Rightarrow> 's AvatarHandler" where
  "NewAvatarHandler svc maxBytes = \<lparr>ah_svc = svc, ah_maxBytes = (if maxBytes \<le> 0 then MaxFileSize else maxBytes)\<rparr>"

definition isTooLarge :: "goerr \<Rightarrow> bool" where
  "isTooLarge err = errors_Is err MaxBytesError"

definition parseAvatarID :: "('s, 'i) packages \<Rightarrow> string \<Rightarrow> uuid result" where
  "parseAvatarID P raw = (case uuid_Parse P raw of Inl err \<Rightarrow> Inl ErrAvatarNotFound | Inr i \<Rightarrow> Inr i)"

text \<open>The limits are sums of 64-bit integers.\<close>

definition AH_Upload :: "('s, 'i) packages \<Rightarrow> 's AvatarHandler \<Rightarrow> 's handler" where
  "AH_Upload P h r w s =
    (let userID = UserIDFrom r in
     (case rq_Form r (wrap64 (ah_maxBytes h + 512 * 1024)) (ah_maxBytes h) of
        Inl err \<Rightarrow> if isTooLarge err then (writeError ErrFileTooLarge w, s) else (writeError ErrFileRequired w, s)
      | Inr form \<Rightarrow>
     (case fm_File form ''file'' of
        Inl err \<Rightarrow> (writeError ErrFileRequired w, s)
      | Inr (fileName, part) \<Rightarrow>
     (case ReadLimited (wrap64 (ah_maxBytes h + 1)) part of
        Inl err \<Rightarrow> (writeError err w, s)
      | Inr data \<Rightarrow>
     if int (length data) > ah_maxBytes h then (writeError ErrFileTooLarge w, s)
     else
     (case Upload P (ah_svc h) userID fileName data s of
        (Inl err, s) \<Rightarrow> (writeError err w, s)
      | (Inr avatar, s) \<Rightarrow>
          (writeJSON_http 201 (uploadResponse_json
             \<lparr>ur_ID = uuid_String P (av_ID avatar), ur_UserID = av_UserID avatar,
              ur_URL = PublicURL P (ah_svc h) (av_ID avatar) SizeOriginal, ur_Status = ''processing'',
              ur_CreatedAt = FormatUTC (av_CreatedAt avatar)\<rparr>) w, s))))))"

definition writeImage :: "('s, 'i) packages \<Rightarrow> 's AvatarHandler \<Rightarrow> Avatar \<Rightarrow> 's handler" where
  "writeImage P h avatar r w s =
    (case FetchImage P (ah_svc h) avatar (rq_Query r ''size'') (rq_Query r ''format'') s of
       (Inl err, s) \<Rightarrow> (writeError err w, s)
     | (Inr payload, s) \<Rightarrow>
         (let match = rq_Header r ''If-None-Match'' in
          if match \<noteq> [] \<and> match = ip_ETag payload then (WriteHeader 304 w, s)
          else (WriteBody (Octets (ip_Data payload)) (WriteHeader 200
                 (SetHeader ''ETag'' (ip_ETag payload) (SetHeader ''Cache-Control'' ''max-age=86400''
                   (SetHeader ''Content-Type'' (ip_ContentType payload) w)))), s)))"

definition AH_GetByID :: "('s, 'i) packages \<Rightarrow> 's AvatarHandler \<Rightarrow> 's handler" where
  "AH_GetByID P h r w s =
    (case parseAvatarID P (rq_Param r ''avatar_id'') of
       Inl err \<Rightarrow> (writeError ErrAvatarNotFound w, s)
     | Inr i \<Rightarrow>
    (case Get (ah_svc h) i s of
       (Inl err, s) \<Rightarrow> (writeError err w, s)
     | (Inr avatar, s) \<Rightarrow> writeImage P h avatar r w s))"

definition AH_GetByUser :: "('s, 'i) packages \<Rightarrow> 's AvatarHandler \<Rightarrow> 's handler" where
  "AH_GetByUser P h r w s =
    (case GetLatest (ah_svc h) (rq_Param r ''user_id'') s of
       (Inl err, s) \<Rightarrow> (writeError err w, s)
     | (Inr avatar, s) \<Rightarrow> writeImage P h avatar r w s)"

definition AH_Metadata :: "('s, 'i) packages \<Rightarrow> 's AvatarHandler \<Rightarrow> 's handler" where
  "AH_Metadata P h r w s =
    (case parseAvatarID P (rq_Param r ''avatar_id'') of
       Inl err \<Rightarrow> (writeError ErrAvatarNotFound w, s)
     | Inr i \<Rightarrow>
    (case Get (ah_svc h) i s of
       (Inl err, s) \<Rightarrow> (writeError err w, s)
     | (Inr avatar, s) \<Rightarrow>
         (writeJSON_http 200 (metadata_json (toMetadata P avatar (PublicURL P (ah_svc h) (av_ID avatar)))) w, s)))"

definition AH_ListByUser :: "('s, 'i) packages \<Rightarrow> 's AvatarHandler \<Rightarrow> 's handler" where
  "AH_ListByUser P h r w s =
    (case List_svc (ah_svc h) (rq_Param r ''user_id'') s of
       (Inl err, s) \<Rightarrow> (writeError err w, s)
     | (Inr items, s) \<Rightarrow>
         (writeJSON_http 200 (JArr (map (\<lambda>a. metadata_json (toMetadata P a (PublicURL P (ah_svc h) (av_ID a)))) items)) w, s))"

definition AH_DeleteByID :: "('s, 'i) packages \<Rightarrow> 's AvatarHandler \<Rightarrow> 's handler" where
  "AH_DeleteByID P h r w s =
    (let userID = UserIDFrom r in
     (case parseAvatarID P (rq_Param r ''avatar_id'') of
        Inl err \<Rightarrow> (writeError ErrAvatarNotFound w, s)
      | Inr i \<Rightarrow>
     (case Delete P (ah_svc h) i userID s of
        (Some err, s) \<Rightarrow> (writeError err w, s)
      | (None, s) \<Rightarrow> (WriteHeader 204 w, s))))"

definition AH_DeleteByUser :: "('s, 'i) packages \<Rightarrow> 's AvatarHandler \<Rightarrow> 's handler" where
  "AH_DeleteByUser P h r w s =
    (let userID = UserIDFrom r; target = rq_Param r ''user_id'' in
     if userID \<noteq> target then (writeError ErrForbidden w, s)
     else
     (case DeleteLatest P (ah_svc h) userID s of
        (Some err, s) \<Rightarrow> (writeError err w, s)
      | (None, s) \<Rightarrow> (WriteHeader 204 w, s)))"

section \<open>The web pages (web.go)\<close>

record 's WebHandler =
  wh_svc :: "'s AvatarService"
  wh_maxBytes :: int

text \<open>\<open>fs.Sub\<close> on the embedded files checks a constant path: its error is the argument \<open>err\<close>.\<close>

definition NewWebHandler :: "'s AvatarService \<Rightarrow> goerr option \<Rightarrow> int \<Rightarrow> 's WebHandler result" where
  "NewWebHandler svc err maxBytes =
    (case err of
       Some e \<Rightarrow> Inl e
     | None \<Rightarrow> Inr \<lparr>wh_svc = svc, wh_maxBytes = (if maxBytes \<le> 0 then MaxFileSize else maxBytes)\<rparr>)"

definition serveFile :: "'s http_packages \<Rightarrow> string \<Rightarrow> 's handler" where
  "serveFile hp name r w s = (hp_FileServer hp (''/'' @ name) w, s)"

definition UploadPage :: "'s http_packages \<Rightarrow> 's handler" where
  "UploadPage hp = serveFile hp ''upload.html''"

definition GalleryPage :: "'s http_packages \<Rightarrow> 's handler" where
  "GalleryPage hp = serveFile hp ''gallery.html''"

definition Static :: "'s http_packages \<Rightarrow> 's handler" where
  "Static hp r w s = (hp_FileServer hp (rq_Path r) w, s)"

definition UploadForm :: "('s, 'i) packages \<Rightarrow> 's http_packages \<Rightarrow> 's WebHandler \<Rightarrow> 's handler" where
  "UploadForm P hp h r w s =
    (case rq_Form r (wrap64 (wh_maxBytes h + 512 * 1024)) (wh_maxBytes h) of
       Inl err \<Rightarrow> (http_Error ''invalid form'' 400 w, s)
     | Inr form \<Rightarrow>
     let userID0 = TrimSpace (fm_Value form ''user_id'');
         userID = (if userID0 = [] then TrimSpace (rq_Header r ''X-User-ID'') else userID0) in
     (case ValidateUserID userID of
        Some err \<Rightarrow> (http_Error ''user_id is required'' 400 w, s)
      | None \<Rightarrow>
     (case fm_File form ''file'' of
        Inl err \<Rightarrow> (http_Error ''file is required'' 400 w, s)
      | Inr (fileName, part) \<Rightarrow>
     (case ReadLimited (wrap64 (wh_maxBytes h + 1)) part of
        Inl err \<Rightarrow> (http_Error ''failed to read file'' 400 w, s)
      | Inr data \<Rightarrow>
     if int (length data) > wh_maxBytes h then (http_Error ''file too large'' 413 w, s)
     else
     (case Upload P (wh_svc h) userID fileName data s of
        (Inl err, s) \<Rightarrow> (writeError err w, s)
      | (Inr avatar, s) \<Rightarrow> (http_Redirect hp r (''/web/gallery/'' @ av_UserID avatar) 303 w, s))))))"

section \<open>Health (health.go)\<close>

type_synonym 's Pinger = "('s, goerr option) op"

record 's HealthHandler =
  hh_DB :: "'s Pinger option"
  hh_S3 :: "'s Pinger option"
  hh_Kafka :: "'s Pinger option"

definition errMissing :: goerr where
  "errMissing = ErrText ''component is not configured''"

definition checks :: "'s HealthHandler \<Rightarrow> (string \<times> 's Pinger option) list" where
  "checks h = [(''postgres'', hh_DB h), (''s3'', hh_S3 h), (''kafka'', hh_Kafka h)]"

text \<open>
  The pings run concurrently, started in the random order of the map: \<open>todo\<close> is the order in which
  they take place and their results come out of the channel.
\<close>

fun ping_all :: "(string \<times> 's Pinger option) list \<Rightarrow> ('s, (string \<times> goerr option) list) op" where
  "ping_all [] s = ([], s)"
| "ping_all ((name, p) # todo) s =
    (case (case p of None \<Rightarrow> (Some errMissing, s) | Some ping \<Rightarrow> ping s) of (err, s) \<Rightarrow>
     (case ping_all todo s of (rs, s) \<Rightarrow> ((name, err) # rs, s)))"

text \<open>The loop over the results: components, status, code.\<close>

fun health_result :: "(string \<times> goerr option) list \<Rightarrow> strmap \<Rightarrow> string \<Rightarrow> int \<Rightarrow> strmap \<times> string \<times> int" where
  "health_result [] components status code = (components, status, code)"
| "health_result ((name, err) # rs) components status code =
    (if err \<noteq> None then health_result rs (AList.update name ''fail'' components) ''fail'' 503
     else health_result rs (AList.update name ''ok'' components) status code)"

definition Health :: "(string \<times> 's Pinger option) list \<Rightarrow> 's handler" where
  "Health todo r w s =
    (case ping_all todo s of (rs, s) \<Rightarrow>
     (case health_result rs [] ''ok'' 200 of (components, status, code) \<Rightarrow>
        (writeJSON_http code (JObj [(''components'', marshal_strmap components), (''status'', JStr status)]) w, s)))"

end
