(* ===== verification/Router.thy ===== *)
theory Router
  imports Handlers
begin

text \<open>
  \<open>internal/api/router.go\<close>: the table of routes with their middlewares.  \<open>chi\<close> builds the handler of
  the program from it (\<open>hp_mux\<close>).
\<close>

definition api_routes ::
    "('s, 'i) packages \<Rightarrow> 's http_packages \<Rightarrow> 's AvatarHandler \<Rightarrow> 's route list" where
  "api_routes P hp avatars =
    [\<lparr>ro_Method = ''POST'', ro_Pattern = ''/api/v1/avatars/'', ro_Handler = UploadRateLimit hp ''api'' (UserID (AH_Upload P avatars))\<rparr>,
     \<lparr>ro_Method = ''GET'', ro_Pattern = ''/api/v1/avatars/{avatar_id}'', ro_Handler = AH_GetByID P avatars\<rparr>,
     \<lparr>ro_Method = ''GET'', ro_Pattern = ''/api/v1/avatars/{avatar_id}/metadata'', ro_Handler = AH_Metadata P avatars\<rparr>,
     \<lparr>ro_Method = ''DELETE'', ro_Pattern = ''/api/v1/avatars/{avatar_id}'', ro_Handler = UserID (AH_DeleteByID P avatars)\<rparr>,
     \<lparr>ro_Method = ''GET'', ro_Pattern = ''/api/v1/users/{user_id}/avatar'', ro_Handler = AH_GetByUser P avatars\<rparr>,
     \<lparr>ro_Method = ''GET'', ro_Pattern = ''/api/v1/users/{user_id}/avatars'', ro_Handler = AH_ListByUser P avatars\<rparr>,
     \<lparr>ro_Method = ''DELETE'', ro_Pattern = ''/api/v1/users/{user_id}/avatar'', ro_Handler = UserID (AH_DeleteByUser P avatars)\<rparr>]"

text \<open>A method \<open>*\<close> stands for every method (\<open>r.Handle\<close>); \<open>http.StripPrefix\<close> cuts the path.\<close>

definition StripPrefix :: "string \<Rightarrow> 's handler \<Rightarrow> 's handler" where
  "StripPrefix pre nxt r w s =
    (if HasPrefix (rq_Path r) pre then nxt (r\<lparr>rq_Path := drop (length pre) (rq_Path r)\<rparr>) w s
     else (http_Error ''404 page not found'' 404 w, s))"

definition web_routes ::
    "('s, 'i) packages \<Rightarrow> 's http_packages \<Rightarrow> 's WebHandler \<Rightarrow> 's route list" where
  "web_routes P hp web =
    [\<lparr>ro_Method = ''GET'', ro_Pattern = ''/web/upload'', ro_Handler = UploadPage hp\<rparr>,
     \<lparr>ro_Method = ''POST'', ro_Pattern = ''/web/upload'', ro_Handler = UploadRateLimit hp ''web'' (UploadForm P hp web)\<rparr>,
     \<lparr>ro_Method = ''GET'', ro_Pattern = ''/web/gallery/{user_id}'', ro_Handler = GalleryPage hp\<rparr>,
     \<lparr>ro_Method = ''*'', ro_Pattern = ''/web/static/*'', ro_Handler = StripPrefix ''/web/'' (Static hp)\<rparr>]"

definition routes ::
    "('s, 'i) packages \<Rightarrow> 's http_packages \<Rightarrow> Config \<Rightarrow> 's AvatarHandler \<Rightarrow> 's handler \<Rightarrow> 's WebHandler \<Rightarrow> 's route list" where
  "routes P hp cfg avatars health web =
    [\<lparr>ro_Method = ''*'', ro_Pattern = ''/metrics'', ro_Handler = MetricsHandler hp\<rparr>,
     \<lparr>ro_Method = ''GET'', ro_Pattern = ''/health'', ro_Handler = health\<rparr>] @
    map (\<lambda>ro. ro\<lparr>ro_Handler := RateLimit hp ''group'' (RateLimitRPS cfg) (ro_Handler ro)\<rparr>)
      (api_routes P hp avatars @ web_routes P hp web) @
    [\<lparr>ro_Method = ''GET'', ro_Pattern = ''/'', ro_Handler = (\<lambda>r w s. (http_Redirect hp r ''/web/upload'' 302 w, s))\<rparr>]"

definition NewRouter ::
    "('s, 'i) packages \<Rightarrow> 's http_packages \<Rightarrow> Config \<Rightarrow> 's AvatarHandler \<Rightarrow> 's handler \<Rightarrow> 's WebHandler \<Rightarrow> 's handler" where
  "NewRouter P hp cfg avatars health web =
    hp_RequestID hp (HTTP P hp (hp_Recoverer hp (hp_Timeout hp 60 (SecurityHeaders (CORS hp (CORSOrigins cfg)
      (hp_mux hp (routes P hp cfg avatars health web)))))))"

end
