(* ===== verification/Http_Laws.thy ===== *)
theory Http_Laws
  imports Router
begin

text \<open>
  What a request may do to the state.  \<open>obeys R m hdr h\<close>: whatever request of method \<open>m\<close> with the
  headers \<open>hdr\<close> the handler \<open>h\<close> is called for, the states before and after are related by \<open>R\<close>.  The
  locale \<open>http_library\<close> asks of the packages around the handlers that they add nothing of their own
  to the part \<open>view\<close> of the state; then the handler of the whole program obeys what the methods of
  the service that its routes use obey.
\<close>

definition obeys :: "('s \<Rightarrow> 's \<Rightarrow> bool) \<Rightarrow> string \<Rightarrow> (string \<Rightarrow> string) \<Rightarrow> 's handler \<Rightarrow> bool" where
  "obeys R m hdr h \<longleftrightarrow> (\<forall>r w s. rq_Method r = m \<longrightarrow> rq_Header r = hdr \<longrightarrow> R s (snd (h r w s)))"

text \<open>Relations on states that do not look beyond \<open>view\<close>.\<close>

definition lawful :: "('s \<Rightarrow> 'v) \<Rightarrow> ('s \<Rightarrow> 's \<Rightarrow> bool) \<Rightarrow> bool" where
  "lawful view R \<longleftrightarrow> transp R \<and> (\<forall>s t. view s = view t \<longrightarrow> R s t)"

lemma obeysI: "(\<And>r w s. rq_Method r = m \<Longrightarrow> rq_Header r = hdr \<Longrightarrow> R s (snd (h r w s))) \<Longrightarrow> obeys R m hdr h"
  by (simp add: obeys_def)

lemma obeysD: "obeys R m hdr h \<Longrightarrow> rq_Method r = m \<Longrightarrow> rq_Header r = hdr \<Longrightarrow> R s (snd (h r w s))"
  by (simp add: obeys_def)

lemma lawful_refl: "lawful view R \<Longrightarrow> R s s"
  and lawful_trans: "lawful view R \<Longrightarrow> R s t \<Longrightarrow> R t u \<Longrightarrow> R s u"
  and lawful_view: "lawful view R \<Longrightarrow> view t = view s \<Longrightarrow> R s t"
  by (auto simp: lawful_def dest: transpD)

lemma snd_rel: "(\<And>r t. m s = (r, t) \<Longrightarrow> R s t) \<Longrightarrow> R s (snd (m s))"
  by (cases "m s") simp

section \<open>The packages\<close>

text \<open>
  A package either runs the handler it was given, any number of times and with a request of the same
  method and headers, or answers itself; the router runs a handler that was entered for the method.
\<close>

locale http_library =
  fixes hp :: "'s http_packages" and view :: "'s \<Rightarrow> 'v"
  assumes request_id_law: "lawful view R \<Longrightarrow> obeys R m hdr h \<Longrightarrow> obeys R m hdr (hp_RequestID hp h)"
    and recoverer_law: "lawful view R \<Longrightarrow> obeys R m hdr h \<Longrightarrow> obeys R m hdr (hp_Recoverer hp h)"
    and timeout_law: "lawful view R \<Longrightarrow> obeys R m hdr h \<Longrightarrow> obeys R m hdr (hp_Timeout hp n h)"
    and cors_law: "lawful view R \<Longrightarrow> obeys R m hdr h \<Longrightarrow> obeys R m hdr (hp_cors hp opts h)"
    and limit_law: "lawful view R \<Longrightarrow> obeys R m hdr h \<Longrightarrow> (\<And>f. refuse = Some f \<Longrightarrow> obeys R m hdr f)
      \<Longrightarrow> obeys R m hdr (hp_LimitBy hp limiter n window key refuse h)"
    and metrics_law: "lawful view R \<Longrightarrow> obeys R m hdr (hp_metrics hp)"
    and mux_law: "lawful view R
      \<Longrightarrow> (\<And>ro. ro \<in> set rs \<Longrightarrow> ro_Method ro = ''*'' \<or> ro_Method ro = m \<Longrightarrow> obeys R m hdr (ro_Handler ro))
      \<Longrightarrow> obeys R m hdr (hp_mux hp rs)"

section \<open>The handlers\<close>

text \<open>What the methods of the service do that a route needs.\<close>

definition reading :: "('s \<Rightarrow> 's \<Rightarrow> bool) \<Rightarrow> ('s, 'i) packages \<Rightarrow> 's AvatarService \<Rightarrow> bool" where
  "reading R P svc \<longleftrightarrow> (\<forall>i s. R s (snd (Get svc i s))) \<and> (\<forall>u s. R s (snd (GetLatest svc u s)))
     \<and> (\<forall>u s. R s (snd (List_svc svc u s))) \<and> (\<forall>a sz f s. R s (snd (FetchImage P svc a sz f s)))"

definition deleting :: "('s \<Rightarrow> 's \<Rightarrow> bool) \<Rightarrow> string \<Rightarrow> ('s, 'i) packages \<Rightarrow> 's AvatarService \<Rightarrow> bool" where
  "deleting R u P svc \<longleftrightarrow> (\<forall>i s. R s (snd (Delete P svc i u s))) \<and> (\<forall>s. R s (snd (DeleteLatest P svc u s)))"

definition uploading :: "('s \<Rightarrow> 's \<Rightarrow> bool) \<Rightarrow> ('s, 'i) packages \<Rightarrow> 's AvatarService \<Rightarrow> bool" where
  "uploading R P svc \<longleftrightarrow> (\<forall>u n d s. R s (snd (Upload P svc u n d s)))"

lemma readingD:
  "reading R P svc \<Longrightarrow> Get svc i s = (r1, t) \<Longrightarrow> R s t"
  "reading R P svc \<Longrightarrow> GetLatest svc u s = (r1, t) \<Longrightarrow> R s t"
  "reading R P svc \<Longrightarrow> List_svc svc u s = (r2, t) \<Longrightarrow> R s t"
  "reading R P svc \<Longrightarrow> FetchImage P svc a sz f s = (r3, t) \<Longrightarrow> R s t"
  by (auto simp: reading_def dest: spec [where x = s] spec2) (metis snd_conv)+

lemma deletingD:
  "deleting R u P svc \<Longrightarrow> Delete P svc i v s = (r, t) \<Longrightarrow> v = u \<Longrightarrow> R s t"
  "deleting R u P svc \<Longrightarrow> DeleteLatest P svc v s = (r, t) \<Longrightarrow> v = u \<Longrightarrow> R s t"
  unfolding deleting_def by (metis snd_conv)+

lemma uploadingD: "uploading R P svc \<Longrightarrow> Upload P svc u n d s = (r, t) \<Longrightarrow> R s t"
  unfolding uploading_def by (metis snd_conv)

lemma obeys_writeImage:
  assumes "lawful view R" "reading R P (ah_svc h)"
  shows "R s (snd (writeImage P h a r w s))"
  by (auto simp: writeImage_def Let_def split: prod.split sum.split dest: readingD [OF assms(2)])

lemma obeys_GetByID:
  assumes "lawful view R" "reading R P (ah_svc h)"
  shows "obeys R m hdr (AH_GetByID P h)"
proof (rule obeysI)
  fix r :: Request and w s
  note after = lawful_trans [OF assms(1) _ obeys_writeImage [OF assms]]
  show "R s (snd (AH_GetByID P h r w s))"
    by (auto simp: AH_GetByID_def split: prod.split sum.split intro: lawful_refl [OF assms(1)] after
        dest: readingD(1) [OF assms(2)])
qed

lemma obeys_GetByUser:
  assumes "lawful view R" "reading R P (ah_svc h)"
  shows "obeys R m hdr (AH_GetByUser P h)"
proof (rule obeysI)
  fix r :: Request and w s
  note after = lawful_trans [OF assms(1) _ obeys_writeImage [OF assms]]
  show "R s (snd (AH_GetByUser P h r w s))"
    by (auto simp: AH_GetByUser_def split: prod.split sum.split intro: after
        dest: readingD(2) [OF assms(2)])
qed

lemma obeys_Metadata:
  assumes "lawful view R" "reading R P (ah_svc h)"
  shows "obeys R m hdr (AH_Metadata P h)"
  by (rule obeysI) (auto simp: AH_Metadata_def split: prod.split sum.split intro: lawful_refl [OF assms(1)]
      dest: readingD(1) [OF assms(2)])

lemma obeys_ListByUser:
  assumes "lawful view R" "reading R P (ah_svc h)"
  shows "obeys R m hdr (AH_ListByUser P h)"
  by (rule obeysI) (auto simp: AH_ListByUser_def split: prod.split sum.split dest: readingD(3) [OF assms(2)])

lemma obeys_Upload:
  assumes "lawful view R" "uploading R P (ah_svc h)"
  shows "obeys R m hdr (UserID (AH_Upload P h))"
  by (rule obeysI) (auto simp: UserID_def AH_Upload_def Let_def split: sum.split option.split prod.split
      intro: lawful_refl [OF assms(1)] dest: uploadingD [OF assms(2)])

lemma obeys_UploadForm:
  assumes "lawful view R" "uploading R P (wh_svc h)"
  shows "obeys R m hdr (UploadForm P hp h)"
  by (rule obeysI) (auto simp: UploadForm_def Let_def split: sum.split option.split prod.split
      intro: lawful_refl [OF assms(1)] dest: uploadingD [OF assms(2)])

text \<open>Behind the check of the header, the deletions run for the user it names.\<close>

lemma UserIDFrom_With [simp]: "UserIDFrom (WithUserID u r) = u"
  by (simp add: UserIDFrom_def WithUserID_def)

lemma obeys_DeleteByID:
  assumes "lawful view R" "deleting R (hdr HeaderUserID) P (ah_svc h)"
  shows "obeys R m hdr (UserID (AH_DeleteByID P h))"
  by (rule obeysI) (auto simp: UserID_def AH_DeleteByID_def Let_def split: sum.split option.split prod.split
      intro: lawful_refl [OF assms(1)] dest: deletingD(1) [OF assms(2)])

lemma obeys_DeleteByUser:
  assumes "lawful view R" "deleting R (hdr HeaderUserID) P (ah_svc h)"
  shows "obeys R m hdr (UserID (AH_DeleteByUser P h))"
  by (rule obeysI) (auto simp: UserID_def AH_DeleteByUser_def Let_def split: option.split prod.split
      intro: lawful_refl [OF assms(1)] dest: deletingD(2) [OF assms(2)])

text \<open>Handlers that only write a response, and the health check over any pings.\<close>

lemma obeys_pure: "lawful view R \<Longrightarrow> (\<And>r w s. snd (h r w s) = s) \<Longrightarrow> obeys R m hdr h"
  by (simp add: obeys_def lawful_refl)

lemma obeys_pings:
  assumes "lawful view R" "\<And>n p s e t. (n, Some p) \<in> set todo \<Longrightarrow> p s = (e, t) \<Longrightarrow> R s t"
  shows "R s (snd (ping_all todo s))"
  using assms(2)
proof (induction todo s rule: ping_all.induct)
  case (1 s)
  then show ?case by (simp add: lawful_refl [OF assms(1)])
next
  case (2 n p todo s)
  obtain err t where ping: "(case p of None \<Rightarrow> (Some errMissing, s) | Some ping \<Rightarrow> ping s) = (err, t)" by fastforce
  have "R s t" using ping 2(2) [of n] lawful_refl [OF assms(1)] by (auto split: option.splits)
  moreover have "R t (snd (ping_all todo t))"
  proof (rule 2(1) [OF ping [symmetric]])
    show "R s' t'" if "(n', Some p') \<in> set todo" "p' s' = (e', t')" for n' p' s' e' t'
      using 2(2) [of n' p' s' e' t'] that by simp
  qed
  ultimately show ?case using ping lawful_trans [OF assms(1)] by (auto split: prod.splits)
qed

lemma obeys_Health:
  assumes "lawful view R" "\<And>n p s e t. (n, Some p) \<in> set todo \<Longrightarrow> p s = (e, t) \<Longrightarrow> R s t"
  shows "obeys R m hdr (Health todo)"
proof (rule obeysI)
  fix r :: Request and w s
  have "R s (snd (ping_all todo s))" by (rule obeys_pings [OF assms(1)]) (rule assms(2))
  then show "R s (snd (Health todo r w s))" by (auto simp: Health_def split: prod.split)
qed

section \<open>The router\<close>

lemma obeys_HTTP:
  assumes "lawful view R" "\<And>x s. view (observe P x s) = view s" "obeys R m hdr h"
  shows "obeys R m hdr (HTTP P hp h)"
proof (rule obeysI)
  fix r :: Request and w s
  assume r: "rq_Method r = m" "rq_Header r = hdr"
  obtain w1 t where h: "h r w s = (w1, t)" by fastforce
  then have "R s t" using obeysD [OF assms(3) r, of s w] by simp
  moreover have "R t (observe P x (observe P y t))" for x y
    using assms(2) by (intro lawful_view [OF assms(1)]) simp
  ultimately show "R s (snd (HTTP P hp h r w s))"
    using h lawful_trans [OF assms(1)] by (auto simp: HTTP_def Let_def)
qed

lemma obeys_SecurityHeaders: "obeys R m hdr h \<Longrightarrow> obeys R m hdr (SecurityHeaders h)"
  by (auto simp: obeys_def SecurityHeaders_def)

lemma obeys_StripPrefix:
  assumes "lawful view R" "obeys R m hdr h"
  shows "obeys R m hdr (StripPrefix pre h)"
  using assms by (auto simp: obeys_def StripPrefix_def intro: lawful_refl)

context http_library
begin

lemma obeys_RateLimit: "lawful view R \<Longrightarrow> obeys R m hdr h \<Longrightarrow> obeys R m hdr (RateLimit hp limiter rps h)"
  unfolding RateLimit_def by (rule limit_law) simp_all

lemma obeys_UploadRateLimit:
  "lawful view R \<Longrightarrow> obeys R m hdr h \<Longrightarrow> obeys R m hdr (UploadRateLimit hp limiter h)"
  unfolding UploadRateLimit_def by (rule limit_law) (auto intro: obeys_pure)

text \<open>A page, a redirection: they change nothing.\<close>

lemma obeys_pages:
  assumes "lawful view R"
  shows "obeys R m hdr (UploadPage hp)" "obeys R m hdr (GalleryPage hp)" "obeys R m hdr (Static hp)"
    "obeys R m hdr (\<lambda>r w s. (http_Redirect hp r url code w, s))"
  by (rule obeys_pure [OF assms], simp add: UploadPage_def GalleryPage_def serveFile_def Static_def)+

lemma obeys_routes:
  assumes "lawful view R"
    and "m = ''GET'' \<Longrightarrow> obeys R m hdr health" "m = ''GET'' \<Longrightarrow> reading R P (ah_svc avatars)"
    and "m = ''DELETE'' \<Longrightarrow> deleting R (hdr HeaderUserID) P (ah_svc avatars)"
    and "m = ''POST'' \<Longrightarrow> uploading R P (ah_svc avatars) \<and> uploading R P (wh_svc web)"
    and "ro \<in> set (routes P hp cfg avatars health web)" "ro_Method ro = ''*'' \<or> ro_Method ro = m"
  shows "obeys R m hdr (ro_Handler ro)"
  using assms(2,6,7) unfolding routes_def api_routes_def web_routes_def MetricsHandler_def
  by (auto simp: assms(3-5) intro!: obeys_RateLimit obeys_UploadRateLimit obeys_pages obeys_StripPrefix
      metrics_law obeys_GetByID obeys_GetByUser obeys_Metadata obeys_ListByUser obeys_Upload obeys_UploadForm
      obeys_DeleteByID obeys_DeleteByUser assms(1))

lemma obeys_NewRouter:
  assumes "lawful view R" "\<And>x s. view (observe P x s) = view s"
    and "m = ''GET'' \<Longrightarrow> obeys R m hdr health" "m = ''GET'' \<Longrightarrow> reading R P (ah_svc avatars)"
    and "m = ''DELETE'' \<Longrightarrow> deleting R (hdr HeaderUserID) P (ah_svc avatars)"
    and "m = ''POST'' \<Longrightarrow> uploading R P (ah_svc avatars) \<and> uploading R P (wh_svc web)"
  shows "obeys R m hdr (NewRouter P hp cfg avatars health web)"
proof -
  have "obeys R m hdr (hp_mux hp (routes P hp cfg avatars health web))"
    by (rule mux_law [OF assms(1)], rule obeys_routes [OF assms(1) assms(3-6)]) assumption+
  then show ?thesis
    unfolding NewRouter_def CORS_def
    by (rule request_id_law [OF assms(1) obeys_HTTP [OF assms(1,2) recoverer_law [OF assms(1)
        timeout_law [OF assms(1) obeys_SecurityHeaders [OF cors_law [OF assms(1)]]]]]])
qed

end

end
