(* ===== verification/Server.thy ===== *)
theory Server
  imports Service_Properties Http_Laws
begin

text \<open>
  The server of \<open>cmd/server/main.go\<close>: the router over the service of the assembled program, with the
  health check of its three connections.  A request is a step of the system like a call of the
  service by the worker; the properties of the service carry over to requests, for every library of
  middlewares that keeps the contract \<open>http_library\<close>.
\<close>

section \<open>The handler of the server\<close>

definition app_health :: "('e, 'i) world \<Rightarrow> Config \<Rightarrow> 'e sys HealthHandler" where
  "app_health W cfg =
    \<lparr>hh_DB = Some (repo_Ping (w_pg W)),
     hh_S3 = Some (lift (S3_Ping \<lparr>s3_client = w_minio W, s3_bucket = S3Bucket cfg\<rparr>)),
     hh_Kafka = Some (lift (Producer_Ping (NewProducer W cfg)))\<rparr>"

text \<open>\<open>todo\<close> is the order in which the pings of this request take place.\<close>

definition server_handler ::
    "('e, 'i) world \<Rightarrow> 'e sys http_packages \<Rightarrow> goerr option \<Rightarrow> Config \<Rightarrow> (string \<times> 'e sys Pinger option) list
     \<Rightarrow> 'e sys handler result" where
  "server_handler W hp err cfg todo =
    (let avatars = NewAvatarHandler (app_service W cfg) (MaxUploadBytes cfg) in
     (case NewWebHandler (app_service W cfg) err (MaxUploadBytes cfg) of
        Inl e \<Rightarrow> Inl e
      | Inr web \<Rightarrow> Inr (NewRouter (app_packages W) hp cfg avatars (Health todo) web)))"

text \<open>A request is served from a fresh response, with the pings in any order.\<close>

definition request_step ::
    "('e, 'i) world \<Rightarrow> 'e sys http_packages \<Rightarrow> Config \<Rightarrow> Request \<Rightarrow> 'e sys \<Rightarrow> Writer \<Rightarrow> 'e sys \<Rightarrow> bool" where
  "request_step W hp cfg r s w t \<longleftrightarrow>
    (\<exists>todo h. set todo = set (checks (app_health W cfg)) \<and> server_handler W hp None cfg todo = Inr h
       \<and> h r fresh_writer s = (w, t))"

text \<open>A step of the system: a request to a server, or a call of the service by a worker.\<close>

inductive program_step :: "('e, 'i) world \<Rightarrow> 'e sys http_packages \<Rightarrow> Config \<Rightarrow> 'e sys \<Rightarrow> 'e sys \<Rightarrow> bool" for W hp cfg where
  program_request: "request_step W hp cfg r s w t \<Longrightarrow> program_step W hp cfg s t"
| program_service: "svc_step (app_packages W) (app_service W cfg) s t \<Longrightarrow> program_step W hp cfg s t"

section \<open>What the service does for the routes\<close>

lemma FetchImage_state:
  "snd (FetchImage P svc a sz f s) = s \<or> (\<exists>k. snd (FetchImage P svc a sz f s) = snd (os_Download (svc_objects svc) k s))"
proof (cases "NormalizeSize sz")
  case size: (Inr size)
  show ?thesis
  proof (cases "NormalizeFormat f")
    case format: (Inr format)
    define key where "key = (if size \<noteq> SizeOriginal then
      (case ThumbnailKey a size of (thumb, ok) \<Rightarrow> if ok then thumb else av_S3Key a) else av_S3Key a)"
    obtain r t where d: "os_Download (svc_objects svc) key s = (r, t)" by fastforce
    have "snd (FetchImage P svc a sz f s) = t"
      unfolding FetchImage_def size format sum.case Let_def key_def [symmetric] d prod.case
      by (auto split: sum.split prod.split)
    then show ?thesis using d by (metis snd_conv)
  qed (simp add: FetchImage_def size)
qed (simp add: FetchImage_def)

context avatar_backend
begin

lemma inv_snd: "(\<And>r t. m = (r, t) \<Longrightarrow> svc_step P svc s t) \<Longrightarrow> inv s \<longrightarrow> inv (snd m)"
  by (cases m) (auto intro: inv_step)

lemma uploading_inv: "uploading (\<lambda>s t. inv s \<longrightarrow> inv t) P svc"
  unfolding uploading_def by (intro allI inv_snd svc_Upload)

lemma deleting_inv: "deleting (\<lambda>s t. inv s \<longrightarrow> inv t) u P svc"
  unfolding deleting_def
  by (intro conjI allI, (rule inv_snd, rule svc_Delete, assumption), (rule inv_snd, rule svc_DeleteLatest, assumption))

lemma reading_inv: "reading (\<lambda>s t. inv s \<longrightarrow> inv t) P svc"
  unfolding reading_def
  by (intro conjI allI, (rule inv_snd, rule svc_Get, assumption), (rule inv_snd, rule svc_GetLatest, assumption),
      (rule inv_snd, rule svc_List, assumption), (rule inv_snd, rule svc_FetchImage, assumption))

definition same_data :: "'s \<Rightarrow> 's \<Rightarrow> bool" where
  "same_data s t \<longleftrightarrow> (ok s \<longrightarrow> ok t \<and> live t = live s \<and> events t = events s \<and> unpub t = unpub s
     \<and> blobs t = blobs s \<and> ulog t = ulog s \<and> dlog t = dlog s)"

lemma same_read:
  assumes "store_step (svc_repo svc) s t" "ok s \<Longrightarrow> live t = live s \<and> events t = events s \<and> unpub t = unpub s"
  shows "same_data s t"
  using assms ok_step [OF assms(1)] store_frame [OF assms(1)] by (auto simp: same_data_def)

lemma same_download: "os_Download (svc_objects svc) k s = (r, t) \<Longrightarrow> same_data s t"
  using os_download_frame by (simp add: same_data_def)

lemma reading_same: "reading same_data P svc"
proof -
  have refl: "same_data s s" for s by (simp add: same_data_def)
  have "same_data s (snd (Get svc i s))" for i s
    by (cases "GetByID (svc_repo svc) i s") (auto simp: Get_def dest: get_law step_get intro: same_read)
  moreover have "same_data s (snd (GetLatest svc u s))" for u s
    by (cases "GetLatestByUserID (svc_repo svc) u s")
      (auto simp: GetLatest_def refl split: option.split dest: latest_law step_latest intro: same_read)
  moreover have "same_data s (snd (List_svc svc u s))" for u s
    by (cases "ListByUserID (svc_repo svc) u s")
      (auto simp: List_svc_def refl split: option.split dest: list_law step_list intro: same_read)
  moreover have "same_data s (snd (FetchImage P svc a sz f s))" for a sz f s
    using FetchImage_state [of P svc a sz f s] same_download [OF prod.collapse [symmetric]] refl by metis
  ultimately show ?thesis by (simp add: reading_def)
qed

text \<open>A deletion for a user: of each avatar, nothing happens or it was the user's and is gone, with its event.\<close>

definition deletes_own :: "string \<Rightarrow> 's \<Rightarrow> 's \<Rightarrow> bool" where
  "deletes_own u s t \<longleftrightarrow> (ok s \<longrightarrow> ok t \<and> blobs t = blobs s \<and> ulog t = ulog s \<and> dlog t = dlog s \<and>
     (\<forall>i. live t i = live s i \<and> events t (DeleteEventID (uuid_String P i)) = events s (DeleteEventID (uuid_String P i))
        \<or> live t i = None \<and> (\<exists>a. live s i = Some a \<and> av_UserID a = u \<and>
            events t (DeleteEventID (uuid_String P i)) = Some (OutboxDelete, marshal_delete (delete_event P a)))))"

lemma deletes_own_same: "same_data s t \<Longrightarrow> deletes_own u s t"
  by (auto simp: same_data_def deletes_own_def)

lemma deletes_own_trans: "transp (deletes_own u)"
proof (rule transpI)
  fix s t v
  assume a: "deletes_own u s t" "deletes_own u t v"
  show "deletes_own u s v"
    using a unfolding deletes_own_def by (metis option.distinct(1))
qed

lemma Delete_own: "Delete P svc i u s = (r, t) \<Longrightarrow> deletes_own u s t"
proof -
  assume d: "Delete P svc i u s = (r, t)"
  obtain r1 s1 where d1: "delete P svc i u s = (r1, s1)" by fastforce
  then have t: "t = observe P (DeletesTotal (StatusOK r1)) s1" using d by (auto simp: Delete_def)
  show "deletes_own u s t"
  proof (cases "ok s")
    case False
    then show ?thesis by (simp add: deletes_own_def)
  next
    case True
    show ?thesis
    proof (cases rule: delete_effect [OF d1 True, case_names unchanged deleted])
      case (unchanged err)
      then show ?thesis by (simp add: t deletes_own_def)
    next
      case (deleted a)
      then show ?thesis by (auto simp: t deletes_own_def)
    qed
  qed
qed

lemma deleting_own: "deleting (deletes_own u) u P svc"
proof -
  have "deletes_own u s (snd (Delete P svc i u s))" for i s
    by (cases "Delete P svc i u s") (simp add: Delete_own)
  moreover have "deletes_own u s t" if l: "DeleteLatest P svc u s = (r, t)" for r s t
  proof -
    obtain rl s1 where g: "GetLatestByUserID (svc_repo svc) u s = (rl, s1)" by fastforce
    have "deletes_own u s s1"
      using latest_law [OF g] by (intro deletes_own_same same_read [OF step_latest [OF g]]) simp
    moreover have "deletes_own u s s" for s by (simp add: deletes_own_def)
    ultimately show ?thesis
      using l g transpD [OF deletes_own_trans] Delete_own
      by (auto simp: DeleteLatest_def split: option.splits sum.splits)
  qed
  then have "deletes_own u s (snd (DeleteLatest P svc u s))" for s
    by (cases "DeleteLatest P svc u s") simp
  ultimately show ?thesis by (simp add: deleting_def)
qed

end

end
