(* ===== verification/Server_Properties.thy ===== *)
theory Server_Properties
  imports Server
begin

text \<open>
  What requests do to the system, whatever they contain and whatever fails below: the promise of the
  outbox holds for every interleaving of requests and the work of the workers, reading changes
  nothing, and a deletion only takes avatars of the user in the header.
\<close>

section \<open>A server in the outside world\<close>

text \<open>The pings of the health check do not change what is stored.\<close>

locale served_world = outside_world W cfg objects logs +
    http_library hp "\<lambda>s. (tables s, objects (outside s), logs (outside s))"
  for W :: "('e, 'i) world" and cfg :: Config
    and objects :: "'e \<Rightarrow> string \<Rightarrow> string \<Rightarrow> (string \<times> string) option"
    and logs :: "'e \<Rightarrow> string \<Rightarrow> message list"
    and hp :: "'e sys http_packages" +
  assumes exists_law: "keeps (\<lambda>e. (objects e, logs e)) (minio_BucketExists (w_minio W) b)"
    and dial_law: "keeps (\<lambda>e. (objects e, logs e)) (kafka_DialContext (w_kafka W) addr)"
    and brokers_law: "keeps (\<lambda>e. (objects e, logs e)) (kafka_Brokers (w_kafka W) conn)"
    and close_law: "objects (kafka_CloseConn (w_kafka W) conn e) = objects e"
      "logs (kafka_CloseConn (w_kafka W) conn e) = logs e"
begin

abbreviation stored :: "'e sys \<Rightarrow> db \<times> (string \<Rightarrow> string \<Rightarrow> (string \<times> string) option) \<times> (string \<Rightarrow> message list)" where
  "stored s \<equiv> (tables s, objects (outside s), logs (outside s))"

lemma ping_S3: "lift (S3_Ping S) s = (r, t) \<Longrightarrow> s3_client S = w_minio W \<Longrightarrow> stored t = stored s"
  using exists_law [of "s3_bucket S"]
  by (auto simp: lift_def S3_Ping_def keeps_def split: prod.splits sum.splits) (metis fst_conv snd_conv)+

lemma ping_Kafka:
  assumes "lift (Producer_Ping p) s = (r, t)" "pr_client p = w_kafka W"
  shows "stored t = stored s"
proof -
  obtain rc e1 where d: "kafka_DialContext (w_kafka W) (hd (pr_brokers p)) (outside s) = (rc, e1)" by fastforce
  have e1: "objects e1 = objects (outside s)" "logs e1 = logs (outside s)" using keepsD [OF dial_law d] by auto
  show ?thesis
  proof (cases rc)
    case (Inl err)
    then show ?thesis using assms d e1 by (auto simp: lift_def Producer_Ping_def)
  next
    case (Inr conn)
    obtain rb e2 where b: "kafka_Brokers (w_kafka W) conn e1 = (rb, e2)" by fastforce
    have "objects e2 = objects e1" "logs e2 = logs e1" using keepsD [OF brokers_law b] by auto
    then show ?thesis using assms d e1 b Inr by (auto simp: lift_def Producer_Ping_def close_law)
  qed
qed

lemma ping_DB: "repo_Ping (w_pg W) s = (r, t) \<Longrightarrow> stored t = stored s"
  using pg.pg_rest_snd [of "outside s"]
  by (auto simp: repo_Ping_def split: prod.splits sum.splits elim!: call_cases)

lemma health_pings:
  assumes "set todo = set (checks (app_health W cfg))" "(n, Some p) \<in> set todo" "p s = (e, t)"
  shows "stored t = stored s"
proof -
  have "p = repo_Ping (w_pg W) \<or> p = lift (S3_Ping \<lparr>s3_client = w_minio W, s3_bucket = S3Bucket cfg\<rparr>)
      \<or> p = lift (Producer_Ping (NewProducer W cfg))"
    using assms(2) unfolding assms(1) by (auto simp: checks_def app_health_def)
  then show ?thesis
  proof (elim disjE)
    assume p: "p = repo_Ping (w_pg W)"
    show ?thesis using assms(3) unfolding p by (rule ping_DB)
  next
    assume p: "p = lift (S3_Ping \<lparr>s3_client = w_minio W, s3_bucket = S3Bucket cfg\<rparr>)"
    show ?thesis using assms(3) unfolding p by (rule ping_S3) simp
  next
    assume p: "p = lift (Producer_Ping (NewProducer W cfg))"
    show ?thesis using assms(3) unfolding p by (rule ping_Kafka) (simp add: NewProducer_def)
  qed
qed

text \<open>A request obeys what the methods of the service obey that its method can reach.\<close>

lemma request_obeys:
  assumes "request_step W hp cfg r s w t" "lawful stored R"
    and "rq_Method r = ''GET'' \<Longrightarrow> reading R (app_packages W) (app_service W cfg)"
    and "rq_Method r = ''DELETE'' \<Longrightarrow> deleting R (rq_Header r HeaderUserID) (app_packages W) (app_service W cfg)"
    and "rq_Method r = ''POST'' \<Longrightarrow> uploading R (app_packages W) (app_service W cfg)"
  shows "R s t"
proof -
  let ?n = "if MaxUploadBytes cfg \<le> 0 then MaxFileSize else MaxUploadBytes cfg"
  obtain todo where todo: "set todo = set (checks (app_health W cfg))"
    and run: "NewRouter (app_packages W) hp cfg \<lparr>ah_svc = app_service W cfg, ah_maxBytes = ?n\<rparr> (Health todo)
       \<lparr>wh_svc = app_service W cfg, wh_maxBytes = ?n\<rparr> r fresh_writer s = (w, t)"
    using assms(1) by (auto simp: request_step_def server_handler_def NewWebHandler_def NewAvatarHandler_def Let_def)
  have health: "obeys R m hdr (Health todo)" for m hdr
    by (rule obeys_Health [OF assms(2)], rule lawful_view [OF assms(2)], rule health_pings [OF todo])
  have "obeys R (rq_Method r) (rq_Header r)
      (NewRouter (app_packages W) hp cfg \<lparr>ah_svc = app_service W cfg, ah_maxBytes = ?n\<rparr> (Health todo)
       \<lparr>wh_svc = app_service W cfg, wh_maxBytes = ?n\<rparr>)"
    by (rule obeys_NewRouter [OF assms(2) _ health])
      (use assms(3-5) in \<open>simp_all add: app_packages_def\<close>)
  then show ?thesis using run obeysD by (metis snd_conv)
qed

lemma lawful_stored:
  assumes "transp R" "\<And>s t. stored s = stored t \<Longrightarrow> R s t"
  shows "lawful stored R"
  using assms by (simp add: lawful_def)

end

section \<open>Routing by path and method\<close>

text \<open>A pattern against a path, in segments; the result binds the parameters.\<close>

fun sim_match :: "string list \<Rightarrow> string list \<Rightarrow> (string \<times> string) list option" where
  "sim_match [] [] = Some []"
| "sim_match [p] xs = (if p = ''*'' then Some [] else if xs = [p] then Some []
     else if p \<noteq> [] \<and> hd p = CHR 0x7B \<and> length xs = 1 then Some [(tl (butlast p), hd xs)] else None)"
| "sim_match (p # ps) (x # xs) =
     (if p = x then sim_match ps xs
      else if p \<noteq> [] \<and> hd p = CHR 0x7B then map_option ((#) (tl (butlast p), x)) (sim_match ps xs) else None)"
| "sim_match _ _ = None"

fun sim_mux :: "'s route list \<Rightarrow> 's handler" where
  "sim_mux [] r w s = (http_Error ''404 page not found'' 404 w, s)"
| "sim_mux (ro # rs) r w s =
     (case sim_match (SplitByte (CHR ''/'') (ro_Pattern ro)) (SplitByte (CHR ''/'') (rq_Path r)) of
        Some ps \<Rightarrow>
          if ro_Method ro = ''*'' \<or> ro_Method ro = rq_Method r
          then ro_Handler ro (r\<lparr>rq_Param := (\<lambda>k. case map_of ps k of None \<Rightarrow> [] | Some v \<Rightarrow> v)\<rparr>) w s
          else sim_mux rs r w s
      | None \<Rightarrow> sim_mux rs r w s)"

text \<open>A limiter that refuses when more requests than its limit have been counted.\<close>

definition sim_limit ::
    "string \<Rightarrow> int \<Rightarrow> int \<Rightarrow> (Request \<Rightarrow> string) \<Rightarrow> 'e sys handler option \<Rightarrow> 'e sys handler \<Rightarrow> 'e sys handler" where
  "sim_limit limiter n window key refuse h r w s =
    (if int (length (metrics s)) < 1000 * n then h r w s
     else (case refuse of None \<Rightarrow> (http_Error ''Too Many Requests'' 429 w, s) | Some f \<Rightarrow> f r w s))"

definition sim_http :: "sim sys http_packages" where
  "sim_http =
    \<lparr>hp_Clean = id, hp_FileServer = (\<lambda>path. WriteBody (Octets path)), hp_RequestID = id, hp_Recoverer = id,
     hp_Timeout = (\<lambda>n. id), hp_cors = (\<lambda>opts. id), hp_LimitBy = sim_limit,
     hp_metrics = (\<lambda>r w s. (WriteBody (Text ''metrics'') w, s)), hp_pattern = (\<lambda>r. []), hp_mux = sim_mux\<rparr>"

lemma sim_mux_obeys:
  assumes "lawful view R"
    and "\<And>ro. ro \<in> set rs \<Longrightarrow> ro_Method ro = ''*'' \<or> ro_Method ro = m \<Longrightarrow> obeys R m hdr (ro_Handler ro)"
  shows "obeys R m hdr (sim_mux rs)"
proof (rule obeysI)
  fix r :: Request and w and s :: 'a
  assume r: "rq_Method r = m" "rq_Header r = hdr"
  show "R s (snd (sim_mux rs r w s))"
    using assms(2)
  proof (induction rs)
    case Nil
    then show ?case by (simp add: lawful_refl [OF assms(1)])
  next
    case (Cons ro rs)
    have rest: "R s (snd (sim_mux rs r w s))" by (rule Cons.IH) (rule Cons.prems, auto)
    have "R s (snd (ro_Handler ro (r\<lparr>rq_Param := f\<rparr>) w s))" if "ro_Method ro = ''*'' \<or> ro_Method ro = rq_Method r" for f
      using that r by (intro obeysD [OF Cons.prems]) auto
    then show ?case using rest by (simp split: option.split)
  qed
qed

interpretation served: served_world sim_world sim_config sim_objects sim_logs sim_http
proof (unfold_locales)
  fix R and m :: string and hdr and h :: "sim sys handler" and n :: int and opts
  assume "obeys R m hdr h"
  then show "obeys R m hdr (hp_RequestID sim_http h)" "obeys R m hdr (hp_Recoverer sim_http h)"
    "obeys R m hdr (hp_Timeout sim_http n h)" "obeys R m hdr (hp_cors sim_http opts h)"
    by (simp_all add: sim_http_def)
next
  fix R :: "sim sys \<Rightarrow> sim sys \<Rightarrow> bool" and m hdr h refuse limiter n window key
  assume "lawful (\<lambda>s. (tables s, sim_objects (outside s), sim_logs (outside s))) R" "obeys R m hdr h"
    "\<And>f. refuse = Some f \<Longrightarrow> obeys R m hdr f"
  then show "obeys R m hdr (hp_LimitBy sim_http limiter n window key refuse h)"
    by (auto simp: sim_http_def sim_limit_def obeys_def lawful_refl split: option.split)
next
  fix R :: "sim sys \<Rightarrow> sim sys \<Rightarrow> bool" and m hdr
  assume "lawful (\<lambda>s. (tables s, sim_objects (outside s), sim_logs (outside s))) R"
  then show "obeys R m hdr (hp_metrics sim_http)" by (simp add: sim_http_def obeys_pure)
next
  fix R :: "sim sys \<Rightarrow> sim sys \<Rightarrow> bool" and m hdr and rs :: "sim sys route list"
  assume "lawful (\<lambda>s. (tables s, sim_objects (outside s), sim_logs (outside s))) R"
    "\<And>ro. ro \<in> set rs \<Longrightarrow> ro_Method ro = ''*'' \<or> ro_Method ro = m \<Longrightarrow> obeys R m hdr (ro_Handler ro)"
  then show "obeys R m hdr (hp_mux sim_http rs)" by (simp add: sim_http_def sim_mux_obeys)
qed (auto simp: sim_world_def sim_minio_def sim_kafka_client_def keeps_def)

section \<open>Requests\<close>

context served_world
begin

text \<open>The relations on the state that the properties state do not look beyond what is stored.\<close>

lemma lawful_same: "lawful stored app.same_data"
  by (rule lawful_stored) (auto simp: app.same_data_def transp_def)

lemma lawful_own: "lawful stored (app.deletes_own u)"
  by (rule lawful_stored [OF app.deletes_own_trans]) (simp add: app.deletes_own_def)

lemma lawful_inv: "lawful stored (\<lambda>s t. app.inv s \<longrightarrow> app.inv t)"
  by (rule lawful_stored) (auto simp: app.inv_def transp_def)

lemma program_inv: "(program_step W hp cfg)\<^sup>*\<^sup>* s t \<Longrightarrow> app.inv s \<Longrightarrow> app.inv t"
proof (induction rule: rtranclp_induct)
  case (step t u)
  from step.hyps(2) show ?case
  proof cases
    case (program_request r w)
    have "app.inv t \<longrightarrow> app.inv u"
      by (rule request_obeys [OF program_request lawful_inv])
        (rule app.reading_inv app.deleting_inv app.uploading_inv)+
    then show ?thesis using step by blast
  next
    case program_service
    then show ?thesis using step app.inv_step by blast
  qed
qed simp

lemma GET_same: "request_step W hp cfg r s w t \<Longrightarrow> rq_Method r = ''GET'' \<Longrightarrow> app.same_data s t"
  by (rule request_obeys [OF _ lawful_same]) (auto simp: app.reading_same)

lemma DELETE_own: "request_step W hp cfg r s w t \<Longrightarrow> rq_Method r = ''DELETE'' \<Longrightarrow> app.deletes_own (rq_Header r HeaderUserID) s t"
  by (rule request_obeys [OF _ lawful_own]) (auto simp: app.deleting_own)

end

text \<open>
  C2. The promise of the transactional outbox holds for the program as a whole: from the empty
  database, every interleaving of requests to the server (any method, path, header and body, from
  any number of clients) with calls of the service by the workers leads to a state in which every
  live avatar has its upload event recorded, every avatar that was stored and is gone has its delete
  event recorded, and every recorded event waits in the outbox or has been written to its topic.
\<close>

theorem program_promise:
  assumes "served_world W cfg objects logs hp" "tables s = empty_db" "(program_step W hp cfg)\<^sup>*\<^sup>* s t"
  shows "(\<forall>i a. db_live (tables t) i = Some a \<longrightarrow>
        (\<exists>p. db_events (tables t) (UploadEventID (w_uuid_String W i)) = Some (OutboxUpload, p)))
    \<and> (\<forall>i. db_events (tables t) (UploadEventID (w_uuid_String W i)) \<noteq> None \<longrightarrow> db_live (tables t) i = None \<longrightarrow>
        (\<exists>p. db_events (tables t) (DeleteEventID (w_uuid_String W i)) = Some (OutboxDelete, p)))
    \<and> (\<forall>eid k p. db_events (tables t) eid = Some (k, p) \<longrightarrow> decodes k p \<and>
        (eid \<in> oe_EventID ` set (db_unpub (tables t)) \<or> delivered (upload_topic logs cfg t) (delete_topic logs cfg t) k p))"
proof -
  have out: "outside_world W cfg objects logs" using assms(1) by (simp add: served_world_def)
  note b = outside_world.backend [OF out]
  from served_world.program_inv [OF assms(1,3) outside_world.empty_inv [OF out assms(2)]] show ?thesis
    unfolding avatar_backend.inv_def [OF b] recorded_def by (auto simp: app_packages_def)
qed

text \<open>
  C9. Reading changes nothing: a GET request, on whatever path and however it ends, leaves avatars,
  events, the outbox, the objects and the topics as they were.
\<close>

theorem GET_changes_nothing:
  assumes "served_world W cfg objects logs hp" "wf_db (tables s)" "rq_Method r = ''GET''"
    and "request_step W hp cfg r s w t"
  shows "wf_db (tables t) \<and> db_live (tables t) = db_live (tables s) \<and> db_events (tables t) = db_events (tables s)
    \<and> db_unpub (tables t) = db_unpub (tables s) \<and> bucket objects cfg t = bucket objects cfg s
    \<and> upload_topic logs cfg t = upload_topic logs cfg s \<and> delete_topic logs cfg t = delete_topic logs cfg s"
proof -
  have "outside_world W cfg objects logs" using assms(1) by (simp add: served_world_def)
  note b = outside_world.backend [OF this]
  from served_world.GET_same [OF assms(1,4,3)] assms(2) show ?thesis
    unfolding avatar_backend.same_data_def [OF b] by simp
qed

text \<open>
  C8. A DELETE request takes nothing from anybody else: whatever its path and its header, an avatar
  is as it was or is gone, and then it belonged to the user in the header \<open>X-User-ID\<close> and the delete
  event that names all its objects is recorded; the objects themselves and the topics are untouched.
\<close>

theorem DELETE_takes_own:
  assumes "served_world W cfg objects logs hp" "wf_db (tables s)" "rq_Method r = ''DELETE''"
    and "request_step W hp cfg r s w t"
  shows "wf_db (tables t) \<and> bucket objects cfg t = bucket objects cfg s
    \<and> upload_topic logs cfg t = upload_topic logs cfg s \<and> delete_topic logs cfg t = delete_topic logs cfg s
    \<and> (\<forall>i. db_live (tables t) i = db_live (tables s) i
        \<or> db_live (tables t) i = None \<and> (\<exists>a. db_live (tables s) i = Some a \<and> av_UserID a = rq_Header r HeaderUserID
            \<and> db_events (tables t) (DeleteEventID (w_uuid_String W i)) =
                Some (OutboxDelete, marshal_delete (delete_event (app_packages W) a))))"
proof -
  have "outside_world W cfg objects logs" using assms(1) by (simp add: served_world_def)
  note b = outside_world.backend [OF this]
  have "uuid_String (app_packages W) = w_uuid_String W" by (simp add: app_packages_def)
  with served_world.DELETE_own [OF assms(1,4,3)] assms(2) show ?thesis
    unfolding avatar_backend.deletes_own_def [OF b] by auto
qed

text \<open>Examples: alice deletes her avatar, bob reads it.\<close>

definition run_request :: "string \<Rightarrow> string \<Rightarrow> string \<Rightarrow> Request" where
  "run_request m path u =
    \<lparr>rq_Method = m, rq_Path = path, rq_Header = (\<lambda>k. if k = HeaderUserID then u else []),
     rq_RemoteAddr = ''10.0.0.1:4711'', rq_Query = (\<lambda>_. []), rq_Param = (\<lambda>_. []), rq_UserID = None,
     rq_Form = (\<lambda>_ _. Inl (ErrText ''no form''))\<rparr>"

definition run_handler :: "sim sys handler" where
  "run_handler = projr (server_handler sim_world sim_http None sim_config (checks (app_health sim_world sim_config)))"

lemma run_handler_eq: "server_handler sim_world sim_http None sim_config (checks (app_health sim_world sim_config)) = Inr run_handler"
  by (simp add: run_handler_def server_handler_def NewWebHandler_def Let_def)

lemma run_request_step: "run_handler r fresh_writer s = (w, t) \<Longrightarrow> request_step sim_world sim_http sim_config r s w t"
  using run_handler_eq unfolding request_step_def by blast

lemma run_latest: "GetLatestByUserID (svc_repo sim_service) ''alice'' sys1 = (Inr run_avatar, sys1)"
  by (simp add: run sim_service_def repo_GetLatestByUserID_def select_latest_def run_avatar_def sys1_def run_outbox_def del: runes.simps)

lemma run_DeleteLatest: "DeleteLatest sim_packages sim_service ''alice'' sys1 = (None, sys4)"
  by (simp add: DeleteLatest_def run_latest valid_alice run_Delete run_avatar_def)

lemma run_delete:
  "\<exists>w. run_handler (run_request ''DELETE'' ''/api/v1/users/alice/avatar'' ''alice'') fresh_writer sys1 =
     (w, observe_sys (HTTPDuration ''DELETE'' ''/api/v1/users/alice/avatar'') (observe_sys (HTTPRequests ''DELETE'' ''/api/v1/users/alice/avatar'' (Itoa 204)) sys4))
     \<and> wr_Status w = 204"
proof -
  have [simp]: "observe sim_packages = observe_sys" "length (metrics sys1) = 3" "RateLimitRPS sim_config = 20"
    by (simp_all add: sim_packages_def app_packages_def sys1_def sim_config_def)
  show ?thesis
    by (simp add: run_handler_def server_handler_def NewWebHandler_def NewAvatarHandler_def Let_def NewRouter_def sim_http_def HTTP_def
      run_request_def SecurityHeaders_def routes_def api_routes_def web_routes_def CORS_def RateLimit_def sim_limit_def UserID_def
      AH_DeleteByUser_def valid_alice run_DeleteLatest fresh_writer_def WithUserID_def UserIDFrom_def
      flip: sim_packages_def sim_service_def)
qed

definition sys7 :: "sim sys" where
  "sys7 = snd (run_handler (run_request ''DELETE'' ''/api/v1/users/alice/avatar'' ''alice'') fresh_writer sys1)"

lemma run_delete_step: "\<exists>w. request_step sim_world sim_http sim_config (run_request ''DELETE'' ''/api/v1/users/alice/avatar'' ''alice'') sys1 w sys7"
  using run_request_step [OF prod.collapse [symmetric]] unfolding sys7_def by blast

lemma tables_sys7: "tables sys7 = tables sys4"
  using run_delete by (auto simp: sys7_def)

lemma run_deleted: "db_live (tables sys7) 1 = None" "db_events (tables sys7) (UploadEventID (uuid_format 1)) \<noteq> None"
  unfolding tables_sys7
  by (simp_all add: sys4_def run sim_packages_def sim_service_def sys1_def run_outbox_def db_live_def lookup_row_def live_row_def
      db_events_def del: runes.simps)

lemma run_program: "(program_step sim_world sim_http sim_config)\<^sup>*\<^sup>* sys_start sys7"
proof -
  have "program_step sim_world sim_http sim_config sys_start sys1"
    by (rule program_service, rule svc_Upload [OF run_Upload [unfolded sim_packages_def sim_service_def]])
  moreover have "program_step sim_world sim_http sim_config sys1 sys7"
    using run_delete_step program_request by metis
  ultimately show ?thesis by simp
qed

theorem program_promise_witness:
  "\<exists>p. db_events (tables sys7) (DeleteEventID (w_uuid_String sim_world 1)) = Some (OutboxDelete, p)"
  using program_promise [OF served.served_world_axioms _ run_program] run_deleted
  by (simp add: sys_start_def sim_world_def)

theorem GET_changes_nothing_witness:
  "db_live (tables (snd (run_handler (run_request ''GET'' ''/api/v1/users/alice/avatar'' ''bob'') fresh_writer sys1))) = db_live (tables sys1)
   \<and> bucket sim_objects sim_config (snd (run_handler (run_request ''GET'' ''/api/v1/users/alice/avatar'' ''bob'') fresh_writer sys1))
     = bucket sim_objects sim_config sys1"
  using GET_changes_nothing [OF served.served_world_axioms wf_runs(2) _ run_request_step [OF prod.collapse [symmetric]]]
  by (simp add: run_request_def)

theorem DELETE_takes_own_witness:
  "\<exists>a. db_live (tables sys1) 1 = Some a \<and> av_UserID a = ''alice''
     \<and> db_events (tables sys7) (DeleteEventID (w_uuid_String sim_world 1)) =
         Some (OutboxDelete, marshal_delete (delete_event (app_packages sim_world) a))"
proof -
  obtain w where w: "request_step sim_world sim_http sim_config (run_request ''DELETE'' ''/api/v1/users/alice/avatar'' ''alice'') sys1 w sys7"
    using run_delete_step by blast
  have live: "db_live (tables sys1) 1 \<noteq> db_live (tables sys7) 1"
    using run_deleted(1) by (simp add: db_live_def lookup_row_def live_row_def sys1_def run_row_def)
  have "rq_Method (run_request ''DELETE'' ''/api/v1/users/alice/avatar'' ''alice'') = ''DELETE''"
    and u: "rq_Header (run_request ''DELETE'' ''/api/v1/users/alice/avatar'' ''alice'') HeaderUserID = ''alice''"
    by (simp_all add: run_request_def)
  note own = DELETE_takes_own [OF served.served_world_axioms wf_runs(2) this(1) w, unfolded u]
  from own [THEN conjunct2, THEN conjunct2, THEN conjunct2, THEN conjunct2, rule_format, of 1]
  show ?thesis using live by (metis (no_types, lifting))
qed

end
