(* ===== verification/Http_Properties.thy ===== *)
theory Http_Properties
  imports Server_Properties "HOL-Library.Multiset"
begin

text \<open>
  What clients see: when an upload is answered with success, how errors are answered, what the health
  check reports and what address a client is known by.
\<close>

section \<open>Errors\<close>

text \<open>The errors that clients are told about, and what they are told: the status code and the text.\<close>

definition client_answers :: "(goerr \<times> int \<times> string) list" where
  "client_answers =
    [(ErrAvatarNotFound, 404, ''Avatar not found''), (ErrForbidden, 403, ''Forbidden''),
     (ErrInvalidUserID, 400, ''Invalid user id''), (ErrFileRequired, 400, ''file is required''),
     (ErrFileTooLarge, 413, ''File too large''), (ErrInvalidFileFormat, 400, ''Invalid file format''),
     (ErrInvalidImage, 400, ''Invalid file format''), (ErrImageTooLarge, 400, ''Image too large''),
     (ErrInvalidSizeParam, 400, ''Invalid size''), (ErrInvalidFormatParam, 400, ''Invalid format'')]"

abbreviation client_errors :: "goerr set" where
  "client_errors \<equiv> fst ` set client_answers"

text \<open>Of these errors, \<open>err\<close> is \<open>e\<close> and no other.\<close>

definition only_is :: "goerr \<Rightarrow> goerr \<Rightarrow> bool" where
  "only_is err e \<longleftrightarrow> errors_Is err e \<and> (\<forall>e' \<in> client_errors. errors_Is err e' \<longrightarrow> e' = e)"

lemma writeJSON_http_simps [simp]:
  "wr_Body (writeJSON_http n j w) = wr_Body w @ [Json j]"
  "wr_Status w = 0 \<Longrightarrow> n \<noteq> 0 \<Longrightarrow> wr_Status (writeJSON_http n j w) = n"
  by (simp_all add: writeJSON_http_def)

lemma writeJSON_http_type:
  "wr_Status w = 0 \<Longrightarrow> map_of (wr_Header (writeJSON_http n j w)) ''Content-Type'' = Some ''application/json''"
  by (simp add: writeJSON_http_def WriteBody_def WriteHeader_def SetHeader_def Let_def update_conv')

lemma writeError_json: "(\<And>n j. Q (writeJSON_http n j w)) \<Longrightarrow> Q (writeError err w)"
  unfolding writeError_def by (simp only: if_bool_eq_conj split: if_split) simp

text \<open>The answer depends only on which of the listed errors are wrapped in \<open>err\<close>.\<close>

lemma writeError_cong:
  assumes "\<forall>e \<in> client_errors. errors_Is err' e = errors_Is err e"
  shows "writeError err' w = writeError err w"
proof -
  have "errors_Is err' e = errors_Is err e" if "e \<in> client_errors" for e using assms that by blast
  then show ?thesis by (simp add: writeError_def client_answers_def)
qed

lemma writeError_listed:
  assumes "(e, n, msg) \<in> set client_answers" "only_is err e"
  shows "\<exists>details. writeError err w = writeJSON_http n (JObj details) w \<and> map_of details ''error'' = Some (JStr msg)"
proof -
  have isx: "e' \<in> client_errors \<Longrightarrow> errors_Is err e' = (e' = e)" for e' using assms(2) by (auto simp: only_is_def)
  have "errors_Is err ErrAvatarNotFound = (ErrAvatarNotFound = e)" "errors_Is err ErrForbidden = (ErrForbidden = e)"
    "errors_Is err ErrInvalidUserID = (ErrInvalidUserID = e)" "errors_Is err ErrFileRequired = (ErrFileRequired = e)"
    "errors_Is err ErrFileTooLarge = (ErrFileTooLarge = e)" "errors_Is err ErrInvalidFileFormat = (ErrInvalidFileFormat = e)"
    "errors_Is err ErrInvalidImage = (ErrInvalidImage = e)" "errors_Is err ErrImageTooLarge = (ErrImageTooLarge = e)"
    "errors_Is err ErrInvalidSizeParam = (ErrInvalidSizeParam = e)" "errors_Is err ErrInvalidFormatParam = (ErrInvalidFormatParam = e)"
    by (rule isx, simp add: client_answers_def)+
  then show ?thesis using assms(1)
    unfolding writeError_def client_answers_def list.set insert_iff empty_iff prod.inject
    by (elim disjE conjE FalseE) (simp_all, (rule exI, rule conjI, rule refl, simp)+)
qed

lemma writeError_unlisted:
  assumes "\<forall>e \<in> client_errors. \<not> errors_Is err e"
  shows "writeError err w = writeJSON_http 500 (JObj [(''error'', JStr ''internal server error'')]) w"
  using assms by (simp add: writeError_def client_answers_def)

text \<open>
  C27. How errors are answered.  An error that wraps one of the ten listed errors gets that error's status
  code and text; one that wraps none of them (of the database, the object store, the broker, but also the
  other errors of \<open>domain/errors.go\<close>) gets 500 and \<open>internal server error\<close> and nothing else.  Nothing leaks: two errors
  in which the same of the ten are wrapped get the same answer, whatever texts, causes and context they carry
  besides; so wrapping an error never changes its answer.
\<close>

theorem writeError_hides:
  assumes "wr_Status w = 0"
  shows "(\<forall>(e, n, msg) \<in> set client_answers. only_is err e \<longrightarrow>
        wr_Status (writeError err w) = n
        \<and> (\<exists>details. wr_Body (writeError err w) = wr_Body w @ [Json (JObj details)] \<and> map_of details ''error'' = Some (JStr msg)))
    \<and> ((\<forall>e \<in> client_errors. \<not> errors_Is err e) \<longrightarrow>
        wr_Status (writeError err w) = 500
        \<and> wr_Body (writeError err w) = wr_Body w @ [Json (JObj [(''error'', JStr ''internal server error'')])])
    \<and> (\<forall>err'. (\<forall>e \<in> client_errors. errors_Is err' e = errors_Is err e) \<longrightarrow> writeError err' w = writeError err w)
    \<and> writeError (ErrWrap m err) w = writeError err w
    \<and> map_of (wr_Header (writeError err w)) ''Content-Type'' = Some ''application/json''"
proof (intro conjI)
  show "\<forall>(e, n, msg) \<in> set client_answers. only_is err e \<longrightarrow>
        wr_Status (writeError err w) = n
        \<and> (\<exists>details. wr_Body (writeError err w) = wr_Body w @ [Json (JObj details)] \<and> map_of details ''error'' = Some (JStr msg))"
  proof (clarify)
    fix e n msg assume e: "(e, n, msg) \<in> set client_answers" "only_is err e"
    then have "n \<noteq> 0" by (auto simp: client_answers_def)
    then show "wr_Status (writeError err w) = n
        \<and> (\<exists>details. wr_Body (writeError err w) = wr_Body w @ [Json (JObj details)] \<and> map_of details ''error'' = Some (JStr msg))"
      using writeError_listed [OF e, of w] assms by auto
  qed
  show "writeError (ErrWrap m err) w = writeError err w"
    by (rule writeError_cong) (auto simp: client_answers_def)
  show "(\<forall>e \<in> client_errors. \<not> errors_Is err e) \<longrightarrow> wr_Status (writeError err w) = 500
      \<and> wr_Body (writeError err w) = wr_Body w @ [Json (JObj [(''error'', JStr ''internal server error'')])]"
    using writeError_unlisted [of err w] assms by simp
  show "\<forall>err'. (\<forall>e \<in> client_errors. errors_Is err' e = errors_Is err e) \<longrightarrow> writeError err' w = writeError err w"
    using writeError_cong [of _ err w] by blast
  show "map_of (wr_Header (writeError err w)) ''Content-Type'' = Some ''application/json''"
    by (rule writeError_json, rule writeJSON_http_type, rule assms)
qed

theorem writeError_hides_witness:
  "wr_Status (writeError (ErrWrap ''put object'' (ErrExternal ''10.0.0.7: connection refused'')) fresh_writer) = 500
    \<and> wr_Status (writeError (ErrWrap ''upload'' ErrFileTooLarge) fresh_writer) = 413"
proof
  have w: "wr_Status fresh_writer = 0" by (simp add: fresh_writer_def)
  show "wr_Status (writeError (ErrWrap ''put object'' (ErrExternal ''10.0.0.7: connection refused'')) fresh_writer) = 500"
    using writeError_hides [OF w, of "ErrWrap ''put object'' (ErrExternal ''10.0.0.7: connection refused'')", THEN conjunct2, THEN conjunct1]
    by (simp add: client_answers_def)
  have "(ErrFileTooLarge, 413, ''File too large'') \<in> set client_answers" "only_is (ErrWrap ''upload'' ErrFileTooLarge) ErrFileTooLarge"
    by (simp_all add: client_answers_def only_is_def)
  then show "wr_Status (writeError (ErrWrap ''upload'' ErrFileTooLarge) fresh_writer) = 413"
    using writeError_hides [OF w, THEN conjunct1] by blast
qed

section \<open>Uploads\<close>

text \<open>A file that is read within the limit has been read to its end.\<close>

lemma ReadLimited_whole:
  assumes "ReadLimited (n + 1) part = Inr data" "int (length data) \<le> n"
  shows "part = (data, None)"
  using assms by (cases part) (auto simp: ReadLimited_def split: if_splits option.splits)

lemma ReadLimited_long:
  assumes "int (length (fst part)) > n" "0 \<le> n"
  shows "ReadLimited (n + 1) part = Inr (take (nat (n + 1)) (fst part))"
  using assms by (simp add: ReadLimited_def)

lemma writeError_status: "wr_Status w = 0 \<Longrightarrow> wr_Status (writeError e w) \<noteq> 201"
  by (simp add: writeError_def)

lemma AH_Upload_long:
  assumes "AH_Upload P h r w s = (w', t)" "0 < ah_maxBytes h" "ah_maxBytes h < 2 ^ 63 - 512 * 1024"
    and "rq_Form r (ah_maxBytes h + 512 * 1024) (ah_maxBytes h) = Inr form" "fm_File form ''file'' = Inr (name, part)"
    and "ah_maxBytes h < int (length (fst part))"
  shows "w' = writeError ErrFileTooLarge w \<and> t = s"
proof -
  have wraps: "wrap64 (ah_maxBytes h + 512 * 1024) = ah_maxBytes h + 512 * 1024" "wrap64 (ah_maxBytes h + 1) = ah_maxBytes h + 1"
    using assms(2,3) by (auto intro: wrap64_id)
  have "ReadLimited (ah_maxBytes h + 1) part = Inr (take (nat (ah_maxBytes h + 1)) (fst part))"
    using assms(2,6) by (intro ReadLimited_long) auto
  moreover have "\<not> int (length (take (nat (ah_maxBytes h + 1)) (fst part))) \<le> ah_maxBytes h"
    using assms(2,6) by simp
  ultimately obtain data where "ReadLimited (ah_maxBytes h + 1) part = Inr data" "\<not> int (length data) \<le> ah_maxBytes h"
    by blast
  then show ?thesis using assms(1,4,5) unfolding AH_Upload_def Let_def wraps by auto
qed

lemma AH_Upload_created:
  assumes "AH_Upload P h r w s = (w', t)" "0 < ah_maxBytes h" "ah_maxBytes h < 2 ^ 63 - 512 * 1024"
    and "wr_Status w = 0" "wr_Status w' = 201"
  shows "\<exists>form name data a rest. rq_Form r (ah_maxBytes h + 512 * 1024) (ah_maxBytes h) = Inr form
    \<and> fm_File form ''file'' = Inr (name, data, None) \<and> Upload P (ah_svc h) (UserIDFrom r) name data s = (Inr a, t)
    \<and> wr_Body w' = wr_Body w @ [Json (JObj ((''id'', marshal_string (uuid_String P (av_ID a))) # rest))]"
proof -
  have wraps: "wrap64 (ah_maxBytes h + 512 * 1024) = ah_maxBytes h + 512 * 1024" "wrap64 (ah_maxBytes h + 1) = ah_maxBytes h + 1"
    using assms(2,3) by (auto intro: wrap64_id)
  note no = writeError_status [OF assms(4)]
  from assms(1,5) no obtain form name part data where f: "rq_Form r (ah_maxBytes h + 512 * 1024) (ah_maxBytes h) = Inr form"
    "fm_File form ''file'' = Inr (name, part)" and rd: "ReadLimited (ah_maxBytes h + 1) part = Inr data" "int (length data) \<le> ah_maxBytes h"
    unfolding AH_Upload_def Let_def wraps by (auto split: sum.splits prod.splits if_splits)
  obtain ru s1 where up: "Upload P (ah_svc h) (UserIDFrom r) name data s = (ru, s1)" by fastforce
  from assms(1,5) no f rd up obtain a where "ru = Inr a" "t = s1"
    "w' = writeJSON_http 201 (uploadResponse_json
       \<lparr>ur_ID = uuid_String P (av_ID a), ur_UserID = av_UserID a, ur_URL = PublicURL P (ah_svc h) (av_ID a) SizeOriginal,
        ur_Status = ''processing'', ur_CreatedAt = FormatUTC (av_CreatedAt a)\<rparr>) w"
    unfolding AH_Upload_def Let_def wraps by (auto simp: not_less split: sum.splits prod.splits if_splits)
  moreover have "part = (data, None)" by (rule ReadLimited_whole [OF rd])
  ultimately show ?thesis using f up by (auto simp: uploadResponse_json_def)
qed

text \<open>
  C11. What a client is told about an upload is true.  Without a valid \<open>X-User-ID\<close> the answer is 400.  A
  body that cannot be read as a form is answered with 413 when it is longer than the limit and 512 KiB (the reader
  stops with a \<open>MaxBytesError\<close>) and with 400 otherwise, a form without a file with 400, and one whose
  file alone is above the limit with 413.  In all these cases nothing at all has happened.  An answer 201 means that the
  file of the form, to its last byte, is stored in the bucket, that a new avatar of the user in the
  header is live whose id the answer names, and that its upload event is recorded.
\<close>

theorem Upload_endpoint:
  assumes "outside_world W cfg objects logs" "wf_db (tables s)" "wr_Status w = 0"
    and "0 < MaxUploadBytes cfg" "MaxUploadBytes cfg < 2 ^ 63 - 512 * 1024"
    and "UserID (AH_Upload (app_packages W) (NewAvatarHandler (app_service W cfg) (MaxUploadBytes cfg))) r w s = (w', t)"
  shows "(ValidateUserID (rq_Header r HeaderUserID) \<noteq> None \<longrightarrow> wr_Status w' = 400 \<and> t = s)
    \<and> (\<forall>err. ValidateUserID (rq_Header r HeaderUserID) = None
         \<longrightarrow> rq_Form r (MaxUploadBytes cfg + 512 * 1024) (MaxUploadBytes cfg) = Inl err
         \<longrightarrow> wr_Status w' = (if errors_Is err MaxBytesError then 413 else 400) \<and> t = s)
    \<and> (\<forall>form err. ValidateUserID (rq_Header r HeaderUserID) = None
         \<longrightarrow> rq_Form r (MaxUploadBytes cfg + 512 * 1024) (MaxUploadBytes cfg) = Inr form \<longrightarrow> fm_File form ''file'' = Inl err
         \<longrightarrow> wr_Status w' = 400 \<and> t = s)
    \<and> (\<forall>form name part. ValidateUserID (rq_Header r HeaderUserID) = None
         \<longrightarrow> rq_Form r (MaxUploadBytes cfg + 512 * 1024) (MaxUploadBytes cfg) = Inr form \<longrightarrow> fm_File form ''file'' = Inr (name, part)
         \<longrightarrow> MaxUploadBytes cfg < int (length (fst part)) \<longrightarrow> wr_Status w' = 413 \<and> t = s)
    \<and> (wr_Status w' = 201 \<longrightarrow>
        (\<exists>form name data info a a' rest. rq_Form r (MaxUploadBytes cfg + 512 * 1024) (MaxUploadBytes cfg) = Inr form
          \<and> fm_File form ''file'' = Inr (name, data, None) \<and> Inspect (w_codecs W) data = Inr info
          \<and> av_ID a \<notin> db_used (tables s) \<and> av_UserID a = rq_Header r HeaderUserID \<and> same_core a a'
          \<and> db_live (tables t) = (db_live (tables s))(av_ID a \<mapsto> a')
          \<and> bucket objects cfg t = (bucket objects cfg s)(av_S3Key a \<mapsto> (info_MIME info, data))
          \<and> db_events (tables t) = (db_events (tables s))
              (UploadEventID (w_uuid_String W (av_ID a)) \<mapsto> (OutboxUpload, marshal_upload (recover_event (app_packages W) a)))
          \<and> wr_Body w' = wr_Body w @ [Json (JObj ((''id'', marshal_string (w_uuid_String W (av_ID a))) # rest))]))"
proof -
  let ?h = "NewAvatarHandler (app_service W cfg) (MaxUploadBytes cfg)"
  let ?u = "rq_Header r HeaderUserID"
  have h: "ah_svc ?h = app_service W cfg" "ah_maxBytes ?h = MaxUploadBytes cfg"
    using assms(4) by (simp_all add: NewAvatarHandler_def)
  have form: "rq_Form (WithUserID ?u r) = rq_Form r" by (simp add: WithUserID_def)
  have bad: "wr_Status w' = 400 \<and> t = s" if "ValidateUserID ?u \<noteq> None"
    using that assms(3,6) by (auto simp: UserID_def Let_def)
  have run: "AH_Upload (app_packages W) ?h (WithUserID ?u r) w s = (w', t)" if "ValidateUserID ?u = None"
    using that assms(6) by (simp add: UserID_def)
  have codes: "wr_Status (writeError ErrFileTooLarge w) = 413" "wr_Status (writeError ErrFileRequired w) = 400"
    using assms(3) by (simp_all add: writeError_def)
  have wrap: "wrap64 (MaxUploadBytes cfg + 512 * 1024) = MaxUploadBytes cfg + 512 * 1024"
    using assms(4,5) by (auto intro: wrap64_id)
  have noform: "wr_Status w' = (if errors_Is err MaxBytesError then 413 else 400) \<and> t = s"
    if "ValidateUserID ?u = None" "rq_Form r (MaxUploadBytes cfg + 512 * 1024) (MaxUploadBytes cfg) = Inl err" for err
    using run [OF that(1)] that(2) codes unfolding AH_Upload_def Let_def h wrap form by (auto simp: isTooLarge_def split: if_splits)
  have nofile: "wr_Status w' = 400 \<and> t = s"
    if "ValidateUserID ?u = None" "rq_Form r (MaxUploadBytes cfg + 512 * 1024) (MaxUploadBytes cfg) = Inr form"
      "fm_File form ''file'' = Inl err" for form err
    using run [OF that(1)] that(2,3) codes unfolding AH_Upload_def Let_def h wrap form by auto
  have long: "wr_Status w' = 413 \<and> t = s"
    if "ValidateUserID ?u = None" "rq_Form r (MaxUploadBytes cfg + 512 * 1024) (MaxUploadBytes cfg) = Inr form"
      "fm_File form ''file'' = Inr (name, part)" "MaxUploadBytes cfg < int (length (fst part))" for form name part
    using AH_Upload_long [OF run [OF that(1)], unfolded h form, OF assms(4,5) that(2-4)] codes by simp
  have "wr_Status w' = 201 \<Longrightarrow> ValidateUserID ?u = None" using bad by fastforce
  note created = AH_Upload_created [OF run [OF this], unfolded h form UserIDFrom_With, OF _ assms(4,5,3)]
  note success = avatar_backend.Upload_success [OF outside_world.backend [OF assms(1)] _ assms(2)]
  show ?thesis
  proof (intro conjI impI allI)
    assume "wr_Status w' = 201"
    from created [OF this this] obtain form name data a rest where c:
      "rq_Form r (MaxUploadBytes cfg + 512 * 1024) (MaxUploadBytes cfg) = Inr form" "fm_File form ''file'' = Inr (name, data, None)"
      "Upload (app_packages W) (app_service W cfg) ?u name data s = (Inr a, t)"
      "wr_Body w' = wr_Body w @ [Json (JObj ((''id'', marshal_string (uuid_String (app_packages W) (av_ID a))) # rest))]"
      by blast
    show "\<exists>form name data info a a' rest. rq_Form r (MaxUploadBytes cfg + 512 * 1024) (MaxUploadBytes cfg) = Inr form
          \<and> fm_File form ''file'' = Inr (name, data, None) \<and> Inspect (w_codecs W) data = Inr info
          \<and> av_ID a \<notin> db_used (tables s) \<and> av_UserID a = ?u \<and> same_core a a'
          \<and> db_live (tables t) = (db_live (tables s))(av_ID a \<mapsto> a')
          \<and> bucket objects cfg t = (bucket objects cfg s)(av_S3Key a \<mapsto> (info_MIME info, data))
          \<and> db_events (tables t) = (db_events (tables s))
              (UploadEventID (w_uuid_String W (av_ID a)) \<mapsto> (OutboxUpload, marshal_upload (recover_event (app_packages W) a)))
          \<and> wr_Body w' = wr_Body w @ [Json (JObj ((''id'', marshal_string (w_uuid_String W (av_ID a))) # rest))]"
      using c success [OF c(3)] by (auto simp: app_packages_def)
  qed (use bad noform nofile long in blast)+
qed

text \<open>Alice posts her picture.\<close>

definition run_post :: Request where
  "run_post = (run_request ''POST'' ''/api/v1/avatars/'' ''alice'')
     \<lparr>rq_Form := \<lambda>n m. Inr \<lparr>fm_Value = (\<lambda>_. []), fm_File = (\<lambda>_. Inr (''me.png'', a_png, None))\<rparr>\<rparr>"

lemma run_post_created:
  "\<exists>w. UserID (AH_Upload (app_packages sim_world) (NewAvatarHandler (app_service sim_world sim_config) (MaxUploadBytes sim_config)))
     run_post fresh_writer sys_start = (w, sys1) \<and> wr_Status w = 201"
proof -
  have [simp]: "MaxUploadBytes sim_config = 10485760" by (simp add: sim_config_def DefaultMaxUploadSize_def)
  show ?thesis
    by (simp add: UserID_def AH_Upload_def run_post_def run_request_def NewAvatarHandler_def valid_alice WithUserID_def UserIDFrom_def
      wrap64_def ReadLimited_def png_facts fresh_writer_def run_Upload flip: sim_packages_def sim_service_def)
qed

theorem Upload_endpoint_witness:
  "\<exists>w'. UserID (AH_Upload (app_packages sim_world) (NewAvatarHandler (app_service sim_world sim_config) (MaxUploadBytes sim_config)))
       run_post fresh_writer sys_start = (w', sys1)
    \<and> (\<exists>info key. Inspect (w_codecs sim_world) a_png = Inr info
        \<and> bucket sim_objects sim_config sys1 = (bucket sim_objects sim_config sys_start)(key \<mapsto> (info_MIME info, a_png)))"
proof -
  have m: "0 < MaxUploadBytes sim_config" "MaxUploadBytes sim_config < 2 ^ 63 - 512 * 1024" "wr_Status fresh_writer = 0"
    by (simp_all add: sim_config_def DefaultMaxUploadSize_def fresh_writer_def)
  obtain w where w: "UserID (AH_Upload (app_packages sim_world) (NewAvatarHandler (app_service sim_world sim_config) (MaxUploadBytes sim_config)))
     run_post fresh_writer sys_start = (w, sys1)" "wr_Status w = 201"
    using run_post_created by blast
  from Upload_endpoint [OF sim.outside_world_axioms wf_runs(1) m(3,1,2) w(1), THEN conjunct2, THEN conjunct2, THEN conjunct2, THEN conjunct2, rule_format, OF w(2)]
  obtain form name data info key where c: "rq_Form run_post (MaxUploadBytes sim_config + 512 * 1024) (MaxUploadBytes sim_config) = Inr form"
    "fm_File form ''file'' = Inr (name, data, None)" "Inspect (w_codecs sim_world) data = Inr info"
    "bucket sim_objects sim_config sys1 = (bucket sim_objects sim_config sys_start)(key \<mapsto> (info_MIME info, data))"
    by blast
  have "data = a_png" using c(1,2) by (auto simp: run_post_def)
  then show ?thesis using w(1) c(3,4) by blast
qed

section \<open>Health\<close>

text \<open>The results as the loop over the channel sees them.\<close>

lemma health_result_code:
  "health_result rs cs st code = (cs', st', code') \<Longrightarrow>
   (if \<forall>r \<in> set rs. snd r = None then (st', code') = (st, code) else (st', code') = (''fail'', 503))"
  by (induction rs cs st code rule: health_result.induct) (auto split: if_splits)

lemma health_result_map:
  "health_result rs cs st code = (cs', st', code') \<Longrightarrow>
   map_of cs' n = (case map_of (rev rs) n of None \<Rightarrow> map_of cs n
     | Some err \<Rightarrow> Some (if err = None then ''ok'' else ''fail''))"
  by (induction rs cs st code rule: health_result.induct)
    (auto simp: update_conv' map_add_def split: if_splits option.splits)

lemma ping_all_names: "map fst (fst (ping_all todo s)) = map fst todo"
  by (induction todo s rule: ping_all.induct) (auto split: prod.splits)

lemma ping_all_missing: "(n, None) \<in> set todo \<Longrightarrow> (n, Some errMissing) \<in> set (fst (ping_all todo s))"
  by (induction todo s rule: ping_all.induct) (auto split: prod.splits)

text \<open>
  C28. The health check is right for every order in which the concurrent pings happen: the answer is 200
  with status \<open>ok\<close> when all of them succeeded and 503 with status \<open>fail\<close> otherwise, each component
  is reported once, as \<open>ok\<close> exactly when its own ping succeeded, and one that is not configured fails.
\<close>

theorem Health_reports:
  assumes "mset todo = mset (checks h)" "wr_Status w = 0" "ping_all todo s = (rs, t)" "Health todo r w s = (w', t')"
  shows "t' = t \<and> map fst rs = map fst todo
    \<and> wr_Status w' = (if \<forall>x \<in> set rs. snd x = None then 200 else 503)
    \<and> (\<exists>components. wr_Body w' = wr_Body w @ [Json (JObj [(''components'', marshal_strmap components),
           (''status'', JStr (if \<forall>x \<in> set rs. snd x = None then ''ok'' else ''fail''))])]
        \<and> (\<forall>n err. (n, err) \<in> set rs \<longrightarrow> map_of components n = Some (if err = None then ''ok'' else ''fail''))
        \<and> dom (map_of components) = {''postgres'', ''s3'', ''kafka''})
    \<and> (\<forall>n. (n, None) \<in> set todo \<longrightarrow> wr_Status w' = 503)"
proof -
  obtain cs st code where h: "health_result rs [] ''ok'' 200 = (cs, st, code)" using prod_cases3 by blast
  have w': "w' = writeJSON_http code (JObj [(''components'', marshal_strmap cs), (''status'', JStr st)]) w" "t' = t"
    using assms(3,4) h by (simp_all add: Health_def)
  have names: "map fst rs = map fst todo" using ping_all_names [of todo s] assms(3) by simp
  have "mset (map fst todo) = mset (map fst (checks h))" using assms(1) by simp
  from mset_eq_setD [OF this] mset_eq_imp_distinct_iff [OF this]
  have todo: "set (map fst todo) = {''postgres'', ''s3'', ''kafka''}" "distinct (map fst todo)"
    by (simp_all add: checks_def)
  have cs: "map_of cs n = (case map_of (rev rs) n of None \<Rightarrow> None | Some err \<Rightarrow> Some (if err = None then ''ok'' else ''fail''))" for n
    using health_result_map [OF h, of n] by (simp split: option.split)
  have "distinct (map fst (rev rs))" using todo(2) names by (simp add: rev_map [symmetric])
  then have reported: "map_of cs n = Some (if err = None then ''ok'' else ''fail'')" if "(n, err) \<in> set rs" for n err
    using that by (simp add: cs)
  have "dom (map_of cs) = dom (map_of (rev rs))" by (auto simp: cs dom_def split: option.splits)
  also have "\<dots> = set (map fst rs)" by (simp add: dom_map_of_conv_image_fst)
  finally have dom: "dom (map_of cs) = {''postgres'', ''s3'', ''kafka''}" using todo(1) names by simp
  have code: "code = (if \<forall>x \<in> set rs. snd x = None then 200 else 503)" "st = (if \<forall>x \<in> set rs. snd x = None then ''ok'' else ''fail'')"
    using health_result_code [OF h] by (auto split: if_splits)
  have missing: "wr_Status w' = 503" if "(n, None) \<in> set todo" for n
    using ping_all_missing [OF that, of s] assms(2,3) by (force simp: w' code)
  have status: "wr_Status w' = code" using assms(2) code by (simp add: w')
  show ?thesis
  proof (intro conjI exI [of _ cs] allI impI)
    show "wr_Body w' = wr_Body w @ [Json (JObj [(''components'', marshal_strmap cs),
        (''status'', JStr (if \<forall>x \<in> set rs. snd x = None then ''ok'' else ''fail''))])]"
      unfolding w'(1) code(2) [symmetric] by simp
  qed (use w'(2) names status code(1) reported dom missing in blast)+
qed

theorem Health_reports_witness:
  "\<exists>w' components. Health (rev (checks \<lparr>hh_DB = Some (\<lambda>s. (None, s)), hh_S3 = Some (\<lambda>s. (Some (ErrText ''timeout''), s)), hh_Kafka = None\<rparr>))
       (run_request ''GET'' ''/health'' []) fresh_writer sys_start = (w', sys_start)
    \<and> wr_Status w' = 503 \<and> wr_Body w' = [Json (JObj [(''components'', marshal_strmap components), (''status'', JStr ''fail'')])]
    \<and> map_of components ''postgres'' = Some ''ok'' \<and> map_of components ''s3'' = Some ''fail''"
proof -
  let ?h = "\<lparr>hh_DB = Some (\<lambda>s. (None, s)), hh_S3 = Some (\<lambda>s. (Some (ErrText ''timeout''), s)), hh_Kafka = None\<rparr> :: sim sys HealthHandler"
  have "mset (rev (checks ?h)) = mset (checks ?h)" by (rule mset_rev)
  moreover have "wr_Status fresh_writer = 0" "wr_Body fresh_writer = []" by (simp_all add: fresh_writer_def)
  moreover have p: "ping_all (rev (checks ?h)) sys_start = ([(''kafka'', Some errMissing), (''s3'', Some (ErrText ''timeout'')), (''postgres'', None)], sys_start)"
    by (simp add: checks_def)
  moreover obtain w' t' where w: "Health (rev (checks ?h)) (run_request ''GET'' ''/health'' []) fresh_writer sys_start = (w', t')" by fastforce
  ultimately show ?thesis
    using Health_reports [of "rev (checks ?h)" ?h fresh_writer sys_start, OF _ _ p w] by (intro exI [of _ w']) auto
qed

section \<open>Addresses\<close>

lemma not_bracket_host: "hd (host @ CHR '':'' # port) = CHR ''['' \<Longrightarrow> CHR ''['' \<in> set host"
  by (cases host) auto

lemma SplitHostPort_Join:
  assumes "CHR ''['' \<notin> set host" "CHR '']'' \<notin> set host"
    and "CHR '':'' \<notin> set port" "CHR ''['' \<notin> set port" "CHR '']'' \<notin> set port"
  shows "SplitHostPort (JoinHostPort host port) = Some (host, port)"
proof (cases "CHR '':'' \<in> set host")
  case True
  have "last_colon (''['' @ host @ '']:'' @ port) = Some (''['' @ host @ '']'', port)"
    using last_colon_append [OF assms(3), of "''['' @ host @ '']''"] by simp
  moreover have "takeWhile (\<lambda>c. c \<noteq> CHR '']'') (host @ '']:'' @ port) = host"
    "dropWhile (\<lambda>c. c \<noteq> CHR '']'') (host @ '']:'' @ port) = '']:'' @ port"
    using assms(2) by (auto simp: takeWhile_append dropWhile_append)
  ultimately show ?thesis using True assms by (simp add: JoinHostPort_def SplitHostPort_def Let_def)
next
  case False
  then show ?thesis using assms last_colon_append [OF assms(3), of host] not_bracket_host [of host port]
    by (auto simp: JoinHostPort_def SplitHostPort_def)
qed

text \<open>
  A client is known by its host, of either address family and whatever its port: that is the
  address behind which requests to one route are counted, and uploads without a user id.
\<close>

lemma clientIP_host:
  assumes "rq_RemoteAddr r = JoinHostPort host port" "CHR ''['' \<notin> set host" "CHR '']'' \<notin> set host"
    and "CHR '':'' \<notin> set port" "CHR ''['' \<notin> set port" "CHR '']'' \<notin> set port"
  shows "clientIP r = host \<and> rate_key r = host @ '':'' @ rq_Method r @ '':'' @ rq_Path r
    \<and> (rq_Header r HeaderUserID = [] \<longrightarrow> upload_rate_key r = host)"
  using assms SplitHostPort_Join [of host port] by (simp add: clientIP_def rate_key_def upload_rate_key_def)

lemma clientIP_host_witness:
  "clientIP (run_request ''GET'' ''/'' []) = ''10.0.0.1''
   \<and> clientIP ((run_request ''GET'' ''/'' [])\<lparr>rq_RemoteAddr := ''[2001:db8::1]:4711''\<rparr>) = ''2001:db8::1''"
proof -
  have "clientIP (run_request ''GET'' ''/'' []) = ''10.0.0.1''"
    using clientIP_host [of "run_request ''GET'' ''/'' []" "''10.0.0.1''" "''4711''"] by (simp add: run_request_def JoinHostPort_def)
  moreover have "clientIP ((run_request ''GET'' ''/'' [])\<lparr>rq_RemoteAddr := ''[2001:db8::1]:4711''\<rparr>) = ''2001:db8::1''"
    using clientIP_host [of "(run_request ''GET'' ''/'' [])\<lparr>rq_RemoteAddr := ''[2001:db8::1]:4711''\<rparr>" "''2001:db8::1''" "''4711''"]
    by (simp add: JoinHostPort_def)
  ultimately show ?thesis by blast
qed

end
