(* ===== verification/Migrate.thy ===== *)
theory Migrate
  imports Domain
begin

text \<open>
  \<open>internal/migrate/migrate.go\<close>: the migrations that every server and every worker runs when it
  starts, so that several processes may run them at once.  A process is a \<open>task\<close>, a program that asks
  the database its queries and goes on with the answers; the database holds the catalog, the advisory
  lock and the transactions of the sessions.  One step of the system delivers one query of one process,
  or refuses it, or breaks the session before or after the query took effect, or kills the process, or
  starts it again.
\<close>

section \<open>The queries\<close>

datatype query = Acquire | AdvisoryLock | AdvisoryUnlock | CreateTable | Exists int
  | Begin | Script string | InsertVersion int | Commit | Rollback

datatype answer = Done | Found bool | Failed goerr

datatype task = Return "goerr option" | Ask query "answer \<Rightarrow> task"

text \<open>The embedded files: the names of the directory, with the mark of directories, and the contents.\<close>

record embed_fs =
  fs_ReadDir :: "(string \<times> bool) list result"
  fs_ReadFile :: "string \<Rightarrow> string result"

section \<open>The program\<close>

definition TrimSuffix :: "string \<Rightarrow> string \<Rightarrow> string" where
  "TrimSuffix s suf = (if suffix suf s then take (length s - length suf) s else s)"

definition versionOf :: "string \<Rightarrow> int result" where
  "versionOf name =
    (let base = TrimSuffix (Base name) ''.sql''; num = hd (SplitByte (CHR ''_'') base) in
     (case ParseInt num of
        None \<Rightarrow> Inl (ErrText (''invalid migration name '' @ name))
      | Some v \<Rightarrow> Inr v))"

text \<open>The deferred rollback asks nothing after \<open>Commit\<close>: the transaction is closed then.\<close>

definition applyFile :: "string \<Rightarrow> int \<Rightarrow> string \<Rightarrow> (goerr option \<Rightarrow> task) \<Rightarrow> task" where
  "applyFile name version sql k =
    Ask Begin (\<lambda>a. case a of
      Failed err \<Rightarrow> k (Some (ErrWrap (''begin '' @ name) err))
    | _ \<Rightarrow>
    Ask (Script sql) (\<lambda>a. case a of
      Failed err \<Rightarrow> Ask Rollback (\<lambda>_. k (Some (ErrWrap (''apply '' @ name) err)))
    | _ \<Rightarrow>
    Ask (InsertVersion version) (\<lambda>a. case a of
      Failed err \<Rightarrow> Ask Rollback (\<lambda>_. k (Some (ErrWrap (''record '' @ name) err)))
    | _ \<Rightarrow>
    Ask Commit (\<lambda>a. case a of
      Failed err \<Rightarrow> k (Some (ErrWrap (''commit '' @ name) err))
    | _ \<Rightarrow> k None))))"

fun up_files :: "embed_fs \<Rightarrow> string list \<Rightarrow> (goerr option \<Rightarrow> task) \<Rightarrow> task" where
  "up_files fs [] k = k None"
| "up_files fs (name # names) k =
    (case versionOf name of
       Inl err \<Rightarrow> k (Some err)
     | Inr version \<Rightarrow>
    Ask (Exists version) (\<lambda>a. case a of
      Found True \<Rightarrow> up_files fs names k
    | Found False \<Rightarrow>
       (case fs_ReadFile fs name of
          Inl err \<Rightarrow> k (Some (ErrWrap (''read '' @ name) err))
        | Inr sql \<Rightarrow> applyFile name version sql
            (\<lambda>err. case err of Some err \<Rightarrow> k (Some err) | None \<Rightarrow> up_files fs names k))
    | Failed err \<Rightarrow> k (Some (ErrWrap (''check migration '' @ Itoa version) err))
    | Done \<Rightarrow> k (Some (ErrText (''check migration '' @ Itoa version)))))"

definition migration_names :: "(string \<times> bool) list \<Rightarrow> string list" where
  "migration_names entries = sort (map fst (filter (\<lambda>(name, dir). \<not> dir \<and> suffix ''.sql'' name) entries))"

definition unlock_then :: "goerr option \<Rightarrow> task" where
  "unlock_then err = Ask AdvisoryUnlock (\<lambda>_. Return err)"

definition up_locked :: "embed_fs \<Rightarrow> task" where
  "up_locked fs =
    Ask CreateTable (\<lambda>a. case a of
      Failed err \<Rightarrow> unlock_then (Some (ErrWrap ''create schema_migrations'' err))
    | _ \<Rightarrow>
    (case fs_ReadDir fs of
       Inl err \<Rightarrow> unlock_then (Some (ErrWrap ''read migrations'' err))
     | Inr entries \<Rightarrow> up_files fs (migration_names entries) unlock_then))"

definition Up :: "embed_fs \<Rightarrow> task" where
  "Up fs =
    Ask Acquire (\<lambda>a. case a of
      Failed err \<Rightarrow> Return (Some (ErrWrap ''acquire conn'' err))
    | _ \<Rightarrow>
    Ask AdvisoryLock (\<lambda>a. case a of
      Failed err \<Rightarrow> Return (Some (ErrWrap ''advisory lock'' err))
    | _ \<Rightarrow> up_locked fs))"

section \<open>The database\<close>

text \<open>
  \<open>sv_versions\<close> are the rows of \<open>schema_migrations\<close> (\<open>None\<close>: there is no such table), \<open>sv_data\<close> is the
  rest of the schema, on which a script is a partial function (\<open>None\<close>: an SQL error).  A
  transaction works on a copy of both until it commits.
\<close>

record 'd server =
  sv_versions :: "int list option"
  sv_data :: 'd
  sv_owner :: "nat option"

datatype 'd session = Idle | InTx 'd "int list option" | Aborted | Dead

text \<open>A delivered query of session \<open>i\<close>; \<open>None\<close>: it waits for the lock.\<close>

fun run_query :: "(string \<Rightarrow> 'd \<Rightarrow> 'd option) \<Rightarrow> nat \<Rightarrow> query \<Rightarrow> 'd server \<Rightarrow> 'd session
    \<Rightarrow> (answer \<times> 'd server \<times> 'd session) option" where
  "run_query sql i Acquire sv se = Some (Done, sv, Idle)"
| "run_query sql i q sv Dead = Some (Failed (ErrExternal ''conn closed''), sv, Dead)"
| "run_query sql i AdvisoryLock sv se =
    (if sv_owner sv = None \<or> sv_owner sv = Some i then Some (Done, sv\<lparr>sv_owner := Some i\<rparr>, se) else None)"
| "run_query sql i AdvisoryUnlock sv se =
    Some (Done, (if sv_owner sv = Some i then sv\<lparr>sv_owner := None\<rparr> else sv), se)"
| "run_query sql i CreateTable sv se =
    Some (Done, (if sv_versions sv = None then sv\<lparr>sv_versions := Some []\<rparr> else sv), se)"
| "run_query sql i (Exists v) sv se =
    (case sv_versions sv of
       None \<Rightarrow> Some (Failed (ErrExternal ''relation does not exist''), sv, se)
     | Some vs \<Rightarrow> Some (Found (v \<in> set vs), sv, se))"
| "run_query sql i Begin sv se = Some (Done, sv, InTx (sv_data sv) (sv_versions sv))"
| "run_query sql i (Script t) sv (InTx d vs) =
    (case sql t d of
       None \<Rightarrow> Some (Failed (ErrExternal ''sql''), sv, Aborted)
     | Some d' \<Rightarrow> Some (Done, sv, InTx d' vs))"
| "run_query sql i (InsertVersion v) sv (InTx d vs) =
    (case vs of
       None \<Rightarrow> Some (Failed (ErrExternal ''relation does not exist''), sv, Aborted)
     | Some xs \<Rightarrow> if v \<in> set xs then Some (Failed (ErrExternal ''duplicate key''), sv, Aborted)
         else Some (Done, sv, InTx d (Some (xs @ [v]))))"
| "run_query sql i Commit sv (InTx d vs) = Some (Done, sv\<lparr>sv_data := d, sv_versions := vs\<rparr>, Idle)"
| "run_query sql i Commit sv se = Some (Failed (ErrExternal ''commit unexpectedly resulted in rollback''), sv, Idle)"
| "run_query sql i Rollback sv se = Some (Done, sv, Idle)"
| "run_query sql i q sv se = Some (Failed (ErrExternal ''current transaction is aborted''), sv, se)"

text \<open>The end of a session gives up its lock and drops its transaction.\<close>

definition end_session :: "nat \<Rightarrow> 'd server \<Rightarrow> 'd server" where
  "end_session i sv = (if sv_owner sv = Some i then sv\<lparr>sv_owner := None\<rparr> else sv)"

section \<open>The steps\<close>

text \<open>
  The server may refuse a query that it could run; that aborts an open transaction, and a refused commit
  ends it.  A connection whose rollback fails is closed by the driver, which is a broken session; so is,
  in this model, one whose unlock fails.
\<close>

definition refusable :: "query \<Rightarrow> bool" where
  "refusable q \<longleftrightarrow> q \<noteq> AdvisoryUnlock \<and> q \<noteq> Rollback"

definition refused_session :: "query \<Rightarrow> 'd session \<Rightarrow> 'd session" where
  "refused_session q se = (if q = Commit \<and> se \<noteq> Dead then Idle else case se of InTx d vs \<Rightarrow> Aborted | _ \<Rightarrow> se)"

type_synonym 'd process = "task \<times> 'd session"

datatype fate = Delivers | Refuses string | Breaks string | Answer_lost string | Dies | Starts

text \<open>What may happen to one process; \<open>None\<close>: not now.\<close>

fun process_step :: "(string \<Rightarrow> 'd \<Rightarrow> 'd option) \<Rightarrow> embed_fs \<Rightarrow> nat \<Rightarrow> fate \<Rightarrow> 'd server \<Rightarrow> 'd process
    \<Rightarrow> ('d server \<times> 'd process) option" where
  "process_step sql fs i Delivers sv (Ask q k, se) =
    (case run_query sql i q sv se of None \<Rightarrow> None | Some (a, sv, se) \<Rightarrow> Some (sv, k a, se))"
| "process_step sql fs i (Refuses m) sv (Ask q k, se) =
    (if refusable q then Some (sv, k (Failed (ErrExternal m)), refused_session q se) else None)"
| "process_step sql fs i (Breaks m) sv (Ask q k, se) = Some (end_session i sv, k (Failed (ErrExternal m)), Dead)"
| "process_step sql fs i (Answer_lost m) sv (Ask q k, se) =
    (case run_query sql i q sv se of None \<Rightarrow> None
     | Some (a, sv, se) \<Rightarrow> Some (end_session i sv, k (Failed (ErrExternal m)), Dead))"
| "process_step sql fs i Dies sv p = Some (end_session i sv, Return (Some (ErrText ''killed'')), Dead)"
| "process_step sql fs i Starts sv (Return r, se) = Some (end_session i sv, Up fs, Dead)"
| "process_step sql fs i f sv p = None"

inductive migrate_step :: "(string \<Rightarrow> 'd \<Rightarrow> 'd option) \<Rightarrow> embed_fs
    \<Rightarrow> 'd server \<times> (nat \<Rightarrow> 'd process) \<Rightarrow> 'd server \<times> (nat \<Rightarrow> 'd process) \<Rightarrow> bool" for sql fs where
  "process_step sql fs i f sv (ps i) = Some (sv', p) \<Longrightarrow> migrate_step sql fs (sv, ps) (sv', ps(i := p))"

text \<open>Before anything ran: an empty catalog, processes that wait to be started.\<close>

definition unmigrated :: "'d \<Rightarrow> 'd server \<times> (nat \<Rightarrow> 'd process)" where
  "unmigrated d = (\<lparr>sv_versions = None, sv_data = d, sv_owner = None\<rparr>, \<lambda>_. (Return (Some (ErrText ''not started'')), Dead))"

end
