(* ===== verification/Migrate_Properties.thy ===== *)
theory Migrate_Properties
  imports Migrate
begin

text \<open>
  The migrations under concurrency and failure: at every moment the schema is what the first so many
  scripts, in the order of their names, have made of the first one, each run exactly once and recorded;
  at most one process is between lock and unlock; and a process whose \<open>Up\<close> returned without an error
  finds all of them applied.  The proof follows each process through the points of its program.
\<close>

section \<open>The points of the program\<close>

fun run_scripts :: "(string \<Rightarrow> 'd \<Rightarrow> 'd option) \<Rightarrow> string list \<Rightarrow> 'd \<Rightarrow> 'd option" where
  "run_scripts sql [] d = Some d"
| "run_scripts sql (t # ts) d = (case sql t d of None \<Rightarrow> None | Some d' \<Rightarrow> run_scripts sql ts d')"

lemma run_scripts_snoc:
  "run_scripts sql (ts @ [t]) d = (case run_scripts sql ts d of None \<Rightarrow> None | Some d' \<Rightarrow> sql t d')"
  by (induction ts arbitrary: d) (auto split: option.split)

definition commit_task :: "string \<Rightarrow> (goerr option \<Rightarrow> task) \<Rightarrow> task" where
  "commit_task name k = Ask Commit (\<lambda>a. case a of
      Failed err \<Rightarrow> k (Some (ErrWrap (''commit '' @ name) err))
    | _ \<Rightarrow> k None)"

definition record_task :: "string \<Rightarrow> int \<Rightarrow> (goerr option \<Rightarrow> task) \<Rightarrow> task" where
  "record_task name version k = Ask (InsertVersion version) (\<lambda>a. case a of
      Failed err \<Rightarrow> Ask Rollback (\<lambda>_. k (Some (ErrWrap (''record '' @ name) err)))
    | _ \<Rightarrow> commit_task name k)"

definition script_task :: "string \<Rightarrow> int \<Rightarrow> string \<Rightarrow> (goerr option \<Rightarrow> task) \<Rightarrow> task" where
  "script_task name version t k = Ask (Script t) (\<lambda>a. case a of
      Failed err \<Rightarrow> Ask Rollback (\<lambda>_. k (Some (ErrWrap (''apply '' @ name) err)))
    | _ \<Rightarrow> record_task name version k)"

lemma applyFile_eq:
  "applyFile name version t k = Ask Begin (\<lambda>a. case a of
      Failed err \<Rightarrow> k (Some (ErrWrap (''begin '' @ name) err))
    | _ \<Rightarrow> script_task name version t k)"
  unfolding applyFile_def script_task_def record_task_def commit_task_def by (rule refl)

definition lock_task :: "embed_fs \<Rightarrow> task" where
  "lock_task fs = Ask AdvisoryLock (\<lambda>a. case a of
      Failed err \<Rightarrow> Return (Some (ErrWrap ''advisory lock'' err))
    | _ \<Rightarrow> up_locked fs)"

lemma Up_eq:
  "Up fs = Ask Acquire (\<lambda>a. case a of
      Failed err \<Rightarrow> Return (Some (ErrWrap ''acquire conn'' err))
    | _ \<Rightarrow> lock_task fs)"
  unfolding Up_def lock_task_def by (rule refl)

lemmas task_starts = Up_eq lock_task_def up_locked_def unlock_then_def applyFile_eq script_task_def record_task_def commit_task_def

text \<open>A step of process \<open>i\<close> when nobody else runs and every query is delivered.\<close>

definition undisturbed :: "(string \<Rightarrow> 'd \<Rightarrow> 'd option) \<Rightarrow> embed_fs \<Rightarrow> nat
    \<Rightarrow> 'd server \<times> 'd process \<Rightarrow> 'd server \<times> 'd process \<Rightarrow> bool" where
  "undisturbed sql fs i st st' \<longleftrightarrow> process_step sql fs i Delivers (fst st) (snd st) = Some st'"

section \<open>The invariant\<close>

text \<open>The embedded files can be read and no two of them have the same version.\<close>

locale migration_set =
  fixes sql :: "string \<Rightarrow> 'd \<Rightarrow> 'd option" and fs :: embed_fs and entries :: "(string \<times> bool) list"
    and ver :: "string \<Rightarrow> int" and body :: "string \<Rightarrow> string" and d0 :: 'd
  assumes dir_law: "fs_ReadDir fs = Inr entries"
    and file_law: "n \<in> set (migration_names entries) \<Longrightarrow> versionOf n = Inr (ver n) \<and> fs_ReadFile fs n = Inr (body n)"
    and versions_law: "distinct (map ver (migration_names entries))"
begin

abbreviation names :: "string list" where "names \<equiv> migration_names entries"

text \<open>What the first \<open>m\<close> scripts make of the schema.\<close>

fun scripts :: "nat \<Rightarrow> 'd option" where
  "scripts 0 = Some d0"
| "scripts (Suc m) = (case scripts m of None \<Rightarrow> None | Some d \<Rightarrow> sql (body (names ! m)) d)"

definition applied :: "nat \<Rightarrow> 'd server \<Rightarrow> bool" where
  "applied m sv \<longleftrightarrow> m \<le> length names \<and> scripts m = Some (sv_data sv)
     \<and> (sv_versions sv = Some (map ver (take m names)) \<or> m = 0 \<and> sv_versions sv = None)"

text \<open>What follows after the file \<open>m\<close>.\<close>

definition after :: "nat \<Rightarrow> goerr option \<Rightarrow> task" where
  "after m err = (case err of Some err \<Rightarrow> unlock_then (Some err) | None \<Rightarrow> up_files fs (drop (Suc m) names) unlock_then)"

definition check_task :: "nat \<Rightarrow> task" where
  "check_task j = Ask (Exists (ver (names ! j))) (\<lambda>a. case a of
      Found True \<Rightarrow> up_files fs (drop (Suc j) names) unlock_then
    | Found False \<Rightarrow> applyFile (names ! j) (ver (names ! j)) (body (names ! j)) (after j)
    | Failed err \<Rightarrow> unlock_then (Some (ErrWrap (''check migration '' @ Itoa (ver (names ! j))) err))
    | Done \<Rightarrow> unlock_then (Some (ErrText (''check migration '' @ Itoa (ver (names ! j))))))"

lemma files_unfold:
  "up_files fs (drop j names) unlock_then = (if j < length names then check_task j else unlock_then None)"
proof (cases "j < length names")
  case True
  have f: "versionOf (names ! j) = Inr (ver (names ! j))" "fs_ReadFile fs (names ! j) = Inr (body (names ! j))"
    using file_law nth_mem [OF True] by blast+
  have a: "after j = (\<lambda>err. case err of Some err \<Rightarrow> unlock_then (Some err) | None \<Rightarrow> up_files fs (drop (Suc j) names) unlock_then)"
    by (rule ext) (simp add: after_def)
  show ?thesis
    unfolding Cons_nth_drop_Suc [OF True, symmetric] up_files.simps f sum.case check_task_def a using True by simp
qed simp

inductive point :: "'d server \<Rightarrow> nat \<Rightarrow> nat \<Rightarrow> 'd process \<Rightarrow> bool" for sv m i where
  p_returned: "sv_owner sv \<noteq> Some i \<Longrightarrow> (r = None \<Longrightarrow> m = length names) \<Longrightarrow> se \<in> {Idle, Dead}
    \<Longrightarrow> point sv m i (Return r, se)"
| p_start: "sv_owner sv \<noteq> Some i \<Longrightarrow> point sv m i (Up fs, Dead)"
| p_waiting: "sv_owner sv \<noteq> Some i \<Longrightarrow> point sv m i (lock_task fs, Idle)"
| p_creating: "sv_owner sv = Some i \<Longrightarrow> point sv m i (up_locked fs, Idle)"
| p_files: "sv_owner sv = Some i \<Longrightarrow> sv_versions sv \<noteq> None \<Longrightarrow> j \<le> m
    \<Longrightarrow> point sv m i (up_files fs (drop j names) unlock_then, Idle)"
| p_beginning: "sv_owner sv = Some i \<Longrightarrow> sv_versions sv \<noteq> None \<Longrightarrow> m < length names \<Longrightarrow> n = names ! m
    \<Longrightarrow> point sv m i (applyFile n (ver n) (body n) (after m), Idle)"
| p_scripting: "sv_owner sv = Some i \<Longrightarrow> sv_versions sv \<noteq> None \<Longrightarrow> m < length names \<Longrightarrow> n = names ! m
    \<Longrightarrow> point sv m i (script_task n (ver n) (body n) (after m), InTx (sv_data sv) (sv_versions sv))"
| p_recording: "sv_owner sv = Some i \<Longrightarrow> sv_versions sv \<noteq> None \<Longrightarrow> m < length names \<Longrightarrow> n = names ! m
    \<Longrightarrow> sql (body n) (sv_data sv) = Some d \<Longrightarrow> point sv m i (record_task n (ver n) (after m), InTx d (sv_versions sv))"
| p_committing: "sv_owner sv = Some i \<Longrightarrow> m < length names \<Longrightarrow> n = names ! m
    \<Longrightarrow> sql (body n) (sv_data sv) = Some d
    \<Longrightarrow> point sv m i (commit_task n (after m), InTx d (Some (map ver (take (Suc m) names))))"
| p_undoing: "sv_owner sv = Some i \<longleftrightarrow> se \<noteq> Dead \<Longrightarrow> point sv m i (Ask Rollback (\<lambda>_. unlock_then (Some e)), se)"
| p_unlocking: "sv_owner sv = Some i \<longleftrightarrow> se \<noteq> Dead \<Longrightarrow> se \<in> {Idle, Dead} \<Longrightarrow> (err = None \<Longrightarrow> m = length names)
    \<Longrightarrow> point sv m i (unlock_then err, se)"

definition migrating :: "'d server \<times> (nat \<Rightarrow> 'd process) \<Rightarrow> bool" where
  "migrating st \<longleftrightarrow> (\<exists>m. applied m (fst st) \<and> (\<forall>i. point (fst st) m i (snd st i)))"

text \<open>What a step of process \<open>i\<close> means for the others.\<close>

definition fair_step :: "nat \<Rightarrow> 'd server \<Rightarrow> nat \<Rightarrow> 'd server \<Rightarrow> nat \<Rightarrow> bool" where
  "fair_step i sv m sv' m' \<longleftrightarrow> m \<le> m' \<and>
     (if sv_owner sv = Some i then sv_owner sv' \<in> {Some i, None}
      else m' = m \<and> (sv' = sv \<or> sv_owner sv = None \<and> sv' = sv\<lparr>sv_owner := Some i\<rparr>))"

lemma others_stay:
  assumes "fair_step i sv m sv' m'" "applied m' sv'" "point sv m j p" "j \<noteq> i"
  shows "point sv' m' j p"
proof (cases "sv_owner sv = Some j")
  case True
  then have "sv' = sv" "m' = m" using assms(1,4) by (auto simp: fair_step_def split: if_splits)
  then show ?thesis using assms(3) by simp
next
  case False
  then have o: "sv_owner sv' \<noteq> Some j" using assms(1,4) by (auto simp: fair_step_def split: if_splits)
  have m: "m = length names \<Longrightarrow> m' = length names" using assms(1,2) by (auto simp: fair_step_def applied_def)
  from assms(3) show ?thesis
    by cases (use False o m in \<open>auto intro: point.intros\<close>)
qed

text \<open>One step of a process from each of its points.\<close>

definition goes_on :: "nat \<Rightarrow> 'd server \<Rightarrow> nat \<Rightarrow> 'd server \<Rightarrow> 'd process \<Rightarrow> bool" where
  "goes_on i sv m sv' p \<longleftrightarrow> (\<exists>m'. applied m' sv' \<and> fair_step i sv m sv' m' \<and> point sv' m' i p)"

lemma goes_on_same: "applied m sv \<Longrightarrow> point sv m i p \<Longrightarrow> goes_on i sv m sv p"
  unfolding goes_on_def by (intro exI [of _ m]) (auto simp: fair_step_def)

text \<open>A process that loses its session, by any means, goes on in one of the ways of a failure.\<close>

lemma end_session_facts [simp]:
  "sv_owner (end_session i sv) \<noteq> Some i" "sv_data (end_session i sv) = sv_data sv" "sv_versions (end_session i sv) = sv_versions sv"
  "applied m (end_session i sv) = applied m sv"
  by (simp_all add: end_session_def applied_def)

lemma goes_on_end:
  assumes "applied m sv" "point (end_session i sv) m i p"
  shows "goes_on i sv m (end_session i sv) p"
  using assms unfolding goes_on_def
  by (intro exI [of _ m]) (auto simp: fair_step_def end_session_def applied_def)

lemma lost_session:
  assumes "point sv m i (Ask q k, se)" "applied m sv" "m = length names \<Longrightarrow> m' = length names"
  shows "point (end_session i sv') m' i (k (Failed e), Dead)"
  using assms(1)
proof cases
  case p_start
  then show ?thesis by (auto simp: Up_eq intro: point.intros)
next
  case p_waiting
  then show ?thesis by (auto simp: lock_task_def intro: point.intros)
next
  case p_creating
  then show ?thesis by (auto simp: up_locked_def intro: point.intros)
next
  case (p_files j)
  show ?thesis
  proof (cases "j < length names")
    case True
    then show ?thesis using p_files by (auto simp: files_unfold check_task_def intro: point.intros)
  next
    case False
    then have "m' = length names" using p_files(5) assms(2,3) by (auto simp: applied_def)
    then show ?thesis using p_files False by (auto simp: files_unfold unlock_then_def intro: point.intros)
  qed
next
  case (p_beginning n)
  then show ?thesis by (auto simp: applyFile_eq after_def intro: point.intros)
next
  case (p_scripting n)
  then show ?thesis by (auto simp: script_task_def after_def intro: point.intros)
next
  case (p_recording n d)
  then show ?thesis by (auto simp: record_task_def after_def intro: point.intros)
next
  case (p_committing n d)
  then show ?thesis by (auto simp: commit_task_def after_def intro: point.intros)
next
  case (p_undoing e)
  then show ?thesis by (auto intro: point.intros)
next
  case (p_unlocking err)
  then show ?thesis using assms(3) by (auto simp: unlock_then_def intro: point.intros)
qed

lemma refused_query:
  assumes "point sv m i (Ask q k, se)" "refusable q"
  shows "point sv m i (k (Failed e), refused_session q se)"
  using assms(1)
proof cases
  case p_start
  then show ?thesis by (auto simp: Up_eq refused_session_def intro: point.intros)
next
  case p_waiting
  then show ?thesis by (auto simp: lock_task_def refused_session_def intro: point.intros)
next
  case p_creating
  then show ?thesis by (auto simp: up_locked_def refused_session_def intro: point.intros)
next
  case (p_files j)
  show ?thesis
  proof (cases "j < length names")
    case True
    then show ?thesis using p_files by (auto simp: files_unfold check_task_def refused_session_def intro: point.intros)
  next
    case False
    then show ?thesis using p_files(1) assms(2) by (simp add: files_unfold unlock_then_def refusable_def)
  qed
next
  case (p_beginning n)
  then show ?thesis by (auto simp: applyFile_eq after_def refused_session_def intro: point.intros)
next
  case (p_scripting n)
  then show ?thesis by (auto simp: script_task_def after_def refused_session_def intro: point.intros)
next
  case (p_recording n d)
  then show ?thesis by (auto simp: record_task_def after_def refused_session_def intro: point.intros)
next
  case (p_committing n d)
  then show ?thesis by (auto simp: commit_task_def after_def refused_session_def intro: point.intros)
next
  case (p_undoing e)
  then show ?thesis using assms(2) by (simp add: refusable_def)
next
  case (p_unlocking err)
  then show ?thesis using assms(2) by (simp add: refusable_def unlock_then_def)
qed

lemma fresh_version:
  assumes "m \<le> length names" "j < length names"
  shows "ver (names ! j) \<in> set (map ver (take m names)) \<longleftrightarrow> j < m"
proof -
  have "ver (names ! j) \<in> set (map ver (take m names)) \<longleftrightarrow> (\<exists>l < m. map ver names ! l = map ver names ! j)"
    unfolding take_map [symmetric] in_set_conv_nth using assms by auto
  also have "\<dots> \<longleftrightarrow> j < m"
    using versions_law assms by (auto simp: nth_eq_iff_index_eq simp del: nth_map)
  finally show ?thesis .
qed

lemma delivered_unlock:
  assumes "applied m sv" "sv_owner sv = Some i \<longleftrightarrow> se \<noteq> Dead" "se \<in> {Idle, Dead}" "err = None \<Longrightarrow> m = length names"
    and "run_query sql i AdvisoryUnlock sv se = Some (a, sv', se')"
  shows "goes_on i sv m sv' (Return err, se')"
proof -
  have sv': "sv' = end_session i sv" using assms(2,3,5) by (auto simp: end_session_def)
  show ?thesis unfolding sv' by (rule goes_on_end [OF assms(1)]) (rule p_returned, simp, rule assms(4), use assms(3,5) in auto)
qed

lemma delivered_files:
  assumes "Ask q k = up_files fs (drop j names) unlock_then" "run_query sql i q sv Idle = Some (a, sv', se')"
    and "applied m sv" "sv_owner sv = Some i" "sv_versions sv \<noteq> None" "j \<le> m"
  shows "goes_on i sv m sv' (k a, se')"
proof -
  obtain vs where vs: "sv_versions sv = Some vs" using assms(5) by blast
  have m: "m \<le> length names" "vs = map ver (take m names)" using assms(3) vs by (auto simp: applied_def)
  consider (over) "j = length names" | (old) "j < m" | (new) "j = m" "m < length names" using assms(6) m(1) by linarith
  then show ?thesis
  proof cases
    case over
    then have "q = AdvisoryUnlock" "k = (\<lambda>_. Return None)" using assms(1) by (auto simp: files_unfold unlock_then_def)
    then show ?thesis using delivered_unlock [OF assms(3), of i Idle None] assms over m(1) by auto
  next
    case old
    then have j: "j < length names" using m(1) by simp
    then have t: "Ask q k = check_task j" using assms(1) by (simp add: files_unfold)
    then have r: "sv' = sv" "se' = Idle" "k a = up_files fs (drop (Suc j) names) unlock_then"
      using assms(2) vs m fresh_version [OF m(1) j] old by (auto simp: check_task_def)
    show ?thesis unfolding r using assms(3-5) old by (auto intro!: goes_on_same point.p_files [where j = "Suc j"])
  next
    case new
    then have t: "Ask q k = check_task m" using assms(1) by (simp add: files_unfold)
    then have r: "sv' = sv" "se' = Idle"
      "k a = applyFile (names ! m) (ver (names ! m)) (body (names ! m)) (after m)"
      using assms(2) vs m fresh_version [OF m(1) new(2)] by (auto simp: check_task_def)
    show ?thesis unfolding r using assms(3-5) new by (auto intro!: goes_on_same p_beginning)
  qed
qed

lemma delivered_script:
  assumes "run_query sql i (Script (body n)) sv (InTx (sv_data sv) (sv_versions sv)) = Some (a, sv', se')"
    and "script_task n (ver n) (body n) (after m) = Ask (Script (body n)) k"
    and "applied m sv" "sv_owner sv = Some i" "sv_versions sv \<noteq> None" "m < length names" "n = names ! m"
  shows "goes_on i sv m sv' (k a, se')"
proof (cases "sql (body n) (sv_data sv)")
  case None
  then show ?thesis using assms by (auto simp: script_task_def after_def intro!: goes_on_same p_undoing)
next
  case (Some d)
  then have "sv' = sv" "(k a, se') = (record_task n (ver n) (after m), InTx d (sv_versions sv))"
    using assms(1,2) by (auto simp: script_task_def)
  then show ?thesis using assms Some by (auto intro!: goes_on_same p_recording)
qed

lemma delivered_record:
  assumes "run_query sql i (InsertVersion (ver n)) sv (InTx d (sv_versions sv)) = Some (a, sv', se')"
    and "record_task n (ver n) (after m) = Ask (InsertVersion (ver n)) k"
    and "applied m sv" "sv_owner sv = Some i" "sv_versions sv \<noteq> None" "m < length names" "n = names ! m"
    and "sql (body n) (sv_data sv) = Some d"
  shows "goes_on i sv m sv' (k a, se')"
proof -
  obtain vs where vs: "sv_versions sv = Some vs" using assms(5) by blast
  have m: "vs = map ver (take m names)" using assms(3) vs by (auto simp: applied_def)
  then have "ver n \<notin> set vs" using fresh_version [of m m] assms(6,7) by auto
  then have "sv' = sv" "(k a, se') = (commit_task n (after m), InTx d (Some (vs @ [ver n])))"
    using assms(1,2) vs by (auto simp: record_task_def)
  moreover have "vs @ [ver n] = map ver (take (Suc m) names)" using m assms(6,7) by (simp add: take_Suc_conv_app_nth)
  ultimately show ?thesis using assms by (auto intro!: goes_on_same p_committing)
qed

lemma delivered_commit:
  assumes "run_query sql i Commit sv (InTx d (Some (map ver (take (Suc m) names)))) = Some (a, sv', se')"
    and "commit_task n (after m) = Ask Commit k"
    and "applied m sv" "sv_owner sv = Some i" "m < length names" "n = names ! m" "sql (body n) (sv_data sv) = Some d"
  shows "goes_on i sv m sv' (k a, se')"
proof -
  have sv': "sv' = sv\<lparr>sv_data := d, sv_versions := Some (map ver (take (Suc m) names))\<rparr>"
    "(k a, se') = (up_files fs (drop (Suc m) names) unlock_then, Idle)"
    using assms(1,2) by (auto simp: commit_task_def after_def)
  have "applied (Suc m) sv'" using assms by (simp add: sv'(1) applied_def)
  moreover have "fair_step i sv m sv' (Suc m)" using assms(4) by (simp add: sv'(1) fair_step_def)
  moreover have "point sv' (Suc m) i (up_files fs (drop (Suc m) names) unlock_then, Idle)"
    using assms(4) by (intro point.p_files) (simp_all add: sv'(1))
  ultimately show ?thesis unfolding goes_on_def sv'(2) by blast
qed

lemma delivered:
  assumes "point sv m i (Ask q k, se)" "applied m sv" "run_query sql i q sv se = Some (a, sv', se')"
  shows "goes_on i sv m sv' (k a, se')"
  using assms(1)
proof cases
  case p_start
  then show ?thesis using assms(2,3) by (auto simp: Up_eq intro!: goes_on_same p_waiting)
next
  case p_waiting
  then have "sv_owner sv = None" "sv' = sv\<lparr>sv_owner := Some i\<rparr>" "(k a, se') = (up_locked fs, Idle)"
    using assms(3) by (auto simp: lock_task_def split: if_splits)
  then show ?thesis using assms(2) unfolding goes_on_def
    by (intro exI [of _ m]) (auto simp: fair_step_def applied_def intro: p_creating)
next
  case p_creating
  then have "sv' = (if sv_versions sv = None then sv\<lparr>sv_versions := Some []\<rparr> else sv)"
    "(k a, se') = (up_files fs (drop 0 names) unlock_then, Idle)"
    using assms(3) dir_law by (auto simp: up_locked_def split: if_splits)
  then show ?thesis using assms(2) p_creating unfolding goes_on_def
    by (intro exI [of _ m] conjI) (auto simp: fair_step_def applied_def intro!: p_files [where j = 0, simplified])
next
  case (p_files j)
  then show ?thesis using delivered_files assms(2,3) by blast
next
  case (p_beginning n)
  then have "sv' = sv" "(k a, se') = (script_task n (ver n) (body n) (after m), InTx (sv_data sv) (sv_versions sv))"
    using assms(3) by (auto simp: applyFile_eq)
  then show ?thesis using assms(2) p_beginning by (auto intro!: goes_on_same p_scripting)
next
  case (p_scripting n)
  then have "q = Script (body n)" by (simp add: script_task_def)
  then show ?thesis using delivered_script p_scripting assms(2,3) by metis
next
  case (p_recording n d)
  then have "q = InsertVersion (ver n)" by (simp add: record_task_def)
  then show ?thesis using delivered_record p_recording assms(2,3) by metis
next
  case (p_committing n d)
  then have "q = Commit" by (simp add: commit_task_def)
  then show ?thesis using delivered_commit p_committing assms(2,3) by metis
next
  case (p_undoing e)
  then have "sv' = sv" "k a = unlock_then (Some e)" "se' = (if se = Dead then Dead else Idle)"
    using assms(3) by (cases se; auto)+
  then show ?thesis using assms(2) p_undoing by (auto intro!: goes_on_same point.p_unlocking)
next
  case (p_unlocking err)
  then have "q = AdvisoryUnlock" "k = (\<lambda>_. Return err)" by (auto simp: unlock_then_def)
  then show ?thesis using delivered_unlock [OF assms(2)] assms(3) p_unlocking by simp
qed

text \<open>Any step of any process.\<close>

lemma process_goes_on:
  assumes "process_step sql fs i f sv (t, se) = Some (sv', p)" "point sv m i (t, se)" "applied m sv"
  shows "goes_on i sv m sv' p"
proof (cases f)
  case Delivers
  then obtain q k where t: "t = Ask q k" using assms(1) by (cases t) auto
  then show ?thesis using assms delivered Delivers by (auto split: option.splits)
next
  case (Refuses e)
  then obtain q k where t: "t = Ask q k" using assms(1) by (cases t) auto
  then show ?thesis using assms Refuses by (auto intro!: goes_on_same refused_query split: if_splits)
next
  case (Breaks e)
  then obtain q k where t: "t = Ask q k" using assms(1) by (cases t) auto
  then show ?thesis using assms Breaks by (auto intro!: goes_on_end lost_session)
next
  case (Answer_lost e)
  then obtain q k where t: "t = Ask q k" using assms(1) by (cases t) auto
  then obtain a sv1 se1 where r: "run_query sql i q sv se = Some (a, sv1, se1)"
    and p: "sv' = end_session i sv1" "p = (k (Failed (ErrExternal e)), Dead)"
    using assms(1) Answer_lost by (auto split: option.splits)
  obtain m' where m': "applied m' sv1" "fair_step i sv m sv1 m'"
    using delivered [OF assms(2) [unfolded t] assms(3) r] by (auto simp: goes_on_def)
  have "m = length names \<Longrightarrow> m' = length names" using m' by (auto simp: fair_step_def applied_def)
  then have "point (end_session i sv1) m' i p"
    unfolding p(2) by (rule lost_session [OF assms(2) [unfolded t] assms(3)])
  moreover have "fair_step i sv m (end_session i sv1) m'"
    using m'(2) by (auto simp: fair_step_def end_session_def split: if_splits)
  ultimately show ?thesis unfolding goes_on_def p(1) using m'(1) by (intro exI [of _ m']) simp
next
  case Dies
  then show ?thesis using assms by (auto intro!: goes_on_end p_returned)
next
  case Starts
  then obtain r where t: "t = Return r" using assms(1) by (cases t) auto
  then show ?thesis using assms Starts by (auto intro!: goes_on_end p_start)
qed

lemma migrating_step:
  assumes "migrate_step sql fs st st'" "migrating st"
  shows "migrating st'"
  using assms(1)
proof cases
  case (1 i f sv ps sv' p)
  obtain m where m: "applied m sv" "\<And>j. point sv m j (ps j)" using assms(2) 1 by (auto simp: migrating_def)
  obtain t se where "ps i = (t, se)" by fastforce
  then have "goes_on i sv m sv' p" using process_goes_on 1 m by metis
  then obtain m' where m': "applied m' sv'" "fair_step i sv m sv' m'" "point sv' m' i p" by (auto simp: goes_on_def)
  have "point sv' m' j ((ps(i := p)) j)" for j
    using m'(3) others_stay [OF m'(2,1) m(2)] by simp
  then show ?thesis unfolding 1(2) migrating_def fst_conv snd_conv using m'(1) by blast
qed

lemma migrating_reachable: "(migrate_step sql fs)\<^sup>*\<^sup>* (unmigrated d0) st \<Longrightarrow> migrating st"
proof (induction rule: rtranclp_induct)
  case base
  show ?case unfolding migrating_def unmigrated_def
    by (intro exI [of _ 0]) (auto simp: applied_def intro!: p_returned)
qed (rule migrating_step)

lemma scripts_run: "m \<le> length names \<Longrightarrow> scripts m = run_scripts sql (map body (take m names)) d0"
proof (induction m)
  case (Suc m)
  then show ?case by (simp add: take_Suc_conv_app_nth run_scripts_snoc)
qed simp

section \<open>A process on its own\<close>

abbreviation alone :: "nat \<Rightarrow> 'd server \<times> 'd process \<Rightarrow> 'd server \<times> 'd process \<Rightarrow> bool" where
  "alone \<equiv> undisturbed sql fs"

lemmas alone_def = undisturbed_def [of sql fs]
lemmas alone_first = converse_rtranclp_into_rtranclp [where r = "undisturbed sql fs i" for i]

lemma apply_alone:
  assumes "applied m sv" "sv_versions sv \<noteq> None" "m < length names" "scripts (Suc m) = Some d"
  shows "(alone i)\<^sup>*\<^sup>* (sv, (applyFile (names ! m) (ver (names ! m)) (body (names ! m)) (after m), Idle))
    (sv\<lparr>sv_data := d, sv_versions := Some (map ver (take (Suc m) names))\<rparr>, (up_files fs (drop (Suc m) names) unlock_then, Idle))"
proof -
  let ?n = "names ! m"
  have vs: "sv_versions sv = Some (map ver (take m names))" using assms(1,2) by (auto simp: applied_def)
  have d: "sql (body ?n) (sv_data sv) = Some d" using assms(1,4) by (auto simp: applied_def)
  have new: "ver ?n \<notin> set (map ver (take m names))" using fresh_version [of m m] assms(3) by auto
  have snoc: "map ver (take m names) @ [ver ?n] = map ver (take (Suc m) names)" using assms(3) by (simp add: take_Suc_conv_app_nth)
  have 1: "alone i (sv, (applyFile ?n (ver ?n) (body ?n) (after m), Idle))
      (sv, (script_task ?n (ver ?n) (body ?n) (after m), InTx (sv_data sv) (sv_versions sv)))"
    by (simp add: alone_def applyFile_eq)
  have 2: "alone i (sv, (script_task ?n (ver ?n) (body ?n) (after m), InTx (sv_data sv) (sv_versions sv)))
      (sv, (record_task ?n (ver ?n) (after m), InTx d (sv_versions sv)))"
    by (simp add: alone_def script_task_def d)
  have 3: "alone i (sv, (record_task ?n (ver ?n) (after m), InTx d (sv_versions sv)))
      (sv, (commit_task ?n (after m), InTx d (Some (map ver (take (Suc m) names)))))"
    unfolding snoc [symmetric] using new by (simp add: alone_def record_task_def vs)
  have 4: "alone i (sv, (commit_task ?n (after m), InTx d (Some (map ver (take (Suc m) names)))))
      (sv\<lparr>sv_data := d, sv_versions := Some (map ver (take (Suc m) names))\<rparr>, (up_files fs (drop (Suc m) names) unlock_then, Idle))"
    by (simp add: alone_def commit_task_def after_def)
  show ?thesis by (rule alone_first [OF 1 alone_first [OF 2 alone_first [OF 3 alone_first [OF 4 rtranclp.rtrancl_refl]]]])
qed

lemma next_alone:
  assumes "applied m sv" "sv_versions sv \<noteq> None" "m < length names" "scripts (Suc m) = Some d"
  shows "(alone i)\<^sup>*\<^sup>* (sv, (up_files fs (drop m names) unlock_then, Idle))
    (sv\<lparr>sv_data := d, sv_versions := Some (map ver (take (Suc m) names))\<rparr>, (up_files fs (drop (Suc m) names) unlock_then, Idle))"
proof -
  have "sv_versions sv = Some (map ver (take m names))" "ver (names ! m) \<notin> set (map ver (take m names))"
    using assms(1,2) fresh_version [of m m] assms(3) by (auto simp: applied_def)
  then have "alone i (sv, (up_files fs (drop m names) unlock_then, Idle))
      (sv, (applyFile (names ! m) (ver (names ! m)) (body (names ! m)) (after m), Idle))"
    using assms(3) by (simp add: alone_def files_unfold [of m] check_task_def)
  then show ?thesis using alone_first apply_alone [OF assms] by blast
qed

lemma files_alone:
  assumes "\<And>m. m \<le> length names \<Longrightarrow> scripts m \<noteq> None"
    and "applied m sv" "sv_owner sv = Some i" "sv_versions sv \<noteq> None" "j \<le> m"
  shows "\<exists>sv'. (alone i)\<^sup>*\<^sup>* (sv, (up_files fs (drop j names) unlock_then, Idle)) (sv', (Return None, Idle))
     \<and> applied (length names) sv' \<and> sv_owner sv' = None \<and> sv_versions sv' \<noteq> None
     \<and> (m = length names \<longrightarrow> sv' = sv\<lparr>sv_owner := None\<rparr>)"
  using assms(2-)
proof (induction "length names - j" arbitrary: j m sv)
  case 0
  then have "j = length names" "m = length names" by (auto simp: applied_def)
  moreover have "alone i (sv, (unlock_then None, Idle)) (sv\<lparr>sv_owner := None\<rparr>, (Return None, Idle))"
    using 0 by (simp add: alone_def unlock_then_def)
  ultimately show ?case using 0 by (intro exI [of _ "sv\<lparr>sv_owner := None\<rparr>"]) (auto simp: files_unfold applied_def)
next
  case (Suc l)
  then have j: "j < length names" and m: "m \<le> length names" by (auto simp: applied_def)
  have l: "l = length names - Suc j" using Suc.hyps(2) by simp
  obtain vs where vs: "sv_versions sv = Some vs" using Suc.prems by blast
  then have found: "ver (names ! j) \<in> set vs \<longleftrightarrow> j < m"
    using fresh_version [OF m j] Suc.prems(1) by (auto simp: applied_def)
  show ?case
  proof (cases "j < m")
    case True
    then have s: "alone i (sv, (up_files fs (drop j names) unlock_then, Idle)) (sv, (up_files fs (drop (Suc j) names) unlock_then, Idle))"
      using j vs found by (simp add: alone_def files_unfold [of j] check_task_def)
    from True have "Suc j \<le> m" by simp
    from Suc.hyps(1) [OF l Suc.prems(1-3) this] obtain sv' where
      "(alone i)\<^sup>*\<^sup>* (sv, (up_files fs (drop (Suc j) names) unlock_then, Idle)) (sv', (Return None, Idle))"
      "applied (length names) sv'" "sv_owner sv' = None" "sv_versions sv' \<noteq> None"
      "m = length names \<longrightarrow> sv' = sv\<lparr>sv_owner := None\<rparr>" by blast
    then show ?thesis using alone_first [OF s] by blast
  next
    case False
    then have jm: "j = m" using Suc.prems by simp
    obtain d where d: "scripts (Suc m) = Some d" using assms(1) [of "Suc m"] j jm by auto
    let ?sv = "sv\<lparr>sv_data := d, sv_versions := Some (map ver (take (Suc m) names))\<rparr>"
    have "applied (Suc m) ?sv" "sv_owner ?sv = Some i" "sv_versions ?sv \<noteq> None" "Suc m \<le> Suc m"
      using j jm d Suc.prems by (auto simp: applied_def)
    from Suc.hyps(1) [OF l [unfolded jm] this] obtain sv' where
      rest: "(alone i)\<^sup>*\<^sup>* (?sv, (up_files fs (drop (Suc m) names) unlock_then, Idle)) (sv', (Return None, Idle))"
      "applied (length names) sv'" "sv_owner sv' = None" "sv_versions sv' \<noteq> None" by blast
    have "(alone i)\<^sup>*\<^sup>* (sv, (up_files fs (drop j names) unlock_then, Idle)) (sv', (Return None, Idle))"
      unfolding jm using rtranclp_trans [OF next_alone rest(1)] Suc.prems j jm d by blast
    then show ?thesis using rest j jm by (intro exI [of _ sv']) auto
  qed
qed

lemma locked_alone:
  assumes "sv_owner sv = None"
  shows "(alone i)\<^sup>*\<^sup>* (sv, (Up fs, Dead))
    (sv\<lparr>sv_owner := Some i, sv_versions := Some (case sv_versions sv of None \<Rightarrow> [] | Some vs \<Rightarrow> vs)\<rparr>,
     (up_files fs (drop 0 names) unlock_then, Idle))"
proof -
  let ?sv2 = "sv\<lparr>sv_owner := Some i, sv_versions := Some (case sv_versions sv of None \<Rightarrow> [] | Some vs \<Rightarrow> vs)\<rparr>"
  let ?sv1 = "sv\<lparr>sv_owner := Some i\<rparr>"
  have 1: "alone i (sv, (Up fs, Dead)) (sv, (lock_task fs, Idle))" by (simp add: alone_def Up_eq)
  have 2: "alone i (sv, (lock_task fs, Idle)) (?sv1, (up_locked fs, Idle))" using assms by (simp add: alone_def lock_task_def)
  have 3: "alone i (?sv1, (up_locked fs, Idle)) (?sv2, (up_files fs (drop 0 names) unlock_then, Idle))"
    by (auto simp: alone_def up_locked_def dir_law)
  show ?thesis by (rule alone_first [OF 1 alone_first [OF 2 alone_first [OF 3 rtranclp.rtrancl_refl]]])
qed

lemma Up_alone:
  assumes "\<And>m. m \<le> length names \<Longrightarrow> scripts m \<noteq> None" "applied m sv" "sv_owner sv = None"
  shows "\<exists>sv'. (alone i)\<^sup>*\<^sup>* (sv, (Up fs, Dead)) (sv', (Return None, Idle)) \<and> applied (length names) sv' \<and> sv_owner sv' = None
    \<and> (m = length names \<longrightarrow> sv_versions sv \<noteq> None \<longrightarrow> sv' = sv) \<and> sv_versions sv' \<noteq> None"
proof -
  let ?sv2 = "sv\<lparr>sv_owner := Some i, sv_versions := Some (case sv_versions sv of None \<Rightarrow> [] | Some vs \<Rightarrow> vs)\<rparr>"
  have "applied m ?sv2" "sv_owner ?sv2 = Some i" "sv_versions ?sv2 \<noteq> None" using assms(2) by (auto simp: applied_def)
  from files_alone [OF assms(1) this, of 0] obtain sv' where
    rest: "(alone i)\<^sup>*\<^sup>* (?sv2, (up_files fs (drop 0 names) unlock_then, Idle)) (sv', (Return None, Idle))"
    "applied (length names) sv'" "sv_owner sv' = None" "sv_versions sv' \<noteq> None"
    "m = length names \<longrightarrow> sv' = ?sv2\<lparr>sv_owner := None\<rparr>" by auto
  show ?thesis
    using rtranclp_trans [OF locked_alone [OF assms(3)] rest(1)] rest(2-) assms(3) by (intro exI [of _ sv']) auto
qed

text \<open>The steps of a process on its own are steps of the system.\<close>

lemma alone_runs:
  assumes "(alone i)\<^sup>*\<^sup>* st st'" "(migrate_step sql fs)\<^sup>*\<^sup>* start (fst st, ps(i := snd st))"
  shows "(migrate_step sql fs)\<^sup>*\<^sup>* start (fst st', ps(i := snd st'))"
  using assms
proof (induction rule: rtranclp_induct)
  case (step y z)
  then have "process_step sql fs i Delivers (fst y) ((ps(i := snd y)) i) = Some (fst z, snd z)" by (simp add: alone_def)
  from migrate_step.intros [where ps = "ps(i := snd y)", OF this]
  have "migrate_step sql fs (fst y, ps(i := snd y)) (fst z, ps(i := snd z))" unfolding fun_upd_upd .
  with step.IH [OF step.prems] show ?case by (rule rtranclp.rtrancl_into_rtrancl)
qed

lemma killed_midway:
  assumes "names \<noteq> []" "scripts 1 = Some d"
  shows "\<exists>sv ps. (migrate_step sql fs)\<^sup>*\<^sup>* (unmigrated d0) (sv, ps) \<and> sv_versions sv = Some [ver (hd names)] \<and> sv_owner sv = None"
proof -
  obtain sv ps where u: "unmigrated d0 = (sv, ps)" "sv_data sv = d0" "sv_owner sv = None" "sv_versions sv = None"
    "\<And>i. process_step sql fs i Starts sv (ps i) = Some (sv, (Up fs, Dead))"
    using that [OF unmigrated_def] by (simp add: end_session_def)
  let ?sv2 = "sv\<lparr>sv_owner := Some 0, sv_versions := Some []\<rparr>"
  let ?sv3 = "?sv2\<lparr>sv_data := d, sv_versions := Some (map ver (take (Suc 0) names))\<rparr>"
  have "applied 0 ?sv2" using u(2) by (simp add: applied_def)
  then have "(alone 0)\<^sup>*\<^sup>* (sv, (Up fs, Dead)) (?sv3, (up_files fs (drop (Suc 0) names) unlock_then, Idle))"
    using rtranclp_trans [OF locked_alone [OF u(3), of 0, unfolded u(4) option.case] next_alone [of 0 ?sv2 d]] assms by simp
  from alone_runs [OF this, where ps = ps]
  have "(migrate_step sql fs)\<^sup>*\<^sup>* (unmigrated d0) (?sv3, ps(0 := (up_files fs (drop (Suc 0) names) unlock_then, Idle)))"
    using migrate_step.intros [where ps = ps, OF u(5)] u(1) by auto
  then have "(migrate_step sql fs)\<^sup>*\<^sup>* (unmigrated d0) (end_session 0 ?sv3, ps(0 := (Return (Some (ErrText ''killed'')), Dead)))"
    by (rule rtranclp.rtrancl_into_rtrancl)
      (use migrate_step.intros [where ps = "ps(0 := (up_files fs (drop (Suc 0) names) unlock_then, Idle))" and i = 0
        and f = Dies and sql = sql and fs = fs and sv = ?sv3] in simp)
  then show ?thesis using assms(1) by (intro exI conjI) (auto simp: end_session_def take_Suc)
qed

section \<open>What the points say\<close>

lemma asks:
  "Up fs \<noteq> Return r" "lock_task fs \<noteq> Return r" "up_locked fs \<noteq> Return r" "unlock_then e \<noteq> Return r"
  "applyFile n v t k \<noteq> Return r" "script_task n v t k \<noteq> Return r" "record_task n v k \<noteq> Return r" "commit_task n k \<noteq> Return r"
  by (simp_all add: task_starts)

lemma files_ask: "up_files fs (drop j names) unlock_then \<noteq> Return r"
  by (cases "j < length names") (simp_all add: files_unfold [of j] check_task_def unlock_then_def)

lemma point_result:
  assumes "point sv m i p"
  shows "fst p = Return None \<Longrightarrow> m = length names" and "snd p = InTx d vs \<Longrightarrow> sv_owner sv = Some i"
    and "fst p = Return r \<Longrightarrow> sv_owner sv \<noteq> Some i"
  using assms by (cases; simp add: asks files_ask)+

lemma schema_reached:
  assumes "(migrate_step sql fs)\<^sup>*\<^sup>* (unmigrated d0) (sv, ps)"
  obtains m where "applied m sv" "\<And>i. point sv m i (ps i)"
  using migrating_reachable [OF assms] by (auto simp: migrating_def)

lemma schema_exact:
  assumes "(migrate_step sql fs)\<^sup>*\<^sup>* (unmigrated d0) (sv, ps)"
  shows "\<exists>m \<le> length names. run_scripts sql (map body (take m names)) d0 = Some (sv_data sv)
    \<and> (case sv_versions sv of None \<Rightarrow> m = 0 | Some vs \<Rightarrow> vs = map ver (take m names))
    \<and> (\<forall>i d vs. snd (ps i) = InTx d vs \<longrightarrow> sv_owner sv = Some i)
    \<and> (\<forall>i. fst (ps i) = Return None \<longrightarrow> m = length names)"
proof (rule schema_reached [OF assms])
  fix m assume m: "applied m sv" and p: "\<And>i. point sv m i (ps i)"
  have "m \<le> length names" "run_scripts sql (map body (take m names)) d0 = Some (sv_data sv)"
    "case sv_versions sv of None \<Rightarrow> m = 0 | Some vs \<Rightarrow> vs = map ver (take m names)"
    using m scripts_run [of m] by (auto simp: applied_def)
  then show ?thesis
    by (intro exI [of _ m] conjI allI impI; (elim point_result [OF p])?)
qed

lemma scripts_succeed:
  assumes "run_scripts sql (map body names) d0 = Some d" "m \<le> length names"
  shows "scripts m \<noteq> None"
  using assms(2)
proof (induction rule: inc_induct)
  case base
  then show ?case using assms(1) scripts_run [of "length names"] by simp
next
  case (step n)
  then show ?case by (auto split: option.splits)
qed

lemma Up_from_reached:
  assumes "(migrate_step sql fs)\<^sup>*\<^sup>* (unmigrated d0) (sv, ps)" "sv_owner sv = None"
    and "run_scripts sql (map body names) d0 = Some d"
  shows "\<exists>sv'. (undisturbed sql fs i)\<^sup>*\<^sup>* (sv, (Up fs, Dead)) (sv', (Return None, Idle))
    \<and> sv_versions sv' = Some (map ver names) \<and> sv_data sv' = d \<and> sv_owner sv' = None
    \<and> (sv_versions sv = Some (map ver names) \<longrightarrow> sv' = sv)"
proof -
  obtain m where m: "applied m sv" by (rule schema_reached [OF assms(1)])
  obtain sv' where sv': "(alone i)\<^sup>*\<^sup>* (sv, (Up fs, Dead)) (sv', (Return None, Idle))" "applied (length names) sv'"
    "sv_owner sv' = None" "m = length names \<longrightarrow> sv_versions sv \<noteq> None \<longrightarrow> sv' = sv" "sv_versions sv' \<noteq> None"
    using Up_alone [OF scripts_succeed [OF assms(3)] m assms(2)] by blast
  have "sv_versions sv = Some (map ver names) \<Longrightarrow> m = length names"
    using m by (auto simp: applied_def dest: arg_cong [of _ _ length])
  moreover have "sv_versions sv' = Some (map ver names)" "sv_data sv' = d"
    using sv'(2,5) assms(3) scripts_run [of "length names"] by (auto simp: applied_def)
  ultimately show ?thesis using sv' by auto
qed

end

section \<open>The files of the repository\<close>

text \<open>The directory that \<open>migrations/fs.go\<close> embeds, whatever the two scripts say.\<close>

definition migrations_FS :: "string \<Rightarrow> string \<Rightarrow> embed_fs" where
  "migrations_FS init outbox = \<lparr>
    fs_ReadDir = Inr [(''0001_init.sql'', False), (''0002_outbox.sql'', False)],
    fs_ReadFile = (\<lambda>n. if n = ''0001_init.sql'' then Inr init else if n = ''0002_outbox.sql'' then Inr outbox
      else Inl (ErrExternal ''file does not exist''))\<rparr>"

abbreviation repo_entries :: "(string \<times> bool) list" where
  "repo_entries \<equiv> [(''0001_init.sql'', False), (''0002_outbox.sql'', False)]"

lemma repo_names: "migration_names repo_entries = [''0001_init.sql'', ''0002_outbox.sql'']"
  by code_simp

lemma repo_versions: "versionOf ''0001_init.sql'' = Inr 1" "versionOf ''0002_outbox.sql'' = Inr 2"
  by code_simp+

interpretation files: migration_set sql "migrations_FS init outbox" repo_entries
    "\<lambda>n. if n = ''0001_init.sql'' then 1 else 2" "\<lambda>n. if n = ''0001_init.sql'' then init else outbox" d0
  for sql init outbox d0
proof
  show "distinct (map (\<lambda>n. if n = ''0001_init.sql'' then 1 else 2 :: int) (migration_names repo_entries))"
    unfolding repo_names by simp
qed (auto simp: migrations_FS_def repo_names repo_versions)

abbreviation note_script :: "string \<Rightarrow> string list \<Rightarrow> string list option" where
  "note_script t d \<equiv> Some (d @ [t])"

lemma killed_run:
  "\<exists>sv ps. (migrate_step note_script (migrations_FS ''a'' ''b''))\<^sup>*\<^sup>* (unmigrated []) (sv, ps)
    \<and> sv_versions sv = Some [1] \<and> sv_owner sv = None"
  using files.killed_midway [of note_script "''a''" "''b''"] by (simp add: repo_names)

section \<open>Properties\<close>

text \<open>
  C10. However many processes migrate at once, whatever query is refused, session breaks, answer is lost or process is
  killed and started again, and whenever: the schema is always what the first \<open>m\<close> scripts, in the order of
  their file names, made of the original one, each run exactly once, and \<open>schema_migrations\<close> holds
  exactly their versions; only the holder of the advisory lock has an open transaction; and
  once any \<open>Up\<close> returned without an error, all of the scripts have been run.
\<close>
theorem migrations_once_in_order:
  assumes "fs_ReadDir fs = Inr entries"
    and "\<And>n. n \<in> set (migration_names entries) \<Longrightarrow> versionOf n = Inr (ver n) \<and> fs_ReadFile fs n = Inr (body n)"
    and "distinct (map ver (migration_names entries))"
    and "(migrate_step sql fs)\<^sup>*\<^sup>* (unmigrated d0) (sv, ps)"
  shows "\<exists>m \<le> length (migration_names entries).
      run_scripts sql (map body (take m (migration_names entries))) d0 = Some (sv_data sv)
    \<and> (case sv_versions sv of None \<Rightarrow> m = 0 | Some vs \<Rightarrow> vs = map ver (take m (migration_names entries)))
    \<and> (\<forall>i d vs. snd (ps i) = InTx d vs \<longrightarrow> sv_owner sv = Some i)
    \<and> (\<forall>i. fst (ps i) = Return None \<longrightarrow> m = length (migration_names entries))"
proof -
  have "migration_set fs entries ver body" by (rule migration_set.intro) (fact assms)+
  then show ?thesis by (rule migration_set.schema_exact [OF _ assms(4)])
qed

theorem migrations_once_in_order_witness:
  "\<exists>sv ps. (migrate_step note_script (migrations_FS ''a'' ''b''))\<^sup>*\<^sup>* (unmigrated []) (sv, ps)
    \<and> sv_versions sv = Some [1] \<and> sv_data sv = [''a'']"
proof -
  obtain sv ps where r: "(migrate_step note_script (migrations_FS ''a'' ''b''))\<^sup>*\<^sup>* (unmigrated []) (sv, ps)"
    and v: "sv_versions sv = Some [1]" using killed_run by blast
  have "sv_data sv = [''a'']"
    using migrations_once_in_order [OF files.dir_law files.file_law files.versions_law r] v
    by (auto simp: repo_names le_Suc_eq)
  then show ?thesis using r v by blast
qed

text \<open>
  C22. From whatever state crashes have left, if the lock is free, nobody interferes and the scripts
  succeed, \<open>Up\<close> comes to its end without an error, with every script run and recorded and the lock
  free again; and where all were recorded before, it has changed nothing.
\<close>
theorem Up_finishes:
  assumes "fs_ReadDir fs = Inr entries"
    and "\<And>n. n \<in> set (migration_names entries) \<Longrightarrow> versionOf n = Inr (ver n) \<and> fs_ReadFile fs n = Inr (body n)"
    and "distinct (map ver (migration_names entries))"
    and "(migrate_step sql fs)\<^sup>*\<^sup>* (unmigrated d0) (sv, ps)" "sv_owner sv = None"
    and "run_scripts sql (map body (migration_names entries)) d0 = Some d"
  shows "\<exists>sv'. (undisturbed sql fs i)\<^sup>*\<^sup>* (sv, (Up fs, Dead)) (sv', (Return None, Idle))
    \<and> sv_versions sv' = Some (map ver (migration_names entries)) \<and> sv_data sv' = d \<and> sv_owner sv' = None
    \<and> (sv_versions sv = Some (map ver (migration_names entries)) \<longrightarrow> sv' = sv)"
proof -
  have "migration_set fs entries ver body" by (rule migration_set.intro) (fact assms)+
  then show ?thesis by (rule migration_set.Up_from_reached [OF _ assms(4-6)])
qed

theorem Up_finishes_witness:
  "\<exists>sv sv'. sv_versions sv = Some [1]
    \<and> (undisturbed note_script (migrations_FS ''a'' ''b'') 1)\<^sup>*\<^sup>*
        (sv, (Up (migrations_FS ''a'' ''b''), Dead)) (sv', (Return None, Idle))
    \<and> sv_versions sv' = Some [1, 2] \<and> sv_data sv' = [''a'', ''b'']"
proof -
  obtain sv ps where r: "(migrate_step note_script (migrations_FS ''a'' ''b''))\<^sup>*\<^sup>* (unmigrated []) (sv, ps)"
    and v: "sv_versions sv = Some [1]" "sv_owner sv = None" using killed_run by blast
  show ?thesis
    using Up_finishes [OF files.dir_law files.file_law files.versions_law r v(2), of "[''a'', ''b'']" 1] v(1)
    by (auto simp: repo_names)
qed

end
