(* ===== verification/Tracing.thy ===== *)
theory Tracing
  imports Middleware
begin

text \<open>
  The spans and log lines of \<open>internal/observability\<close> (\<open>otel.go\<close>, \<open>pgx.go\<close>, \<open>http.go\<close>, \<open>log.go\<close>,
  \<open>kafka.go\<close>).  As with the metrics, the model keeps the calls into the libraries, in order; a span is
  the position of the call that started it, and \<open>open_spans\<close> replays which of them are open.
\<close>

section \<open>Contexts\<close>

text \<open>A span of this process, or the span context that the propagator read from a request or message.\<close>

datatype span = Local nat | Remote "string \<times> string"

datatype attr = AStr string | AInt int

datatype span_kind = Internal | Client | Server_kind

datatype log_handler =
    JSONHandler int
  | OtelHandler string
  | MultiHandler "log_handler list"
  | Derived "(string \<times> attr) list" log_handler
  | Grouped string log_handler
  | TraceHandler log_handler

text \<open>
  What a \<open>context.Context\<close> holds for this package: the current span, the values under \<open>pgxSpanKey\<close> and
  \<open>loggerCtxKey\<close>, and the request id of \<open>chi\<close>.
\<close>

record ctx =
  cx_span :: "span option"
  cx_pgx :: "nat option"
  cx_logger :: "log_handler option"
  cx_reqID :: string

text \<open>
  The libraries: whether a span is sampled, the ids of spans (\<open>None\<close> when they are not valid), what the
  propagators find in headers, the level of the bridge to the collector, and \<open>slog.Default()\<close>.
\<close>

record telemetry =
  tm_recording :: "nat \<Rightarrow> bool"
  tm_ids :: "span \<Rightarrow> (string \<times> string) option"
  tm_Extract :: "(string \<Rightarrow> string) \<Rightarrow> (string \<times> string) option"
  tm_otel_enabled :: "int \<Rightarrow> bool"
  tm_default :: log_handler

section \<open>Calls\<close>

datatype description = Error_text goerr | Status_text int

datatype span_call =
    Span_start string span_kind "(string \<times> attr) list" "span option"
  | Set_attributes nat "(string \<times> attr) list"
  | Set_name nat string
  | Record_error nat goerr
  | Set_error_status nat description
  | Span_end nat
  | Log_line string "(string \<times> attr) list"

record 's traced =
  td_state :: 's
  td_calls :: "span_call list"

definition emit :: "span_call \<Rightarrow> 's traced \<Rightarrow> 's traced" where
  "emit c s = s\<lparr>td_calls := td_calls s @ [c]\<rparr>"

definition TracerName :: string where "TracerName = ''gophprofile''"

text \<open>\<open>Tracer().Start\<close> returns the context with the new span.\<close>

definition Tracer_Start ::
    "ctx \<Rightarrow> string \<Rightarrow> span_kind \<Rightarrow> (string \<times> attr) list \<Rightarrow> ('s traced, ctx \<times> nat) op" where
  "Tracer_Start cx name kind attrs s =
    (let span = length (td_calls s) in
     ((cx\<lparr>cx_span := Some (Local span)\<rparr>, span), emit (Span_start name kind attrs (cx_span cx)) s))"

definition Start :: "ctx \<Rightarrow> string \<Rightarrow> (string \<times> attr) list \<Rightarrow> ('s traced, ctx \<times> nat) op" where
  "Start cx name attrs s =
    (case Tracer_Start cx name Internal [] s of ((cx, span), s) \<Rightarrow>
     ((cx, span), if 0 < length attrs then emit (Set_attributes span attrs) s else s))"

definition RecordError :: "telemetry \<Rightarrow> nat \<Rightarrow> goerr option \<Rightarrow> 's traced \<Rightarrow> 's traced" where
  "RecordError T span err s =
    (case err of
       None \<Rightarrow> s
     | Some e \<Rightarrow> if \<not> tm_recording T span then s
                 else emit (Set_error_status span (Error_text e)) (emit (Record_error span e) s))"

definition Extract :: "telemetry \<Rightarrow> (string \<Rightarrow> string) \<Rightarrow> ctx \<Rightarrow> ctx" where
  "Extract T get cx = (case tm_Extract T get of None \<Rightarrow> cx | Some sc \<Rightarrow> cx\<lparr>cx_span := Some (Remote sc)\<rparr>)"

definition ExtractKafka :: "telemetry \<Rightarrow> ctx \<Rightarrow> header list \<Rightarrow> ctx" where
  "ExtractKafka T cx headers = Extract T (carrier_Get headers) cx"

section \<open>Queries (pgx.go)\<close>

definition TraceQueryStart :: "ctx \<Rightarrow> string \<Rightarrow> ('s traced, ctx) op" where
  "TraceQueryStart cx sql0 s =
    (let sql = (if length sql0 > 512 then take 512 sql0 else sql0) in
     (case Tracer_Start cx ''db.query'' Client
        [(''db.system'', AStr ''postgresql''), (''db.operation'', AStr ''query''), (''db.statement'', AStr sql)] s of
        ((cx, span), s) \<Rightarrow> (cx\<lparr>cx_pgx := Some span\<rparr>, s)))"

definition TraceQueryEnd :: "telemetry \<Rightarrow> ctx \<Rightarrow> goerr option \<Rightarrow> 's traced \<Rightarrow> 's traced" where
  "TraceQueryEnd T cx err s =
    (case cx_pgx cx of
       None \<Rightarrow> s
     | Some span \<Rightarrow> emit (Span_end span) (RecordError T span err s))"

section \<open>Log lines (log.go)\<close>

text \<open>A multi handler and the handlers of the libraries keep attributes and groups; \<open>traceHandler\<close> passes them on.\<close>

fun WithAttrs :: "(string \<times> attr) list \<Rightarrow> log_handler \<Rightarrow> log_handler" where
  "WithAttrs attrs (TraceHandler h) = TraceHandler (WithAttrs attrs h)"
| "WithAttrs attrs (MultiHandler hs) = MultiHandler (map (WithAttrs attrs) hs)"
| "WithAttrs attrs h = Derived attrs h"

fun WithGroup :: "string \<Rightarrow> log_handler \<Rightarrow> log_handler" where
  "WithGroup name (TraceHandler h) = TraceHandler (WithGroup name h)"
| "WithGroup name (MultiHandler hs) = MultiHandler (map (WithGroup name) hs)"
| "WithGroup name h = Grouped name h"

text \<open>A sink with the attributes it is given; a group qualifies the keys of what comes after it.\<close>

datatype sink = Stdout | Collector string

fun Enabled :: "telemetry \<Rightarrow> int \<Rightarrow> log_handler \<Rightarrow> bool" where
  "Enabled T level (JSONHandler l) = (l \<le> level)"
| "Enabled T level (OtelHandler name) = tm_otel_enabled T level"
| "Enabled T level (MultiHandler hs) = list_ex (Enabled T level) hs"
| "Enabled T level (Derived as h) = Enabled T level h"
| "Enabled T level (Grouped g h) = Enabled T level h"
| "Enabled T level (TraceHandler h) = Enabled T level h"

definition trace_attrs :: "telemetry \<Rightarrow> ctx \<Rightarrow> (string \<times> attr) list" where
  "trace_attrs T cx =
    (case Option.bind (cx_span cx) (tm_ids T) of
       None \<Rightarrow> []
     | Some (trace, span) \<Rightarrow> [(''trace_id'', AStr trace), (''span_id'', AStr span)])"

fun Handle :: "telemetry \<Rightarrow> ctx \<Rightarrow> int \<Rightarrow> (string \<times> attr) list \<Rightarrow> log_handler \<Rightarrow> (sink \<times> (string \<times> attr) list) list" where
  "Handle T cx level rec (JSONHandler l) = [(Stdout, rec)]"
| "Handle T cx level rec (OtelHandler name) = [(Collector name, rec)]"
| "Handle T cx level rec (MultiHandler hs) = concat (map (\<lambda>h. if Enabled T level h then Handle T cx level rec h else []) hs)"
| "Handle T cx level rec (Derived as h) = Handle T cx level (as @ rec) h"
| "Handle T cx level rec (Grouped g h) = Handle T cx level (map (\<lambda>(k, v). (g @ ''.'' @ k, v)) rec) h"
| "Handle T cx level rec (TraceHandler h) = Handle T cx level (rec @ trace_attrs T cx) h"

definition ContextWithLogger :: "ctx \<Rightarrow> log_handler \<Rightarrow> ctx" where
  "ContextWithLogger cx log = cx\<lparr>cx_logger := Some log\<rparr>"

definition Logger :: "telemetry \<Rightarrow> ctx \<Rightarrow> log_handler" where
  "Logger T cx = (case cx_logger cx of Some log \<Rightarrow> log | None \<Rightarrow> tm_default T)"

section \<open>Requests (http.go)\<close>

text \<open>
  The middleware with its span; the handler inside is given the new context.  The log line at the
  end is recorded with the attributes of the call, the duration left out.
\<close>

definition HTTP_traced ::
    "telemetry \<Rightarrow> ('s, 'i) packages \<Rightarrow> 's http_packages \<Rightarrow> (ctx \<Rightarrow> 's traced handler) \<Rightarrow> ctx \<Rightarrow> 's traced handler" where
  "HTTP_traced T P hp nxt cx0 r w s =
    (if rq_Path r = ''/metrics'' then nxt cx0 r w s
     else
      (let cx = Extract T (rq_Header r) cx0 in
      (case Tracer_Start cx (rq_Method r @ '' '' @ rq_Path r) Server_kind
         [(''http.request.method'', AStr (rq_Method r)), (''url.path'', AStr (rq_Path r))] s of
         ((cx, span), s) \<Rightarrow>
       let cx = (if cx_reqID cx \<noteq> [] then ContextWithLogger cx (WithAttrs [(''request_id'', AStr (cx_reqID cx))] (Logger T cx))
                 else cx) in
      (case nxt cx r w s of (w, s) \<Rightarrow>
       let route = (if hp_pattern hp r \<noteq> [] then hp_pattern hp r else rq_Path r);
           status = (if wr_Status w = 0 then 200 else wr_Status w);
           s = emit (Set_name span (rq_Method r @ '' '' @ route)) s;
           s = emit (Set_attributes span [(''http.response.status_code'', AInt status), (''http.route'', AStr route)]) s;
           s = (if status \<ge> 500 then emit (Set_error_status span (Status_text status)) s else s);
           s = s\<lparr>td_state := observe P (HTTPDuration (rq_Method r) route)
                 (observe P (HTTPRequests (rq_Method r) route (Itoa status)) (td_state s))\<rparr>;
           s = emit (Log_line ''http request''
                 [(''method'', AStr (rq_Method r)), (''path'', AStr route), (''status'', AInt status)]) s
       in (w, emit (Span_end span) s)))))"

section \<open>Open spans\<close>

text \<open>
  The spans that are open after a list of calls; \<open>None\<close> where a call names a span that is not open.
\<close>

fun replay_call :: "nat \<Rightarrow> span_call \<Rightarrow> nat set \<Rightarrow> nat set option" where
  "replay_call n (Span_start name kind attrs parent) S = Some (insert n S)"
| "replay_call n (Set_attributes i attrs) S = (if i \<in> S then Some S else None)"
| "replay_call n (Set_name i name) S = (if i \<in> S then Some S else None)"
| "replay_call n (Record_error i e) S = (if i \<in> S then Some S else None)"
| "replay_call n (Set_error_status i d) S = (if i \<in> S then Some S else None)"
| "replay_call n (Span_end i) S = (if i \<in> S then Some (S - {i}) else None)"
| "replay_call n (Log_line m attrs) S = Some S"

fun replay_calls :: "nat \<Rightarrow> span_call list \<Rightarrow> nat set \<Rightarrow> nat set option" where
  "replay_calls n [] S = Some S"
| "replay_calls n (c # cs) S = Option.bind (replay_call n c S) (replay_calls (Suc n) cs)"

definition open_spans :: "span_call list \<Rightarrow> nat set option" where
  "open_spans cs = replay_calls 0 cs {}"

lemma replay_append: "replay_calls n (cs @ ds) S = Option.bind (replay_calls n cs S) (replay_calls (n + length cs) ds)"
  by (induction cs arbitrary: n S) (auto simp: Option.bind_assoc split: bind_splits)

lemma open_spans_append:
  "open_spans [] = Some {}" "open_spans (cs @ ds) = Option.bind (open_spans cs) (replay_calls (length cs) ds)"
  by (simp_all add: open_spans_def replay_append)

lemma open_spans_less: "open_spans cs = Some S \<Longrightarrow> i \<in> S \<Longrightarrow> i < length cs"
proof (induction cs arbitrary: S rule: rev_induct)
  case (snoc c cs)
  then obtain S' where "open_spans cs = Some S'" "replay_call (length cs) c S' = Some S"
    by (auto simp: bind_eq_Some_conv open_spans_append)
  then show ?case using snoc by (cases c) (auto split: if_splits intro: less_SucI)
qed (simp add: open_spans_append)

lemma emit_sel [simp]:
  "td_state (emit c s) = td_state s" "td_calls (emit c s) = td_calls s @ [c]"
  by (simp_all add: emit_def)

text \<open>A handler with spans follows one without: the same answer and state, and the spans it opens are closed again.\<close>

definition follows :: "(ctx \<Rightarrow> 's traced handler) \<Rightarrow> 's handler \<Rightarrow> bool" where
  "follows traced plain \<longleftrightarrow> (\<forall>cx r w s w' s'. traced cx r w s = (w', s') \<longrightarrow>
     (w', td_state s') = plain r w (td_state s) \<and>
     (\<forall>S. open_spans (td_calls s) = Some S \<longrightarrow> open_spans (td_calls s') = Some S))"

lemma followsD:
  assumes "follows traced plain" "traced cx r w s = (w', s')"
  shows "(w', td_state s') = plain r w (td_state s)" "open_spans (td_calls s) = Some S \<Longrightarrow> open_spans (td_calls s') = Some S"
  using assms by (simp_all add: follows_def)

text \<open>The calls that end the span \<open>i\<close> of a request.\<close>

definition request_end :: "nat \<Rightarrow> Request \<Rightarrow> string \<Rightarrow> int \<Rightarrow> span_call list" where
  "request_end i r route status =
    [Set_name i (rq_Method r @ '' '' @ route),
     Set_attributes i [(''http.response.status_code'', AInt status), (''http.route'', AStr route)]] @
    (if 500 \<le> status then [Set_error_status i (Status_text status)] else []) @
    [Log_line ''http request'' [(''method'', AStr (rq_Method r)), (''path'', AStr route), (''status'', AInt status)], Span_end i]"

lemma request_end_closes: "open_spans cs = Some (insert i S) \<Longrightarrow> open_spans (cs @ request_end i r route status) = Some (S - {i})"
  by (simp add: request_end_def open_spans_append)

abbreviation request_route :: "'s http_packages \<Rightarrow> Request \<Rightarrow> string" where
  "request_route hp r \<equiv> (if hp_pattern hp r \<noteq> [] then hp_pattern hp r else rq_Path r)"

abbreviation sent_status :: "Writer \<Rightarrow> int" where
  "sent_status w \<equiv> (if wr_Status w = 0 then 200 else wr_Status w)"

abbreviation request_start :: "telemetry \<Rightarrow> ctx \<Rightarrow> Request \<Rightarrow> span_call" where
  "request_start T cx r \<equiv> Span_start (rq_Method r @ '' '' @ rq_Path r) Server_kind
     [(''http.request.method'', AStr (rq_Method r)), (''url.path'', AStr (rq_Path r))]
     (case tm_Extract T (rq_Header r) of None \<Rightarrow> cx_span cx | Some sc \<Rightarrow> Some (Remote sc))"

lemma HTTP_traced_run:
  assumes "rq_Path r \<noteq> ''/metrics''" "HTTP_traced T P hp nxt cx r w s = (w', s')"
  obtains cx1 s1 where "cx_span cx1 = Some (Local (length (td_calls s)))"
    "nxt cx1 r w (emit (request_start T cx r) s) = (w', s1)"
    "td_calls s' = td_calls s1 @ request_end (length (td_calls s)) r (request_route hp r) (sent_status w')"
    "td_state s' = observe P (HTTPDuration (rq_Method r) (request_route hp r))
      (observe P (HTTPRequests (rq_Method r) (request_route hp r) (Itoa (sent_status w'))) (td_state s1))"
proof -
  define cx0 where "cx0 = (Extract T (rq_Header r) cx)\<lparr>cx_span := Some (Local (length (td_calls s)))\<rparr>"
  define cx1 where "cx1 = (if cx_reqID cx0 \<noteq> [] then ContextWithLogger cx0 (WithAttrs [(''request_id'', AStr (cx_reqID cx0))] (Logger T cx0)) else cx0)"
  have p: "cx_span (Extract T (rq_Header r) cx) = (case tm_Extract T (rq_Header r) of None \<Rightarrow> cx_span cx | Some sc \<Rightarrow> Some (Remote sc))"
    by (simp add: Extract_def split: option.split)
  obtain w1 s1 where n: "nxt cx1 r w (emit (request_start T cx r) s) = (w1, s1)" by fastforce
  note run = assms(2) [unfolded HTTP_traced_def Tracer_Start_def Let_def prod.case p cx0_def [symmetric] cx1_def [symmetric] n]
  show ?thesis
  proof (rule that)
    show "cx_span cx1 = Some (Local (length (td_calls s)))" by (simp add: cx1_def cx0_def ContextWithLogger_def)
    show "nxt cx1 r w (emit (request_start T cx r) s) = (w', s1)" using n run assms(1) by auto
    show "td_calls s' = td_calls s1 @ request_end (length (td_calls s)) r (request_route hp r) (sent_status w')"
      using run assms(1) by (auto simp: request_end_def)
    show "td_state s' = observe P (HTTPDuration (rq_Method r) (request_route hp r))
      (observe P (HTTPRequests (rq_Method r) (request_route hp r) (Itoa (sent_status w'))) (td_state s1))"
      using run assms(1) by auto
  qed
qed

end
