(* ===== verification/Process.thy ===== *)
theory Process
  imports Server Migrate Tracing
begin

text \<open>
  The life of the two processes: \<open>observability.Setup\<close>, the logger and the collectors
  (\<open>internal/observability/otel.go\<close>, \<open>log.go\<close>, \<open>pool.go\<close>), \<open>app.New\<close> and \<open>Deps.Close\<close>
  (\<open>internal/app/deps.go\<close>), and \<open>main\<close> of \<open>cmd/server\<close> and \<open>cmd/worker\<close>.  The state keeps a trace of
  what is opened, used and closed; \<open>os.Exit\<close> ends a process without its deferred calls.
\<close>

section \<open>The state of a process\<close>

datatype resource = Signals | Traces | Logs | Pool | Writers | HTTPServer | MetricsServer | UploadReader | DeleteReader

datatype event = Opens resource | Uses resource | Closes resource | Error_line string goerr | Warn_line string goerr

record 'e proc =
  pc_env :: 'e
  pc_logs :: bool                 \<comment> \<open>the variable \<open>logProvider\<close> is not nil\<close>
  pc_logger :: "log_handler option"    \<comment> \<open>the default logger\<close>
  pc_trace :: "event list"

text \<open>What the process calls in its libraries; the error of a call is part of its result.\<close>

record 'e runtime =
  rt_pgx_ParseConfig :: "string \<Rightarrow> goerr option"
  rt_pgx_New :: "string \<Rightarrow> ('e, goerr option) op"
  rt_pgx_Ping :: "('e, goerr option) op"
  rt_pgx_Query :: "query \<Rightarrow> ('e, answer) op"
  rt_pgx_Close :: "'e \<Rightarrow> 'e"
  rt_prometheus_Register :: "string \<Rightarrow> ('e, goerr option) op"
  rt_already_registered :: "goerr \<Rightarrow> bool"
  rt_minio_New :: "Config \<Rightarrow> goerr option"
  rt_traces_New :: "string \<Rightarrow> bool \<Rightarrow> ('e, goerr option) op"
  rt_logs_New :: "string \<Rightarrow> bool \<Rightarrow> ('e, goerr option) op"
  rt_resource_New :: "string \<Rightarrow> ('e, goerr option) op"
  rt_traces_Shutdown :: "('e, goerr option) op"
  rt_logs_Shutdown :: "('e, goerr option) op"
  rt_fs_Sub :: "goerr option"
  rt_serve :: "string \<Rightarrow> ('e, goerr option) op"    \<comment> \<open>until a signal (\<open>None\<close>) or until \<open>ListenAndServe\<close> fails\<close>
  rt_metrics_serve :: "string \<Rightarrow> ('e, goerr option) op"
  rt_Shutdown :: "resource \<Rightarrow> ('e, goerr option) op"
  rt_loops :: "('e, goerr option list) op"         \<comment> \<open>the results of the worker's loops, in order of arrival\<close>

definition happens :: "event \<Rightarrow> 'e proc \<Rightarrow> 'e proc" where
  "happens ev s = s\<lparr>pc_trace := pc_trace s @ [ev]\<rparr>"

definition outside_call :: "('e, 'a) op \<Rightarrow> ('e proc, 'a) op" where
  "outside_call m s = (case m (pc_env s) of (r, e) \<Rightarrow> (r, s\<lparr>pc_env := e\<rparr>))"

definition opens :: "resource \<Rightarrow> ('e, goerr option) op \<Rightarrow> ('e proc, goerr option) op" where
  "opens R m s =
    (case outside_call m s of (Some err, s) \<Rightarrow> (Some err, s) | (None, s) \<Rightarrow> (None, happens (Opens R) s))"

definition uses_call :: "resource \<Rightarrow> ('e, 'a) op \<Rightarrow> ('e proc, 'a) op" where
  "uses_call R m s = outside_call m (happens (Uses R) s)"

definition closes :: "resource \<Rightarrow> ('e, 'a) op \<Rightarrow> ('e proc, 'a) op" where
  "closes R m s = outside_call m (happens (Closes R) s)"

section \<open>Telemetry (otel.go)\<close>

definition TrimPrefix :: "string \<Rightarrow> string \<Rightarrow> string" where
  "TrimPrefix s p = (if prefix p s then drop (length p) s else s)"

definition parseOTLPEndpoint :: "string \<Rightarrow> string \<times> bool" where
  "parseOTLPEndpoint raw0 =
    (let raw = TrimSpace raw0;
         (raw, insecure) =
           (if prefix ''https://'' raw then (TrimPrefix raw ''https://'', False)
            else if prefix ''http://'' raw then (TrimPrefix raw ''http://'', True)
            else (raw, True))
     in (TrimRight raw ''/'', insecure))"

definition setLogProvider :: "bool \<Rightarrow> 'e proc \<Rightarrow> 'e proc" where
  "setLogProvider lp s = s\<lparr>pc_logs := lp\<rparr>"

definition currentLogProvider :: "'e proc \<Rightarrow> bool" where
  "currentLogProvider s = pc_logs s"

text \<open>\<open>errors.Join\<close> of two errors; the text of the joined error is not modelled.\<close>

definition Join :: "goerr option \<Rightarrow> goerr option \<Rightarrow> goerr option" where
  "Join a b = (case a of None \<Rightarrow> b | Some e \<Rightarrow> (case b of None \<Rightarrow> Some e | Some e' \<Rightarrow> Some (ErrWrap2 e e')))"

text \<open>The function that \<open>Setup\<close> returns.\<close>

definition otelStop :: "'e runtime \<Rightarrow> bool \<Rightarrow> ('e proc, goerr option) op" where
  "otelStop rt enabled s =
    (if \<not> enabled then (None, s)
     else (case closes Traces (rt_traces_Shutdown rt) s of (err1, s) \<Rightarrow>
          (case closes Logs (rt_logs_Shutdown rt) s of (err2, s) \<Rightarrow> (Join err1 err2, setLogProvider False s))))"

definition Setup :: "'e runtime \<Rightarrow> string \<Rightarrow> string \<Rightarrow> ('e proc, ('e proc, goerr option) op result) op" where
  "Setup rt service endpoint s =
    (if TrimSpace endpoint = [] then (Inr (otelStop rt False), setLogProvider False s)
     else (case parseOTLPEndpoint endpoint of (host, insecure) \<Rightarrow>
    (case opens Traces (rt_traces_New rt host insecure) s of
       (Some err, s) \<Rightarrow> (Inl err, s)
     | (None, s) \<Rightarrow>
    (case opens Logs (rt_logs_New rt host insecure) s of
       (Some err, s) \<Rightarrow> (case closes Traces (rt_traces_Shutdown rt) s of (_, s) \<Rightarrow> (Inl err, s))
     | (None, s) \<Rightarrow>
    (case outside_call (rt_resource_New rt service) s of
       (Some err, s) \<Rightarrow>
         (case closes Traces (rt_traces_Shutdown rt) s of (_, s) \<Rightarrow>
         (case closes Logs (rt_logs_Shutdown rt) s of (_, s) \<Rightarrow> (Inl err, s)))
     | (None, s) \<Rightarrow> (Inr (otelStop rt True), setLogProvider True s))))))"

section \<open>The logger (log.go)\<close>

text \<open>The levels of \<open>log/slog\<close>.\<close>

definition ParseLevel :: "string \<Rightarrow> int" where
  "ParseLevel raw =
    (let l = ToLower (TrimSpace raw) in
     if l = ''debug'' then - 4
     else if l \<in> {''warn'', ''warning''} then 4
     else if l = ''error'' then 8
     else 0)"

definition NewLogger :: "string \<Rightarrow> int \<Rightarrow> 'e proc \<Rightarrow> log_handler" where
  "NewLogger service level s =
    (let jsonH = TraceHandler (JSONHandler level) in
     if currentLogProvider s
     then (let otelH = TraceHandler (OtelHandler service) in
           WithAttrs [(''service'', AStr service)] (MultiHandler [jsonH, otelH]))
     else WithAttrs [(''service'', AStr service)] jsonH)"

section \<open>The application (deps.go, pool.go)\<close>

definition pool_collectors :: "string list" where
  "pool_collectors = [''db_pool_acquired'', ''db_pool_idle'', ''db_pool_max'']"

definition register_one :: "'e runtime \<Rightarrow> string \<Rightarrow> ('e proc, goerr option) op" where
  "register_one rt c s =
    (case outside_call (rt_prometheus_Register rt c) s of
       (Some err, s) \<Rightarrow> (if rt_already_registered rt err then None else Some err, s)
     | (None, s) \<Rightarrow> (None, s))"

text \<open>\<open>pool\<close>: the pool is not nil.\<close>

definition RegisterPoolCollector :: "'e runtime \<Rightarrow> bool \<Rightarrow> ('e proc, goerr option) op" where
  "RegisterPoolCollector rt pool = (if \<not> pool then (\<lambda>s. (None, s)) else for_err (register_one rt) pool_collectors)"

text \<open>A task run to its end over the queries of a session.\<close>

primrec run_task :: "(query \<Rightarrow> ('s, answer) op) \<Rightarrow> task \<Rightarrow> ('s, goerr option) op" where
  "run_task ask (Return r) = (\<lambda>s. (r, s))"
| "run_task ask (Ask q k) = (\<lambda>s. case ask q s of (a, s) \<Rightarrow> run_task ask (k a) s)"

record 'e Deps =
  dp_Cfg :: Config
  dp_Pool :: bool                       \<comment> \<open>not nil\<close>
  dp_Repo :: "'e sys AvatarStore"
  dp_S3 :: "'e S3"
  dp_Producer :: "'e Producer option"
  dp_Service :: "'e sys AvatarService"
  dp_Log :: "log_handler option"

definition pool_Close :: "'e runtime \<Rightarrow> 'e proc \<Rightarrow> 'e proc" where
  "pool_Close rt s = snd (closes Pool (\<lambda>e. ((), rt_pgx_Close rt e)) s)"

definition app_New :: "('e, 'i) world \<Rightarrow> 'e runtime \<Rightarrow> embed_fs \<Rightarrow> Config \<Rightarrow> ('e proc, 'e Deps result) op" where
  "app_New W rt fs cfg s =
    (case rt_pgx_ParseConfig rt (DatabaseURL cfg) of
       Some err \<Rightarrow> (Inl (ErrWrap ''postgres config'' err), s)
     | None \<Rightarrow>
    (case opens Pool (rt_pgx_New rt (DatabaseURL cfg)) s of
       (Some err, s) \<Rightarrow> (Inl (ErrWrap ''postgres'' err), s)
     | (None, s) \<Rightarrow>
    (case RegisterPoolCollector rt True s of
       (Some err, s) \<Rightarrow> (Inl (ErrWrap ''register pool collector'' err), pool_Close rt s)
     | (None, s) \<Rightarrow>
    (case uses_call Pool (rt_pgx_Ping rt) s of
       (Some err, s) \<Rightarrow> (Inl (ErrWrap ''postgres ping'' err), pool_Close rt s)
     | (None, s) \<Rightarrow>
    (case run_task (\<lambda>q. uses_call Pool (rt_pgx_Query rt q)) (Up fs) s of
       (Some err, s) \<Rightarrow> (Inl (ErrWrap ''migrate'' err), pool_Close rt s)
     | (None, s) \<Rightarrow>
    (case NewS3 W (rt_minio_New rt cfg) cfg of
       Inl err \<Rightarrow> (Inl err, pool_Close rt s)
     | Inr s3 \<Rightarrow>
    (case outside_call (EnsureBucket s3) s of
       (Some err, s) \<Rightarrow> (Inl (ErrWrap ''s3 bucket'' err), pool_Close rt s)
     | (None, s) \<Rightarrow>
    (case outside_call (EnsureTopics (w_kafka W) (KafkaBrokers cfg) [TopicUpload cfg, TopicDelete cfg, TopicProcess cfg]) s of
       (r, s) \<Rightarrow>
     let s = (case r of Some err \<Rightarrow> happens (Warn_line ''kafka topics'' err) s | None \<Rightarrow> s);
         repo = AvatarRepository (w_pg W);
         producer = NewProducer W cfg;
         s = happens (Opens Writers) s;
         svc = NewAvatarService repo (S3_store s3) (Producer_publisher producer) (PublicBaseURL cfg) (MaxUploadBytes cfg)
     in (Inr \<lparr>dp_Cfg = cfg, dp_Pool = True, dp_Repo = repo, dp_S3 = s3, dp_Producer = Some producer, dp_Service = svc,
          dp_Log = pc_logger s\<rparr>, s)))))))))"

definition Deps_Close :: "'e runtime \<Rightarrow> 'e Deps \<Rightarrow> 'e proc \<Rightarrow> 'e proc" where
  "Deps_Close rt d s =
    (let s = (case dp_Producer d of Some p \<Rightarrow> snd (closes Writers (Producer_Close p) s) | None \<Rightarrow> s)
     in if dp_Pool d then pool_Close rt s else s)"


section \<open>The server (cmd/server/main.go)\<close>

datatype exit = Returned | Exit int

definition named :: "string \<Rightarrow> Config \<Rightarrow> Config" where
  "named name cfg = (if ServiceName cfg = [] \<or> ServiceName cfg = ''gophprofile'' then cfg\<lparr>ServiceName := name\<rparr> else cfg)"

definition log_error :: "string \<Rightarrow> goerr option \<Rightarrow> 'e proc \<Rightarrow> 'e proc" where
  "log_error msg r s = (case r of Some err \<Rightarrow> happens (Error_line msg err) s | None \<Rightarrow> s)"

definition set_logger :: "Config \<Rightarrow> 'e proc \<Rightarrow> 'e proc" where
  "set_logger cfg s = s\<lparr>pc_logger := Some (NewLogger (ServiceName cfg) (ParseLevel (LogLevel cfg)) s)\<rparr>"

text \<open>The deferred calls of \<open>main\<close> that both processes have, last in first out.\<close>

definition deferred :: "'e runtime \<Rightarrow> 'e Deps \<Rightarrow> ('e proc, goerr option) op \<Rightarrow> 'e proc \<Rightarrow> 'e proc" where
  "deferred rt deps stop_otel s =
    (case stop_otel (Deps_Close rt deps s) of (r, s) \<Rightarrow> happens (Closes Signals) (log_error ''otel shutdown'' r s))"

text \<open>Up to the application, with \<open>os.Exit(1)\<close> on an error.\<close>

definition bootstrap :: "('e, 'i) world \<Rightarrow> 'e runtime \<Rightarrow> embed_fs \<Rightarrow> string \<Rightarrow> (string \<Rightarrow> string)
    \<Rightarrow> ('e proc, exit + Config \<times> 'e Deps \<times> ('e proc, goerr option) op) op" where
  "bootstrap W rt fs name getenv s =
    (case Load getenv of
       Inl err \<Rightarrow> (Inl (Exit 1), happens (Error_line ''config'' err) s)
     | Inr cfg0 \<Rightarrow>
    let cfg = named name cfg0; s = happens (Opens Signals) s in
    (case Setup rt (ServiceName cfg) (OTLPEndpoint cfg) s of
       (Inl err, s) \<Rightarrow> (Inl (Exit 1), happens (Error_line ''otel'' err) s)
     | (Inr stop_otel, s) \<Rightarrow>
    (case app_New W rt fs cfg (set_logger cfg s) of
       (Inl err, s) \<Rightarrow> (Inl (Exit 1), happens (Error_line ''bootstrap'' err) s)
     | (Inr deps, s) \<Rightarrow> (Inr (cfg, deps, stop_otel), s))))"

definition server_main ::
    "('e, 'i) world \<Rightarrow> 'e runtime \<Rightarrow> embed_fs \<Rightarrow> (string \<Rightarrow> string) \<Rightarrow> ('e proc, exit) op" where
  "server_main W rt fs getenv s =
    (case bootstrap W rt fs ''gophprofile-server'' getenv s of
       (Inl r, s) \<Rightarrow> (r, s)
     | (Inr (cfg, deps, stop_otel), s) \<Rightarrow>
    (case NewWebHandler (dp_Service deps) (rt_fs_Sub rt) (MaxUploadBytes cfg) of
       Inl err \<Rightarrow> (Exit 1, happens (Error_line ''web'' err) s)
     | Inr webh \<Rightarrow>
    (case outside_call (rt_serve rt (HTTPAddr cfg)) (happens (Opens HTTPServer) s) of (r, s) \<Rightarrow>
    (case closes HTTPServer (rt_Shutdown rt HTTPServer) (log_error ''http'' r s) of (r, s) \<Rightarrow>
      (Returned, deferred rt deps stop_otel (log_error ''shutdown'' r s))))))"

section \<open>The worker (cmd/worker/main.go)\<close>

definition worker_main ::
    "('e, 'i) world \<Rightarrow> 'e runtime \<Rightarrow> embed_fs \<Rightarrow> (string \<Rightarrow> string) \<Rightarrow> ('e proc, exit) op" where
  "worker_main W rt fs getenv s =
    (case bootstrap W rt fs ''gophprofile-worker'' getenv s of
       (Inl r, s) \<Rightarrow> (r, s)
     | (Inr (cfg, deps, stop_otel), s) \<Rightarrow>
    (case outside_call (rt_metrics_serve rt (MetricsAddr cfg)) (happens (Opens MetricsServer) s) of (r, s) \<Rightarrow>
    let s = happens (Opens DeleteReader) (happens (Opens UploadReader) (log_error ''metrics http'' r s)) in
    (case outside_call (rt_loops rt) s of (rs, s) \<Rightarrow>
    (case run_result rs of
       Some err \<Rightarrow> (Exit 1, happens (Error_line ''worker'' err) s)
     | None \<Rightarrow>
    (case closes DeleteReader (rt_Shutdown rt DeleteReader) s of (_, s) \<Rightarrow>
    (case closes UploadReader (rt_Shutdown rt UploadReader) s of (_, s) \<Rightarrow>
    (case closes MetricsServer (rt_Shutdown rt MetricsServer) s of (_, s) \<Rightarrow>
      (Returned, deferred rt deps stop_otel s))))))))"

end
