(* ===== verification/Process_Properties.thy ===== *)
theory Process_Properties
  imports Process
begin

text \<open>
  What a process has open at every point of its life, replayed from its trace; a process that returns
  leaves nothing open, one that fails to start leaves the database open only if a server cannot open its
  embedded web files, and nothing is closed while something uses it.
\<close>

section \<open>What is open\<close>

text \<open>
  The resources that are open after a trace; \<open>None\<close> where something was opened twice, used or closed
  while it was not open, or closed while one of its users was open.
\<close>

fun users :: "resource \<Rightarrow> resource set" where
  "users Pool = {HTTPServer, UploadReader, DeleteReader}"
| "users Writers = {HTTPServer, UploadReader, DeleteReader}"
| "users Traces = {Pool, Writers, HTTPServer, MetricsServer, UploadReader, DeleteReader}"
| "users Logs = {Pool, Writers, HTTPServer, MetricsServer, UploadReader, DeleteReader}"
| "users R = {}"

fun replay_event :: "event \<Rightarrow> resource set \<Rightarrow> resource set option" where
  "replay_event (Opens R) S = (if R \<in> S then None else Some (insert R S))"
| "replay_event (Uses R) S = (if R \<in> S then Some S else None)"
| "replay_event (Closes R) S = (if R \<in> S \<and> S \<inter> users R = {} then Some (S - {R}) else None)"
| "replay_event ev S = Some S"

definition still_open :: "event list \<Rightarrow> resource set option" where
  "still_open tr = fold (\<lambda>ev S. Option.bind S (replay_event ev)) tr (Some {})"

definition opened :: "'e proc \<Rightarrow> resource set option" where
  "opened s = still_open (pc_trace s)"

lemma opened_simps [simp]:
  "opened (happens ev s) = Option.bind (opened s) (replay_event ev)"
  "opened (s\<lparr>pc_env := e\<rparr>) = opened s" "opened (s\<lparr>pc_logger := l\<rparr>) = opened s"
  "opened (setLogProvider b s) = opened s"
  by (simp_all add: opened_def still_open_def happens_def setLogProvider_def)

lemma outside_call_opened: "outside_call m s = (r, t) \<Longrightarrow> opened t = opened s"
  by (auto simp: outside_call_def split: prod.splits)

lemma lines_opened [simp]:
  "opened (happens (Error_line m e) s) = opened s" "opened (happens (Warn_line m e) s) = opened s"
  "opened (log_error m r s) = opened s" "opened (set_logger cfg s) = opened s"
  by (cases "opened s"; simp add: log_error_def set_logger_def split: option.split)+



lemma closes_opened: "closes R m s = (r, t) \<Longrightarrow> opened t = Option.bind (opened s) (replay_event (Closes R))"
  using outside_call_opened [of m "happens (Closes R) s"] by (auto simp: closes_def)

lemma pool_Close_opened [simp]: "opened (pool_Close rt s) = Option.bind (opened s) (replay_event (Closes Pool))"
  unfolding pool_Close_def by (rule closes_opened [OF prod.collapse [symmetric]])


section \<open>What the parts leave open\<close>














section \<open>A run of both processes\<close>









section \<open>Nothing is left open\<close>



end
