(* ===== verification/Worker_Run.thy ===== *)
theory Worker_Run
  imports Worker
begin

text \<open>
  \<open>Worker.Run\<close> (\<open>internal/worker/worker.go\<close>): three goroutines, one for each topic and one for the
  maintenance, that end with an error or \<open>nil\<close>, cancel the shared context when it is an error and send
  it into a channel, and the function itself, which receives three results and returns the first
  error.  A goroutine moves by \<open>turn\<close>, one call at a time; \<open>run_trace\<close> interleaves the goroutines with
  each other, with the receiving loop and with everything that other processes do.
\<close>

section \<open>One goroutine\<close>

text \<open>
  Where a goroutine is: in \<open>consume\<close> before \<open>Fetch\<close>, after a failed one, in \<open>withRetry\<close> before a call of
  the handler (attempts left, next pause, \<open>last\<close>) and before a pause, and before \<open>Commit\<close> with the result of
  the handler; in \<open>maintenance\<close> before each of its three calls; or behind its loop.
\<close>

datatype pc =
    Fetching
  | Checking goerr
  | Handling message nat int "goerr option"
  | Backing_off message nat int goerr
  | Committing message "goerr option"
  | Flushing
  | Recovering
  | Ticking
  | Ended "goerr option"
  | Sending "goerr option"
  | Sent "goerr option"

fun turn ::
    "('s, 'i) packages \<Rightarrow> ('s \<Rightarrow> bool) \<Rightarrow> 's Worker \<Rightarrow> 's cursor \<Rightarrow> (message \<Rightarrow> ('s, goerr option) op)
     \<Rightarrow> pc \<Rightarrow> ('s, pc) op" where
  "turn P ctx_done w c handle Fetching s =
    (case cur_Fetch c s of
       (Inl err, s) \<Rightarrow> (Checking err, s)
     | (Inr msg, s) \<Rightarrow> (Handling msg (w_attempts w) 200 None, s))"
| "turn P ctx_done w c handle (Checking err) s = (Ended (if ctx_done s then None else Some err), s)"
| "turn P ctx_done w c handle (Handling msg 0 backoff lasterr) s = (Committing msg lasterr, s)"
| "turn P ctx_done w c handle (Handling msg (Suc n) backoff lasterr) s =
    (case handle msg s of
       (None, s) \<Rightarrow> (Committing msg None, s)
     | (Some err, s) \<Rightarrow>
         (if IsPermanent err \<or> n = 0 then Committing msg (Some err) else Backing_off msg n backoff err, s))"
| "turn P ctx_done w c handle (Backing_off msg n backoff err) s =
    (case wait_or_done P backoff s of
       (Some ctxerr, s) \<Rightarrow> (Committing msg (Some ctxerr), s)
     | (None, s) \<Rightarrow> (Handling msg n (backoff * 2) (Some err), s))"
| "turn P ctx_done w c handle (Committing msg r) s =
    (case cur_Commit c msg (observe P (KafkaMessages ''consume'' (m_Topic msg) (if r = None then ''ok'' else ''error'')) s) of
       (Some cerr, s) \<Rightarrow> (Ended (Some (ErrWrap (if r = None then ''commit'' else ''commit dropped message'') cerr)), s)
     | (None, s) \<Rightarrow> (Fetching, s))"
| "turn P ctx_done w c handle Flushing s = (case FlushOutbox P (w_svc w) s of (_, s) \<Rightarrow> (Recovering, s))"
| "turn P ctx_done w c handle Recovering s = (case RecoverStuck P (w_svc w) s of (_, s) \<Rightarrow> (Ticking, s))"
| "turn P ctx_done w c handle Ticking s =
    (case wait_or_done P 10000 s of
       (Some _, s) \<Rightarrow> (Ended None, s)
     | (None, s) \<Rightarrow> (Flushing, s))"
| "turn P ctx_done w c handle (Ended r) s = (Ended r, s)"
| "turn P ctx_done w c handle (Sending r) s = (Sending r, s)"
| "turn P ctx_done w c handle (Sent r) s = (Sent r, s)"

definition turns ::
    "('s, 'i) packages \<Rightarrow> ('s \<Rightarrow> bool) \<Rightarrow> 's Worker \<Rightarrow> 's cursor \<Rightarrow> (message \<Rightarrow> ('s, goerr option) op)
     \<Rightarrow> nat \<Rightarrow> pc \<times> 's \<Rightarrow> pc \<times> 's" where
  "turns P ctx_done w c handle n = (\<lambda>(pc, s). turn P ctx_done w c handle pc s) ^^ n"

section \<open>\<open>Run\<close>\<close>

text \<open>
  The state that is shared, the goroutines, the channel \<open>errCh\<close>, and the variables \<open>i\<close> and \<open>first\<close> of the
  receiving loop; the last field is what \<open>Run\<close> has returned.
\<close>

record 's run =
  ru_state :: 's
  ru_pcs :: "pc list"
  ru_chan :: "goerr option list"
  ru_count :: nat
  ru_first :: "goerr option"
  ru_result :: "goerr option option"

definition start_run :: "'s \<Rightarrow> 's run" where
  "start_run s = \<lparr>ru_state = s, ru_pcs = [Fetching, Fetching, Flushing], ru_chan = [], ru_count = 0,
     ru_first = None, ru_result = None\<rparr>"

text \<open>A goroutine: its loop, then \<open>cancel\<close> after an error, then the send, which waits while three are buffered.\<close>

definition goroutine_turn ::
    "('s, 'i) packages \<Rightarrow> ('s \<Rightarrow> bool) \<Rightarrow> ('s \<Rightarrow> 's) \<Rightarrow> 's Worker \<Rightarrow> nat \<Rightarrow> 's run \<Rightarrow> 's run option" where
  "goroutine_turn P ctx_done cancel w i r =
    (case ru_pcs r ! i of
       Ended err \<Rightarrow> Some (r\<lparr>ru_state := (if err \<noteq> None then cancel (ru_state r) else ru_state r),
                          ru_pcs := (ru_pcs r)[i := Sending err]\<rparr>)
     | Sending err \<Rightarrow>
         if length (ru_chan r) < 3
         then Some (r\<lparr>ru_chan := ru_chan r @ [err], ru_pcs := (ru_pcs r)[i := Sent err]\<rparr>)
         else None
     | Sent err \<Rightarrow> None
     | pc \<Rightarrow>
         (case (if i = 0 then turn P ctx_done w (w_upload w) (handleUpload P w) pc (ru_state r)
                else turn P ctx_done w (w_delete w) (handleDelete P w) pc (ru_state r)) of
            (pc', s) \<Rightarrow> Some (r\<lparr>ru_state := s, ru_pcs := (ru_pcs r)[i := pc']\<rparr>)))"

text \<open>The receiving loop, and the return with the deferred \<open>cancel\<close>.\<close>

definition main_turn :: "('s \<Rightarrow> 's) \<Rightarrow> 's run \<Rightarrow> 's run option" where
  "main_turn cancel r =
    (if ru_result r \<noteq> None then None
     else if ru_count r < 3 then
       (case ru_chan r of
          [] \<Rightarrow> None
        | err # rest \<Rightarrow> Some (r\<lparr>ru_chan := rest, ru_count := ru_count r + 1,
            ru_first := (if err \<noteq> None \<and> ru_first r = None then err else ru_first r)\<rparr>))
     else Some (r\<lparr>ru_result := Some (ru_first r), ru_state := cancel (ru_state r)\<rparr>))"

definition run_turn ::
    "('s, 'i) packages \<Rightarrow> ('s \<Rightarrow> bool) \<Rightarrow> ('s \<Rightarrow> 's) \<Rightarrow> 's Worker \<Rightarrow> nat \<Rightarrow> 's run \<Rightarrow> 's run option" where
  "run_turn P ctx_done cancel w i r =
    (if i < 3 then goroutine_turn P ctx_done cancel w i r
     else if i = 3 then main_turn cancel r
     else None)"

text \<open>\<open>n\<close> turns of \<open>Run\<close>, between which others change the state by \<open>R\<close>.\<close>

inductive run_trace ::
    "('s, 'i) packages \<Rightarrow> ('s \<Rightarrow> bool) \<Rightarrow> ('s \<Rightarrow> 's) \<Rightarrow> 's Worker \<Rightarrow> ('s \<Rightarrow> 's \<Rightarrow> bool) \<Rightarrow> nat \<Rightarrow> 's run \<Rightarrow> 's run \<Rightarrow> bool"
  for P ctx_done cancel w R where
  trace_start: "run_trace P ctx_done cancel w R 0 r r"
| trace_own: "run_trace P ctx_done cancel w R n r r1 \<Longrightarrow> run_turn P ctx_done cancel w i r1 = Some r2
    \<Longrightarrow> run_trace P ctx_done cancel w R (Suc n) r r2"
| trace_other: "run_trace P ctx_done cancel w R n r r1 \<Longrightarrow> R (ru_state r1) s
    \<Longrightarrow> run_trace P ctx_done cancel w R n r (r1\<lparr>ru_state := s\<rparr>)"

text \<open>A schedule names who moves next; it makes examples computable.\<close>

fun run_schedule ::
    "('s, 'i) packages \<Rightarrow> ('s \<Rightarrow> bool) \<Rightarrow> ('s \<Rightarrow> 's) \<Rightarrow> 's Worker \<Rightarrow> nat list \<Rightarrow> 's run \<Rightarrow> 's run option" where
  "run_schedule P ctx_done cancel w [] r = Some r"
| "run_schedule P ctx_done cancel w (i # is) r =
    Option.bind (run_turn P ctx_done cancel w i r) (run_schedule P ctx_done cancel w is)"

lemma run_trace_trans:
  assumes "run_trace P ctx_done cancel w R n r1 r2" "run_trace P ctx_done cancel w R m r0 r1"
  shows "run_trace P ctx_done cancel w R (m + n) r0 r2"
  using assms by (induction) (auto intro: run_trace.intros)

lemma run_schedule_trace:
  "run_schedule P ctx_done cancel w is r = Some r' \<Longrightarrow> run_trace P ctx_done cancel w R (length is) r r'"
proof (induction "is" arbitrary: r)
  case (Cons i "is")
  then obtain r1 where 1: "run_turn P ctx_done cancel w i r = Some r1" "run_schedule P ctx_done cancel w is r1 = Some r'"
    by (auto simp: bind_eq_Some_conv)
  show ?case using run_trace_trans [OF Cons.IH [OF 1(2)] trace_own [OF trace_start 1(1)]] by simp
qed (auto intro: trace_start)

section \<open>The turns of a goroutine make up its loop\<close>

lemma turns_simps:
  "turns P ctx_done w c handle 0 x = x"
  "turns P ctx_done w c handle (Suc n) (pc, s) = turns P ctx_done w c handle n (turn P ctx_done w c handle pc s)"
  by (simp_all add: turns_def funpow_Suc_right del: funpow.simps(2))

lemma turns_add: "turns P ctx_done w c handle (m + n) x = turns P ctx_done w c handle m (turns P ctx_done w c handle n x)"
  by (simp add: turns_def funpow_add)

lemma turns_Ended: "turns P ctx_done w c handle n (Ended r, s) = (Ended r, s)"
  by (induction n) (simp_all add: turns_simps)

text \<open>From a state on the way, the end is the same and nearer.\<close>

lemma turns_resume:
  assumes "turns P ctx_done w c handle m x = (Ended r, t)" "turns P ctx_done w c handle n x = y"
  shows "\<exists>k. turns P ctx_done w c handle k y = (Ended r, t) \<and> (0 < n \<and> fst y \<noteq> Ended r \<longrightarrow> k < m)"
proof (cases "n \<le> m")
  case True
  then have "turns P ctx_done w c handle (m - n) y = (Ended r, t)"
    using assms turns_add [of P ctx_done w c handle "m - n" n x] by simp
  moreover have "m - n < m" if "0 < n" "fst y \<noteq> Ended r"
    using True that by simp
  ultimately show ?thesis by blast
next
  case False
  then have "turns P ctx_done w c handle (n - m) (Ended r, t) = y"
    using assms turns_add [of P ctx_done w c handle "n - m" m x] by simp
  then have "y = (Ended r, t)" by (simp add: turns_Ended)
  then show ?thesis by (intro exI [of _ 0]) (simp add: turns_simps)
qed

lemma retry_turns:
  assumes "retry_attempts (wait_or_done P) n b (handle msg) e s = (r, t)"
  shows "\<exists>k. turns P ctx_done w c handle (Suc k) (Handling msg n b e, s) = (Committing msg r, t)"
  using assms
proof (induction n arbitrary: b e s)
  case 0
  then show ?case by (intro exI [of _ 0]) (simp add: turns_simps)
next
  case (Suc n)
  obtain r1 s1 where f: "handle msg s = (r1, s1)" by fastforce
  obtain r2 s2 where w: "wait_or_done P b s1 = (r2, s2)" by fastforce
  show ?case
  proof (cases "\<exists>err. r1 = Some err \<and> \<not> IsPermanent err \<and> n \<noteq> 0 \<and> r2 = None")
    case True
    then obtain err where err: "r1 = Some err" "\<not> IsPermanent err" "n \<noteq> 0" "r2 = None" by blast
    then have "retry_attempts (wait_or_done P) n (b * 2) (handle msg) (Some err) s2 = (r, t)"
      using Suc.prems f w by simp
    from Suc.IH [OF this] obtain k where
      "turns P ctx_done w c handle (Suc k) (Handling msg n (b * 2) (Some err), s2) = (Committing msg r, t)" by blast
    then show ?thesis using f w err by (intro exI [of _ "Suc (Suc k)"]) (simp add: turns_simps)
  next
    case False
    show ?thesis
    proof (cases "\<exists>err. r1 = Some err \<and> \<not> IsPermanent err \<and> n \<noteq> 0")
      case True
      then show ?thesis using False Suc.prems f w by (intro exI [of _ 1]) (auto simp: turns_simps)
    next
      case False
      then show ?thesis using Suc.prems f by (intro exI [of _ 0]) (auto simp: turns_simps split: option.splits)
    qed
  qed
qed

lemma consume_one_turns:
  assumes "consume_one P ctx_done w c handle s = (r, t)"
  shows "\<exists>k. turns P ctx_done w c handle (Suc k) (Fetching, s) = (case r of Inl e \<Rightarrow> Ended e | Inr _ \<Rightarrow> Fetching, t)"
proof -
  obtain rf s1 where f: "cur_Fetch c s = (rf, s1)" by fastforce
  show ?thesis
  proof (cases rf)
    case (Inl err)
    then show ?thesis using assms f by (intro exI [of _ 1]) (auto simp: consume_one_def turns_simps split: if_splits)
  next
    case (Inr msg)
    obtain rh s2 where h: "withRetry P w (handle msg) s1 = (rh, s2)" by fastforce
    from retry_turns [where handle = handle and msg = msg, OF h [unfolded withRetry_def]] obtain k where
      k: "turns P ctx_done w c handle (Suc k) (Handling msg (w_attempts w) 200 None, s1) = (Committing msg rh, s2)" by blast
    have "turns P ctx_done w c handle (Suc (Suc (Suc k))) (Fetching, s) = turns P ctx_done w c handle 1 (Committing msg rh, s2)"
      using turns_add [of P ctx_done w c handle 1 "Suc k" "(Handling msg (w_attempts w) 200 None, s1)"] k f Inr
      by (simp add: turns_simps(2))
    then show ?thesis using assms f Inr h
      by (intro exI [of _ "Suc (Suc k)"]) (auto simp: consume_one_def turns_simps split: option.splits prod.splits)
  qed
qed

lemma turns_consume:
  "(\<exists>n. turns P ctx_done w c handle n (Fetching, s) = (Ended r, t)) \<longleftrightarrow> consume P ctx_done w c handle s = Some (r, t)"
proof
  assume "consume P ctx_done w c handle s = Some (r, t)"
  then have "consumed P ctx_done w c handle s r t" by (simp add: consume_consumed)
  then show "\<exists>n. turns P ctx_done w c handle n (Fetching, s) = (Ended r, t)"
  proof induction
    case (consumed_end s r t)
    from consume_one_turns [OF this] show ?case by auto
  next
    case (consumed_on s s1 r t)
    from consume_one_turns [OF consumed_on(1)] consumed_on.IH obtain k n where
      "turns P ctx_done w c handle (Suc k) (Fetching, s) = (Fetching, s1)"
      "turns P ctx_done w c handle n (Fetching, s1) = (Ended r, t)" by auto
    then show ?case using turns_add [of P ctx_done w c handle n "Suc k" "(Fetching, s)"] by auto
  qed
next
  assume "\<exists>n. turns P ctx_done w c handle n (Fetching, s) = (Ended r, t)"
  then obtain n where "turns P ctx_done w c handle n (Fetching, s) = (Ended r, t)" ..
  then show "consume P ctx_done w c handle s = Some (r, t)"
  proof (induction n arbitrary: s rule: less_induct)
    case (less n)
    obtain x s1 where one: "consume_one P ctx_done w c handle s = (x, s1)" by fastforce
    from consume_one_turns [OF this] obtain k where
      k: "turns P ctx_done w c handle (Suc k) (Fetching, s) = (case x of Inl e \<Rightarrow> Ended e | Inr _ \<Rightarrow> Fetching, s1)" by blast
    from turns_resume [OF less.prems this] obtain j where
      j: "turns P ctx_done w c handle j (case x of Inl e \<Rightarrow> Ended e | Inr _ \<Rightarrow> Fetching, s1) = (Ended r, t)"
      "(case x of Inl e \<Rightarrow> Ended e | Inr _ \<Rightarrow> Fetching) \<noteq> Ended r \<longrightarrow> j < n" by auto
    show ?case
    proof (cases x)
      case (Inl e)
      then show ?thesis using j one by (simp add: turns_Ended consume.simps)
    next
      case (Inr u)
      then show ?thesis using less.IH [of j s1] j one by (simp add: consume.simps)
    qed
  qed
qed

lemma turns_maintenance_loop:
  "(\<exists>n. turns P ctx_done w c handle n (Ticking, s) = (Ended r, t)) \<longleftrightarrow> maintenance_loop P w s = Some (r, t)"
proof
  assume m: "maintenance_loop P w s = Some (r, t)"
  let ?Q = "\<lambda>((P, w), s) (r, t). \<exists>n. turns P ctx_done w c handle n (Ticking, s) = (Ended r, t)"
  have "?Q ((P, w), s) (r, t)"
  proof (rule maintenance_loop.raw_induct [of ?Q, OF _ m], goal_cases)
    case (1 f P w s y)
    obtain r t where y: "y = (r, t)" by fastforce
    obtain d s1 where wait: "wait_or_done P 10000 s = (d, s1)" by fastforce
    show ?case
    proof (cases d)
      case None
      then have "turns P ctx_done w c handle 3 (Ticking, s) = (Ticking, runMaintenance P w s1)"
        using wait by (simp add: eval_nat_numeral turns_simps runMaintenance_def split: prod.splits)
      moreover obtain n where "turns P ctx_done w c handle n (Ticking, runMaintenance P w s1) = (Ended r, t)"
        using 1(1) [of P w "runMaintenance P w s1" y] 1(2) y wait None by auto
      ultimately show ?thesis using turns_add [of P ctx_done w c handle n 3 "(Ticking, s)"] y by auto
    next
      case (Some e)
      then have "turns P ctx_done w c handle 1 (Ticking, s) = (Ended r, t)"
        using 1(2) y wait Some by (simp add: turns_simps)
      then show ?thesis using y by auto
    qed
  qed
  then show "\<exists>n. turns P ctx_done w c handle n (Ticking, s) = (Ended r, t)" by simp
next
  assume "\<exists>n. turns P ctx_done w c handle n (Ticking, s) = (Ended r, t)"
  then obtain n where "turns P ctx_done w c handle n (Ticking, s) = (Ended r, t)" ..
  then show "maintenance_loop P w s = Some (r, t)"
  proof (induction n arbitrary: s rule: less_induct)
    case (less n)
    obtain x s1 where x: "wait_or_done P 10000 s = (x, s1)" by fastforce
    show ?case
    proof (cases x)
      case None
      then have "turns P ctx_done w c handle 3 (Ticking, s) = (Ticking, runMaintenance P w s1)"
        using x by (simp add: eval_nat_numeral turns_simps runMaintenance_def split: prod.splits)
      from turns_resume [OF less.prems this] obtain j where
        "turns P ctx_done w c handle j (Ticking, runMaintenance P w s1) = (Ended r, t)" "j < n" by auto
      then show ?thesis using less.IH [of j] x None by (simp add: maintenance_loop.simps)
    next
      case (Some e)
      then have "turns P ctx_done w c handle 1 (Ticking, s) = (Ended None, s1)" using x by (simp add: turns_simps)
      from turns_resume [OF less.prems this] show ?thesis
        using x Some by (auto simp: turns_Ended maintenance_loop.simps)
    qed
  qed
qed


section \<open>Where a turn leads\<close>

fun running :: "pc \<Rightarrow> bool" where
  "running (Ended e) = False"
| "running (Sending e) = False"
| "running (Sent e) = False"
| "running _ = True"

lemma turn_running:
  assumes "turn P ctx_done w c handle pc s = (pc', t)" "running pc"
  shows "pc' \<noteq> Sending e" "pc' \<noteq> Sent e"
  using assms by (cases pc; auto split: prod.splits sum.splits option.splits if_splits elim!: turn.elims)+

abbreviation "loop_cursor w i \<equiv> (if i = (0 :: nat) then w_upload w else w_delete w)"
abbreviation "loop_handler P w i \<equiv> (if i = (0 :: nat) then handleUpload P w else handleDelete P w)"

lemma goroutine_running:
  assumes "running (ru_pcs r ! i)"
  shows "goroutine_turn P ctx_done cancel w i r =
    (case turn P ctx_done w (loop_cursor w i) (loop_handler P w i) (ru_pcs r ! i) (ru_state r) of
       (pc, s) \<Rightarrow> Some (r\<lparr>ru_state := s, ru_pcs := (ru_pcs r)[i := pc]\<rparr>))"
  unfolding goroutine_turn_def using assms by (cases "ru_pcs r ! i") simp_all

lemma goroutine_cases:
  assumes "goroutine_turn P ctx_done cancel w i r = Some r'"
  obtains (loop) pc s where
      "turn P ctx_done w (loop_cursor w i) (loop_handler P w i) (ru_pcs r ! i) (ru_state r) = (pc, s)"
      "r' = r\<lparr>ru_state := s, ru_pcs := (ru_pcs r)[i := pc]\<rparr>" "running (ru_pcs r ! i)"
    | (stop) err where "ru_pcs r ! i = Ended err"
      "r' = r\<lparr>ru_state := (if err \<noteq> None then cancel (ru_state r) else ru_state r), ru_pcs := (ru_pcs r)[i := Sending err]\<rparr>"
    | (send) err where "ru_pcs r ! i = Sending err" "length (ru_chan r) < 3"
      "r' = r\<lparr>ru_chan := ru_chan r @ [err], ru_pcs := (ru_pcs r)[i := Sent err]\<rparr>"
proof (cases "running (ru_pcs r ! i)")
  case True
  then show ?thesis using loop assms by (auto simp: goroutine_running split: prod.splits)
next
  case False
  then show ?thesis using stop send assms
    by (cases "ru_pcs r ! i") (auto simp: goroutine_turn_def split: if_splits)
qed

lemma main_cases:
  assumes "main_turn cancel r = Some r'"
  obtains (receive) err chan where "ru_result r = None" "ru_count r < 3" "ru_chan r = err # chan"
      "r' = r\<lparr>ru_chan := chan, ru_count := ru_count r + 1,
          ru_first := (if err \<noteq> None \<and> ru_first r = None then err else ru_first r)\<rparr>"
    | (return) "ru_result r = None" "3 \<le> ru_count r" "r' = r\<lparr>ru_result := Some (ru_first r), ru_state := cancel (ru_state r)\<rparr>"
  using assms by (auto simp: main_turn_def split: if_splits list.splits)

end
