(* ===== verification/Worker_Run_Laws.thy ===== *)
theory Worker_Run_Laws
  imports Worker_Run "HOL-Library.Multiset"
begin

text \<open>
  Laws of \<open>run_trace\<close>: what is in the channel and in the variables of the receiving loop (\<open>accounts\<close>), what
  every turn keeps (locale \<open>run_frame\<close>), and a rank that falls with every turn once the context is done
  (locale \<open>stopping_worker\<close>).
\<close>

section \<open>The channel\<close>

text \<open>What has been sent.\<close>

fun sent_by :: "pc \<Rightarrow> goerr option multiset" where
  "sent_by (Sent e) = {#e#}"
| "sent_by _ = {#}"

definition sent :: "pc list \<Rightarrow> goerr option multiset" where
  "sent pcs = sum_list (map sent_by pcs)"

lemma sent_update: "i < length pcs \<Longrightarrow> sent_by (pcs ! i) = {#} \<Longrightarrow> sent (pcs[i := pc]) = sent_by pc + sent pcs"
  by (induction pcs arbitrary: i) (auto simp: sent_def nth_Cons split: nat.splits)

lemma sent_by_none: "(\<And>e. pc \<noteq> Sent e) \<Longrightarrow> sent_by pc = {#}"
  by (cases pc) auto

lemma running_not_sent: "running pc \<Longrightarrow> sent_by pc = {#}"
  by (cases pc) auto

lemma run_result_snoc:
  "run_result (rs @ [e]) = (if e \<noteq> None \<and> run_result rs = None then e else run_result rs)"
  by (induction rs) (auto simp: run_result_def split: option.splits)

definition accounts :: "'s run \<Rightarrow> bool" where
  "accounts r \<longleftrightarrow> length (ru_pcs r) = 3 \<and>
    (\<exists>rs. mset rs + mset (ru_chan r) = sent (ru_pcs r) \<and> ru_count r = length rs \<and> ru_first r = run_result rs) \<and>
    (ru_result r \<noteq> None \<longrightarrow> ru_count r = 3 \<and> ru_result r = Some (ru_first r))"

lemma sent_size: "size (sent pcs) \<le> length pcs"
proof (induction pcs)
  case (Cons pc pcs)
  then show ?case by (cases pc) (auto simp: sent_def)
qed (simp add: sent_def)

lemma accounts_size:
  assumes "accounts r"
  shows "ru_count r + length (ru_chan r) = size (sent (ru_pcs r)) \<and> size (sent (ru_pcs r)) \<le> 3 \<and> length (ru_pcs r) = 3"
proof -
  obtain rs where "mset rs + mset (ru_chan r) = sent (ru_pcs r)" "ru_count r = length rs" "length (ru_pcs r) = 3"
    using assms by (auto simp: accounts_def)
  then show ?thesis using sent_size [of "ru_pcs r"] by (metis size_mset size_union)
qed

lemma accounts_turn:
  assumes "accounts r" "run_turn P ctx_done cancel w i r = Some r'"
  shows "accounts r'"
proof (cases "i < 3")
  case True
  have l: "i < length (ru_pcs r)" using assms(1) True by (simp add: accounts_def)
  note up = sent_update [OF l]
  from assms(2) True have "goroutine_turn P ctx_done cancel w i r = Some r'" by (simp add: run_turn_def)
  then show ?thesis
  proof (cases rule: goroutine_cases)
    case (loop pc s)
    have "sent_by pc = {#}" using turn_running(2) [OF loop(1,3)] by (rule sent_by_none)
    then show ?thesis using assms(1) up [OF running_not_sent [OF loop(3)]] loop(2) by (simp add: accounts_def)
  next
    case (stop err)
    then show ?thesis using assms(1) up by (simp add: accounts_def)
  next
    case (send err)
    then have "sent (ru_pcs r') = add_mset err (sent (ru_pcs r))" using up by simp
    then show ?thesis using assms(1) send by (fastforce simp: accounts_def)
  qed
next
  case False
  then have "main_turn cancel r = Some r'" using assms(2) by (auto simp: run_turn_def split: if_splits)
  then show ?thesis
  proof (cases rule: main_cases)
    case (receive err chan)
    from assms(1) obtain rs where "mset rs + mset (ru_chan r) = sent (ru_pcs r)" "ru_count r = length rs"
      "ru_first r = run_result rs" "length (ru_pcs r) = 3" by (auto simp: accounts_def)
    then show ?thesis using receive run_result_snoc [of rs err]
      by (auto simp: accounts_def intro!: exI [of _ "rs @ [err]"])
  next
    case return
    from accounts_size [OF assms(1)] have "ru_count r \<le> 3" by simp
    then show ?thesis using assms(1) return by (auto simp: accounts_def)
  qed
qed

lemma accounts_trace: "run_trace P ctx_done cancel w R n r r' \<Longrightarrow> accounts r \<Longrightarrow> accounts r'"
  by (induction rule: run_trace.induct) (blast intro: accounts_turn, blast intro: accounts_turn, simp add: accounts_def)

lemma accounts_start: "accounts (start_run s)"
  by (simp add: accounts_def start_run_def run_result_def sent_def)

lemma sent_all: "size (sent pcs) = length pcs \<Longrightarrow> \<exists>es. pcs = map Sent es \<and> sent pcs = mset es"
proof (induction pcs)
  case (Cons pc pcs)
  show ?case
  proof (cases "\<exists>e. pc = Sent e")
    case True
    then obtain e where e: "pc = Sent e" by blast
    then obtain es where "pcs = map Sent es" "sent pcs = mset es" using Cons by (auto simp: sent_def)
    then show ?thesis using e by (intro exI [of _ "e # es"]) (simp add: sent_def)
  next
    case False
    then have "sent_by pc = {#}" by (intro sent_by_none) blast
    then show ?thesis using Cons.prems sent_size [of pcs] by (simp add: sent_def)
  qed
qed (simp add: sent_def)

section \<open>What everything keeps, \<open>Run\<close> keeps\<close>

locale run_frame =
  fixes P :: "('s, 'i) packages" and cancel :: "'s \<Rightarrow> 's" and w :: "'s Worker" and R :: "'s \<Rightarrow> 's \<Rightarrow> bool"
    and I :: "'s \<Rightarrow> bool"
  assumes fetch_keeps: "preserves I (cur_Fetch (loop_cursor w i))"
    and commit_keeps: "preserves I (cur_Commit (loop_cursor w i) m)"
    and handle_keeps: "preserves I (loop_handler P w i m)"
    and flush_keeps: "preserves I (FlushOutbox P (w_svc w))"
    and recover_keeps: "preserves I (RecoverStuck P (w_svc w))"
    and wait_keeps: "preserves I (wait_or_done P k)"
    and observe_keeps: "I s \<Longrightarrow> I (observe P x s)"
    and cancel_keeps: "I s \<Longrightarrow> I (cancel s)"
    and others_keep: "I s \<Longrightarrow> R s t \<Longrightarrow> I t"
begin

lemma turn_keeps:
  assumes "turn P ctx_done w (loop_cursor w i) (loop_handler P w i) pc s = (pc', t)" "I s"
  shows "I t"
proof (cases pc)
  case Fetching
  then show ?thesis using assms preservesD [OF fetch_keeps [of i] assms(2)] by (auto split: prod.splits sum.splits)
next
  case (Handling msg n b e)
  show ?thesis
  proof (cases n)
    case (Suc m)
    then show ?thesis using Handling assms preservesD [OF handle_keeps [of i msg] assms(2)]
      by (auto split: prod.splits option.splits)
  qed (use Handling assms in simp)
next
  case (Backing_off msg n b e)
  then show ?thesis using assms preservesD [OF wait_keeps [of b] assms(2)] by (auto split: prod.splits option.splits)
next
  case (Committing msg e)
  then show ?thesis using assms preservesD [OF commit_keeps [of i msg] observe_keeps [OF assms(2)]]
    by (auto split: prod.splits option.splits)
next
  case Flushing
  then show ?thesis using assms preservesD [OF flush_keeps assms(2)] by (auto split: prod.splits)
next
  case Recovering
  then show ?thesis using assms preservesD [OF recover_keeps assms(2)] by (auto split: prod.splits)
next
  case Ticking
  then show ?thesis using assms preservesD [OF wait_keeps [of 10000] assms(2)] by (auto split: prod.splits option.splits)
qed (use assms in simp_all)

lemma run_turn_keeps:
  assumes "run_turn P ctx_done cancel w i r = Some r'" "I (ru_state r)"
  shows "I (ru_state r')"
proof (cases "i < 3")
  case True
  with assms(1) have "goroutine_turn P ctx_done cancel w i r = Some r'" by (simp add: run_turn_def)
  then show ?thesis
    by (cases rule: goroutine_cases) (use assms(2) turn_keeps cancel_keeps in auto)
next
  case False
  with assms(1) have "main_turn cancel r = Some r'" by (auto simp: run_turn_def split: if_splits)
  then show ?thesis by (cases rule: main_cases) (use assms(2) cancel_keeps in auto)
qed

lemma run_trace_keeps: "run_trace P ctx_done cancel w R n r r' \<Longrightarrow> I (ru_state r) \<Longrightarrow> I (ru_state r')"
  by (induction rule: run_trace.induct) (auto dest: run_turn_keeps others_keep)

end

section \<open>\<open>Run\<close> stops\<close>

text \<open>
  What \<open>Run\<close> needs of its context: \<open>cancel\<close> makes it done, nothing takes that back, and once it is done
  only \<open>left\<close> more messages and ticks can still win against it (Go's \<open>select\<close> may take any branch that is ready).
\<close>

locale stopping_worker =
  fixes P :: "('s, 'i) packages" and ctx_done :: "'s \<Rightarrow> bool" and cancel :: "'s \<Rightarrow> 's" and w :: "'s Worker"
    and R :: "'s \<Rightarrow> 's \<Rightarrow> bool" and left :: "'s \<Rightarrow> nat"
  assumes done_stays: "run_frame P cancel w R (\<lambda>s. ctx_done s \<and> left s \<le> n)"
    and cancel_done: "ctx_done (cancel s)"
    and fetch_uses: "ctx_done s \<Longrightarrow> cur_Fetch (loop_cursor w i) s = (Inr m, t) \<Longrightarrow> left t < left s"
    and wait_uses: "ctx_done s \<Longrightarrow> wait_or_done P k s = (None, t) \<Longrightarrow> left t < left s"

sublocale stopping_worker \<subseteq> run_frame P cancel w R "\<lambda>s. ctx_done s \<and> left s \<le> n" for n
  by (rule done_stays)

text \<open>A goroutine whose context is done has so many turns left, apart from those that use up \<open>left\<close>.\<close>

fun weight :: "pc \<Rightarrow> nat" where
  "weight (Sent _) = 0"
| "weight (Sending _) = 2"
| "weight (Ended _) = 3"
| "weight (Checking _) = 4"
| "weight Fetching = 5"
| "weight (Committing _ _) = 6"
| "weight (Backing_off _ _ _ _) = 7"
| "weight (Handling _ _ _ _) = 8"
| "weight Ticking = 4"
| "weight Recovering = 5"
| "weight Flushing = 6"

definition rank :: "('s \<Rightarrow> nat) \<Rightarrow> 's run \<Rightarrow> nat" where
  "rank left r = 4 * left (ru_state r) + sum_list (map weight (ru_pcs r)) + length (ru_chan r)
     + (if ru_result r = None then 1 else 0)"

lemma sum_weight_update:
  "i < length pcs \<Longrightarrow> sum_list (map weight (pcs[i := pc])) + weight (pcs ! i) = sum_list (map weight pcs) + weight pc"
  by (induction pcs arbitrary: i) (auto simp: nth_Cons split: nat.splits)

lemma rank_bound:
  assumes "accounts r"
  shows "rank left r \<le> 4 * left (ru_state r) + 25"
proof -
  have each: "weight pc + size (sent_by pc) \<le> 8" for pc by (cases pc) simp_all
  have "sum_list (map weight pcs) + size (sent pcs) \<le> 8 * length pcs" for pcs
  proof (induction pcs)
    case (Cons pc pcs)
    then show ?case using each [of pc] by (simp add: sent_def)
  qed (simp add: sent_def)
  from this [of "ru_pcs r"] show ?thesis using accounts_size [OF assms] by (simp add: rank_def)
qed

lemma never_stuck:
  assumes "accounts r" "ru_result r = None"
  shows "\<exists>i r'. run_turn P ctx_done cancel w i r = Some r'"
proof (cases "\<exists>i < 3. \<forall>e. ru_pcs r ! i \<noteq> Sent e")
  case True
  then obtain i where i: "i < 3" "\<And>e. ru_pcs r ! i \<noteq> Sent e" by blast
  have "size (sent (ru_pcs r)) \<noteq> 3"
  proof
    assume "size (sent (ru_pcs r)) = 3"
    then obtain es where "ru_pcs r = map Sent es" "length es = 3"
      using sent_all [of "ru_pcs r"] accounts_size [OF assms(1)] by auto
    then show False using i(1) i(2) [of "es ! i"] by simp
  qed
  then have "length (ru_chan r) < 3" using accounts_size [OF assms(1)] by simp
  then have "\<exists>r'. goroutine_turn P ctx_done cancel w i r = Some r'"
    using i by (cases "ru_pcs r ! i") (auto simp: goroutine_turn_def split: prod.splits)
  then show ?thesis using i(1) by (intro exI [of _ i]) (simp add: run_turn_def)
next
  case False
  then have "size (sent (ru_pcs r)) = 3" using assms(1)
    by (auto simp: accounts_def eval_nat_numeral length_Suc_conv All_less_Suc sent_def)
  then have "ru_count r < 3 \<Longrightarrow> ru_chan r \<noteq> []" using accounts_size [OF assms(1)] by auto
  then have "\<exists>r'. main_turn cancel r = Some r'" using assms(2) by (cases "ru_chan r") (auto simp: main_turn_def)
  then show ?thesis by (auto simp: run_turn_def intro!: exI [of _ 3])
qed

text \<open>A loop that ended with an error: its result is on the way.\<close>

fun failed :: "pc \<Rightarrow> bool" where
  "failed (Sending e) = (e \<noteq> None)"
| "failed (Sent e) = (e \<noteq> None)"
| "failed _ = False"

context stopping_worker
begin

lemma turn_rank:
  assumes "turn P ctx_done w (loop_cursor w i) (loop_handler P w i) pc s = (pc', t)" "running pc" "ctx_done s"
  shows "4 * left t + weight pc' < 4 * left s + weight pc"
proof -
  have t: "left t \<le> left s" using turn_keeps [OF assms(1), of "left s"] assms(3) by simp
  have "left t < left s" if "pc = Fetching" "pc' = Handling m n b e" for m n b e
    using assms that fetch_uses [of s i] by (auto split: prod.splits sum.splits)
  moreover have "left t < left s" if "pc = Ticking" "pc' = Flushing"
    using assms that wait_uses [of s] by (auto split: prod.splits option.splits)
  moreover have "left t < left s" if "pc = Backing_off m n b e" "pc' = Handling m' n' b' e'" for m n b e m' n' b' e'
    using assms that wait_uses [of s] by (auto split: prod.splits option.splits)
  ultimately show ?thesis using t assms(1,2)
    by (cases pc) (auto split: prod.splits sum.splits option.splits if_splits elim!: turn.elims)
qed

lemma run_turn_rank:
  assumes "run_turn P ctx_done cancel w i r = Some r'" "ctx_done (ru_state r)" "length (ru_pcs r) = 3"
  shows "rank left r' < rank left r"
proof -
  have c: "left (cancel (ru_state r)) \<le> left (ru_state r)" using cancel_keeps [of _ "left (ru_state r)"] assms(2) by simp
  show ?thesis
  proof (cases "i < 3")
    case True
    note up = sum_weight_update [of i "ru_pcs r"]
    from True assms(1) have "goroutine_turn P ctx_done cancel w i r = Some r'" by (simp add: run_turn_def)
    then show ?thesis
    proof (cases rule: goroutine_cases)
      case (loop pc s)
      then show ?thesis using up [of pc] turn_rank [OF loop(1,3) assms(2)] True assms(3) by (simp add: rank_def)
    next
      case (stop err)
      then show ?thesis using up [of "Sending err"] True assms(3) c by (cases err) (simp_all add: rank_def)
    next
      case (send err)
      then show ?thesis using up [of "Sent err"] True assms(3) by (simp add: rank_def)
    qed
  next
    case False
    with assms(1) have "main_turn cancel r = Some r'" by (auto simp: run_turn_def split: if_splits)
    then show ?thesis by (cases rule: main_cases) (use c in \<open>auto simp: rank_def\<close>)
  qed
qed

lemma run_trace_rank:
  assumes "run_trace P ctx_done cancel w R n r r'" "ctx_done (ru_state r)" "accounts r"
  shows "n + rank left r' \<le> rank left r"
  using assms
proof (induction rule: run_trace.induct)
  case (trace_own n r r1 i r2)
  have "ctx_done (ru_state r1)" using run_trace_keeps [OF trace_own(1)] trace_own.prems by blast
  moreover have "length (ru_pcs r1) = 3" using accounts_trace [OF trace_own(1)] trace_own.prems by (simp add: accounts_def)
  ultimately have "rank left r2 < rank left r1" by (rule run_turn_rank [OF trace_own(2)])
  then show ?case using trace_own by simp
next
  case (trace_other n r r1 s)
  have "ctx_done (ru_state r1)" using run_trace_keeps [OF trace_other(1)] trace_other.prems by blast
  then have "left s \<le> left (ru_state r1)" using others_keep [of "ru_state r1" "left (ru_state r1)" s] trace_other(2) by simp
  then show ?case using trace_other by (simp add: rank_def)
qed simp

text \<open>An error that is on its way has cancelled the context.\<close>

lemma failed_is_done:
  assumes "run_trace P ctx_done cancel w R n r r'" "accounts r" "\<exists>pc \<in> set (ru_pcs r). failed pc \<Longrightarrow> ctx_done (ru_state r)"
  shows "\<exists>pc \<in> set (ru_pcs r'). failed pc \<Longrightarrow> ctx_done (ru_state r')"
  using assms
proof (induction rule: run_trace.induct)
  case (trace_own n r r1 i r2)
  have stays: "ctx_done (ru_state r1) \<Longrightarrow> ctx_done (ru_state r2)" using run_turn_keeps [OF trace_own(2)] by blast
  have l: "length (ru_pcs r1) = 3" using accounts_trace [OF trace_own(1)] trace_own.prems by (simp add: accounts_def)
  obtain pc where pc: "pc \<in> set (ru_pcs r2)" "failed pc" using trace_own.prems(1) by blast
  have old: ?case if "failed pc1" "pc1 \<in> set (ru_pcs r1)" for pc1 using that trace_own stays by blast
  have new: "pc = x \<or> pc \<in> set (ru_pcs r1)" if "ru_pcs r2 = (ru_pcs r1)[i := x]" for x
    using pc(1) set_update_subset_insert [of "ru_pcs r1" i x] that by auto
  show ?case
  proof (cases "i < 3")
    case True
    with trace_own(2) have "goroutine_turn P ctx_done cancel w i r1 = Some r2" by (simp add: run_turn_def)
    then show ?thesis
    proof (cases rule: goroutine_cases)
      case (loop x s)
      then show ?thesis using new [of x] old pc(2) turn_running [OF loop(1,3)] by (cases x) auto
    next
      case (stop err)
      then show ?thesis using new [of "Sending err"] old pc(2) cancel_done by (cases err) auto
    next
      case (send err)
      have "Sending err \<in> set (ru_pcs r1)" using send(1) True l nth_mem by metis
      then have "failed (Sent err) \<Longrightarrow> ?thesis" by (intro old [of "Sending err"]) simp_all
      moreover have "pc = Sent err \<or> pc \<in> set (ru_pcs r1)" by (rule new) (simp add: send(3))
      ultimately show ?thesis using old [OF pc(2)] pc(2) by blast
    qed
  next
    case False
    with trace_own(2) have "main_turn cancel r1 = Some r2" by (auto simp: run_turn_def split: if_splits)
    then show ?thesis by (cases rule: main_cases) (use old pc in auto)
  qed
next
  case (trace_other n r r1 s)
  have "ctx_done (ru_state r1) \<Longrightarrow> ctx_done s"
    using others_keep [of "ru_state r1" "left (ru_state r1)" s] trace_other(2) by simp
  then show ?case using trace_other by simp
qed

end

end
