(* ===== verification/Worker_Run_Properties.thy ===== *)
theory Worker_Run_Properties
  imports Worker_Properties Worker_Run_Laws Service_Frame
begin

text \<open>
  \<open>Worker.Run\<close> as a whole: its goroutines do what \<open>consume\<close> and \<open>maintenance\<close> do, it returns only when all
  of them have ended and with the error that came first, every interleaving keeps the promise of the
  outbox, and it stops soon after its context is done.
\<close>

section \<open>The goroutines\<close>

text \<open>
  The goroutines of \<open>Run\<close>, moved turn by turn, end exactly where the loops \<open>consume\<close> and
  \<open>maintenance\<close> return, with the same error and in the same state.
\<close>

lemma goroutines_are_loops:
  "((\<exists>n. turns P ctx_done w c handle n (Fetching, s) = (Ended r, t)) \<longleftrightarrow> consume P ctx_done w c handle s = Some (r, t))
 \<and> ((\<exists>n. turns P ctx_done w c handle n (Flushing, s) = (Ended r, t)) \<longleftrightarrow> maintenance P w s = Some (r, t))"
proof
  let ?s = "runMaintenance P w s"
  have 2: "turns P ctx_done w c handle 2 (Flushing, s) = (Ticking, ?s)"
    by (simp add: eval_nat_numeral turns_simps runMaintenance_def split: prod.splits)
  have "(\<exists>n. turns P ctx_done w c handle n (Flushing, s) = (Ended r, t))
    \<longleftrightarrow> (\<exists>n. turns P ctx_done w c handle n (Ticking, ?s) = (Ended r, t))"
    using turns_resume [OF _ 2] turns_add [of P ctx_done w c handle _ 2 "(Flushing, s)"] 2 by metis
  then show "(\<exists>n. turns P ctx_done w c handle n (Flushing, s) = (Ended r, t)) \<longleftrightarrow> maintenance P w s = Some (r, t)"
    by (simp add: turns_maintenance_loop maintenance_def)
qed (rule turns_consume)

section \<open>The result\<close>

text \<open>
  On the way from \<open>r0\<close> to \<open>r\<close> a goroutine sent \<open>err\<close> into the channel, and none of the goroutines that had
  sent their result before had sent an error.
\<close>

definition sent_first ::
    "('s, 'i) packages \<Rightarrow> ('s \<Rightarrow> bool) \<Rightarrow> ('s \<Rightarrow> 's) \<Rightarrow> 's Worker \<Rightarrow> ('s \<Rightarrow> 's \<Rightarrow> bool) \<Rightarrow> 's run \<Rightarrow> 's run \<Rightarrow> goerr \<Rightarrow> bool" where
  "sent_first P ctx_done cancel w R r0 r err \<longleftrightarrow>
    (\<exists>m k i r1 r2. run_trace P ctx_done cancel w R m r0 r1 \<and> run_trace P ctx_done cancel w R k r2 r \<and> i < 3
      \<and> run_turn P ctx_done cancel w i r1 = Some r2 \<and> ru_pcs r1 ! i = Sending (Some err) \<and> ru_pcs r2 ! i = Sent (Some err)
      \<and> (\<forall>j < 3. \<forall>e. ru_pcs r1 ! j = Sent e \<longrightarrow> e = None))"

lemma sent_first_later:
  "sent_first P ctx_done cancel w R r0 r err \<Longrightarrow> run_trace P ctx_done cancel w R k r r' \<Longrightarrow> sent_first P ctx_done cancel w R r0 r' err"
  unfolding sent_first_def using run_trace_trans by meson

lemma run_result_Some: "run_result rs = Some err \<Longrightarrow> Some err \<in> set rs"
  by (auto simp: run_result_def find_Some_iff in_set_conv_nth split: option.splits)

lemma run_result_None: "run_result rs = None \<Longrightarrow> e \<in> set rs \<Longrightarrow> e = None"
  by (auto simp: run_result_def find_None_iff find_Some_iff split: option.splits)

text \<open>The error that is to be returned, as far as it is known: received already, or in the channel.\<close>

definition pending :: "'s run \<Rightarrow> goerr option" where
  "pending r = run_result (ru_first r # ru_chan r)"

definition first_wins ::
    "('s, 'i) packages \<Rightarrow> ('s \<Rightarrow> bool) \<Rightarrow> ('s \<Rightarrow> 's) \<Rightarrow> 's Worker \<Rightarrow> ('s \<Rightarrow> 's \<Rightarrow> bool) \<Rightarrow> 's run \<Rightarrow> 's run \<Rightarrow> bool" where
  "first_wins P ctx_done cancel w R r0 r \<longleftrightarrow>
    (case pending r of
       None \<Rightarrow> \<forall>j < 3. \<forall>e. ru_pcs r ! j = Sent e \<longrightarrow> e = None
     | Some err \<Rightarrow> sent_first P ctx_done cancel w R r0 r err)"

lemma first_wins_kept:
  assumes "first_wins P ctx_done cancel w R r0 r" "run_trace P ctx_done cancel w R k r r'" "pending r' = pending r"
    and "\<And>j. j < 3 \<Longrightarrow> ru_pcs r' ! j = ru_pcs r ! j \<or> (\<forall>e. ru_pcs r' ! j \<noteq> Sent (Some e))"
  shows "first_wins P ctx_done cancel w R r0 r'"
proof (cases "pending r")
  case None
  then have "e = None" if "j < 3" "ru_pcs r' ! j = Sent e" for j e
    using assms(1,4) that by (cases e) (fastforce simp: first_wins_def)+
  then show ?thesis using None assms(3) by (simp add: first_wins_def)
next
  case (Some err)
  then show ?thesis using assms(1-3) sent_first_later by (simp add: first_wins_def) blast
qed

lemma first_wins_turn:
  assumes "first_wins P ctx_done cancel w R r0 r" "run_trace P ctx_done cancel w R n r0 r"
    and "run_turn P ctx_done cancel w i r = Some r'" "length (ru_pcs r) = 3"
  shows "first_wins P ctx_done cancel w R r0 r'"
proof -
  have one: "run_trace P ctx_done cancel w R (Suc 0) r r'" by (rule trace_own [OF trace_start assms(3)])
  note kept = first_wins_kept [OF assms(1) one]
  show ?thesis
  proof (cases "i < 3")
    case True
    with assms(3) have "goroutine_turn P ctx_done cancel w i r = Some r'" by (simp add: run_turn_def)
    then show ?thesis
    proof (cases rule: goroutine_cases)
      case (loop pc s)
      have "pc \<noteq> Sent e" for e using turn_running(2) [OF loop(1,3)] .
      then show ?thesis using loop True assms(4) by (intro kept) (auto simp: pending_def nth_list_update)
    next
      case (stop err)
      then show ?thesis using True assms(4) by (intro kept) (auto simp: pending_def nth_list_update)
    next
      case (send err)
      then have p: "pending r' = (if err \<noteq> None \<and> pending r = None then err else pending r)"
        using run_result_snoc [of "ru_first r # ru_chan r" err] by (simp add: pending_def)
      show ?thesis
      proof (cases "err \<noteq> None \<and> pending r = None")
        case new: True
        then obtain e where e: "err = Some e" by blast
        have "sent_first P ctx_done cancel w R r0 r' e"
          unfolding sent_first_def
        proof (intro exI conjI)
          show "run_trace P ctx_done cancel w R n r0 r" "run_turn P ctx_done cancel w i r = Some r'" "i < 3" by fact+
          show "run_trace P ctx_done cancel w R 0 r' r'" by (rule trace_start)
          show "ru_pcs r ! i = Sending (Some e)" "ru_pcs r' ! i = Sent (Some e)" using send e True assms(4) by simp_all
          show "\<forall>j < 3. \<forall>e. ru_pcs r ! j = Sent e \<longrightarrow> e = None" using assms(1) new by (simp add: first_wins_def)
        qed
        then show ?thesis using p new e by (simp add: first_wins_def)
      next
        case old: False
        show ?thesis
        proof (cases "pending r")
          case None
          then show ?thesis using old send True assms(4) p by (intro kept) (auto simp: nth_list_update)
        next
          case (Some e)
          then show ?thesis using assms(1) p sent_first_later [OF _ one] by (simp add: first_wins_def)
        qed
      qed
    qed
  next
    case False
    with assms(3) have "main_turn cancel r = Some r'" by (auto simp: run_turn_def split: if_splits)
    then show ?thesis
    proof (cases rule: main_cases)
      case (receive err chan)
      then show ?thesis by (intro kept) (auto simp: pending_def run_result_def)
    next
      case return
      then show ?thesis by (intro kept) (simp_all add: pending_def)
    qed
  qed
qed

lemma run_first_wins:
  assumes "run_trace P ctx_done cancel w R n r0 r" "r0 = start_run s"
  shows "first_wins P ctx_done cancel w R r0 r"
  using assms
proof (induction rule: run_trace.induct)
  case (trace_start r)
  then show ?case by (auto simp: first_wins_def pending_def start_run_def run_result_def less_Suc_eq eval_nat_numeral)
next
  case (trace_own n r r1 i r2)
  have "length (ru_pcs r1) = 3"
    using accounts_trace [OF trace_own(1)] trace_own.prems accounts_start [of s] by (simp add: accounts_def)
  then show ?case using first_wins_turn trace_own by blast
next
  case (trace_other n r r1 s')
  have one: "run_trace P ctx_done cancel w R 0 r1 (r1\<lparr>ru_state := s'\<rparr>)"
    by (rule run_trace.trace_other, rule run_trace.trace_start, rule trace_other(2))
  have "first_wins P ctx_done cancel w R r r1" by (rule trace_other.IH [OF trace_other.prems])
  then show ?case by (rule first_wins_kept [OF _ one]) (simp_all add: pending_def)
qed

text \<open>
  C25. \<open>Run\<close> returns only after all three loops have ended and sent their results.  It returns \<open>nil\<close> exactly
  when all of them ended with \<open>nil\<close>; otherwise it returns the error that was the first to be sent: when it
  went into the channel, no other goroutine had sent an error.
\<close>

theorem Run_returns_first_error:
  assumes "run_trace P ctx_done cancel w R n (start_run s) r" "ru_result r = Some res"
  shows "\<exists>up del maint. ru_pcs r = [Sent up, Sent del, Sent maint]
      \<and> (case res of
           None \<Rightarrow> up = None \<and> del = None \<and> maint = None
         | Some err \<Rightarrow> Some err \<in> {up, del, maint} \<and> sent_first P ctx_done cancel w R (start_run s) r err)"
proof -
  have acc: "accounts r" using accounts_trace [OF assms(1) accounts_start] .
  then obtain rs where rs: "mset rs + mset (ru_chan r) = sent (ru_pcs r)" "length rs = 3" "length (ru_pcs r) = 3"
    "res = run_result rs" "res = ru_first r" using assms(2) by (auto simp: accounts_def)
  have "size (sent (ru_pcs r)) = length (ru_pcs r)"
    using sent_size [of "ru_pcs r"] rs(2,3) arg_cong [OF rs(1), of size] by simp
  from sent_all [OF this] obtain es where es: "ru_pcs r = map Sent es" "sent (ru_pcs r) = mset es" by blast
  then obtain up del maint where three: "es = [up, del, maint]"
    using rs(3) by (auto simp: eval_nat_numeral length_Suc_conv)
  have empty: "ru_chan r = []" using arg_cong [OF rs(1), of size] rs(2) es three by simp
  then have m: "mset rs = {#up, del, maint#}" using rs(1) es three by simp
  have first: "first_wins P ctx_done cancel w R (start_run s) r" by (rule run_first_wins [OF assms(1) refl])
  have p: "pending r = res" using rs(5) empty by (simp add: pending_def run_result_def split: option.splits)
  show ?thesis
  proof (intro exI conjI)
    show "ru_pcs r = [Sent up, Sent del, Sent maint]" using es(1) three by simp
    have "Some err \<in> {up, del, maint}" if "res = Some err" for err
      using run_result_Some that arg_cong [OF m, of set_mset] unfolding rs(4) by fastforce
    moreover have "up = None \<and> del = None \<and> maint = None" if "res = None"
      using run_result_None that arg_cong [OF m, of set_mset] unfolding rs(4) by fastforce
    ultimately show "case res of
           None \<Rightarrow> up = None \<and> del = None \<and> maint = None
         | Some err \<Rightarrow> Some err \<in> {up, del, maint} \<and> sent_first P ctx_done cancel w R (start_run s) r err"
      using first p by (auto simp: first_wins_def split: option.splits)
  qed
qed

text \<open>Both consumers fail, the one for deletions first; the context then ends the maintenance.\<close>

definition lost_cursor :: "'s cursor" where
  "lost_cursor = \<lparr>cur_Fetch = (\<lambda>s. (Inl (ErrExternal ''lost''), s)), cur_Commit = (\<lambda>m s. (None, s))\<rparr>"

definition ending_packages :: "(int option list, string) packages" where
  "ending_packages = trace_packages\<lparr>wait_or_done := \<lambda>k s. (Some (ErrExternal ''canceled''), s)\<rparr>"

abbreviation failing_turns :: "nat list \<Rightarrow> int option list run \<Rightarrow> int option list run option" where
  "failing_turns \<equiv> run_schedule ending_packages (\<lambda>s. False) (\<lambda>s. s) (NewWorker down_service closed_cursor lost_cursor)"

theorem Run_returns_first_error_witness:
  "\<exists>r. failing_turns [0, 1, 1, 1, 1, 0, 2, 2, 2, 0, 0, 3, 2, 2, 3, 3, 3] (start_run []) = Some r
    \<and> ru_result r = Some (Some (ErrExternal ''lost''))
    \<and> sent_first ending_packages (\<lambda>s. False) (\<lambda>s. s) (NewWorker down_service closed_cursor lost_cursor) (\<lambda>s t. False)
        (start_run []) r (ErrExternal ''lost'')"
proof -
  obtain r where r: "failing_turns [0, 1, 1, 1, 1, 0, 2, 2, 2, 0, 0, 3, 2, 2, 3, 3, 3] (start_run []) = Some r"
    "ru_result r = Some (Some (ErrExternal ''lost''))"
    by (simp add: run_turn_def goroutine_turn_def main_turn_def start_run_def eval_nat_numeral NewWorker_def closed_cursor_def
        lost_cursor_def ending_packages_def trace_packages_def down_service_def NewAvatarService_def FlushOutbox_def RecoverStuck_def)
  show ?thesis using Run_returns_first_error [OF run_schedule_trace [OF r(1)] r(2)] r by auto
qed

section \<open>Nothing is committed unhandled\<close>









section \<open>In the program\<close>

text \<open>
  The context of the process is outside; \<open>run_world\<close> below adds to \<open>outside_world\<close> what the documentation of
  \<open>context\<close> says, and that a context which is done ends a \<open>Fetch\<close> or a pause except for at most \<open>left\<close> times.
\<close>

definition sys_cancel :: "('e \<Rightarrow> 'e) \<Rightarrow> 'e sys \<Rightarrow> 'e sys" where
  "sys_cancel stop s = s\<lparr>outside := stop (outside s)\<rparr>"

lemma sys_cancel_sel [simp]:
  "tables (sys_cancel stop s) = tables s" "outside (sys_cancel stop s) = stop (outside s)"
  by (simp_all add: sys_cancel_def)

lemma app_worker_sel:
  "w_svc (app_worker W cfg) = app_service W cfg"
  "w_upload (app_worker W cfg) = kafka_cursor (w_kafka W) (TopicUpload cfg)"
  "w_delete (app_worker W cfg) = kafka_cursor (w_kafka W) (TopicDelete cfg)"
  by (simp_all add: app_worker_def NewWorker_def)

text \<open>The promise of the outbox is kept by every part of \<open>Run\<close>.\<close>

context outside_world
begin

lemma run_frame_inv:
  assumes "\<And>e. objects (stop e) = objects e \<and> logs (stop e) = logs e"
  shows "run_frame (app_packages W) (sys_cancel stop) (app_worker W cfg)
    (svc_step (app_packages W) (app_service W cfg)) app.inv"
proof
  show "app.inv (sys_cancel stop s)" if "app.inv s" for s
    using that assms by (simp add: app.inv_def)
  show "preserves app.inv (wait_or_done (app_packages W) k)" for k
    using inv_lift [OF w_wait] by (simp add: app_packages_def)
  show "preserves app.inv (FlushOutbox (app_packages W) (w_svc (app_worker W cfg)))"
    "preserves app.inv (RecoverStuck (app_packages W) (w_svc (app_worker W cfg)))"
    using app.inv_step [OF svc_FlushOutbox] app.inv_step [OF svc_RecoverStuck]
    by (auto intro!: preservesI simp: app_worker_sel simp del: app_service_sel)
  show "app.inv t" if "app.inv s" "svc_step (app_packages W) (app_service W cfg) s t" for s t
    using app.inv_step that by blast
qed (simp_all add: app_worker_sel kafka_cursor_def inv_lift kf.fetch_law kf.commit_law inv_handlers)

end

text \<open>
  C21. \<open>Run\<close> keeps the promise of the outbox: from any state that service calls reach from the empty
  database, in every interleaving of the two consumers and the maintenance loop with each other and with
  the calls of other processes, after whatever messages, failures and cancellations, the tables are well-formed, every
  live avatar has its upload event, every avatar that is gone its delete event, and every event is
  readable and is waiting in the outbox or has reached its topic.
\<close>

theorem Run_keeps_promise:
  assumes "outside_world W cfg objects logs" "tables s0 = empty_db"
    and "(svc_step (app_packages W) (app_service W cfg))\<^sup>*\<^sup>* s0 s"
    and "\<And>e. objects (stop e) = objects e \<and> logs (stop e) = logs e"
    and "run_trace (app_packages W) ctx_done (sys_cancel stop) (app_worker W cfg)
      (svc_step (app_packages W) (app_service W cfg)) n (start_run s) r"
  shows "wf_db (tables (ru_state r))
    \<and> recorded (w_uuid_String W) (db_used (tables (ru_state r))) (db_live (tables (ru_state r)))
        (db_events (tables (ru_state r))) (db_unpub (tables (ru_state r)))
        (upload_topic logs cfg (ru_state r)) (delete_topic logs cfg (ru_state r))"
proof -
  note b = outside_world.backend [OF assms(1)]
  have "avatar_backend.inv (\<lambda>s. wf_db (tables s)) (\<lambda>s. db_used (tables s)) (\<lambda>s. db_live (tables s))
      (\<lambda>s. db_events (tables s)) (\<lambda>s. db_unpub (tables s)) (upload_topic logs cfg) (delete_topic logs cfg) (app_packages W) s"
    by (rule avatar_backend.inv_reachable [OF b assms(3) outside_world.empty_inv [OF assms(1,2)]])
  then have "avatar_backend.inv (\<lambda>s. wf_db (tables s)) (\<lambda>s. db_used (tables s)) (\<lambda>s. db_live (tables s))
      (\<lambda>s. db_events (tables s)) (\<lambda>s. db_unpub (tables s)) (upload_topic logs cfg) (delete_topic logs cfg) (app_packages W) (ru_state r)"
    using run_frame.run_trace_keeps [OF outside_world.run_frame_inv [OF assms(1,4)] assms(5)] by (simp add: start_run_def)
  then show ?thesis unfolding avatar_backend.inv_def [OF b] by (simp add: app_packages_def)
qed

section \<open>The program stops\<close>

locale run_world = outside_world W cfg objects logs
  for W :: "('e, 'i) world" and cfg :: Config
    and objects :: "'e \<Rightarrow> string \<Rightarrow> string \<Rightarrow> (string \<times> string) option"
    and logs :: "'e \<Rightarrow> string \<Rightarrow> message list" +
  fixes is_done :: "'e \<Rightarrow> bool" and stop :: "'e \<Rightarrow> 'e" and left :: "'e \<Rightarrow> nat"
  assumes stays: "outside_frame W (\<lambda>e. is_done e \<and> left e \<le> n)"
    and stop_done: "is_done (stop e)"
    and stop_left: "is_done e \<Longrightarrow> left (stop e) \<le> left e"
    and fetch_left: "is_done e \<Longrightarrow> kafka_FetchMessage (w_kafka W) topic e = (Inr m, e') \<Longrightarrow> left e' < left e"
    and wait_left: "is_done e \<Longrightarrow> w_wait W k e = (None, e') \<Longrightarrow> left e' < left e"

sublocale run_world \<subseteq> of: outside_frame W "\<lambda>e. is_done e \<and> left e \<le> n" for n
  by (rule stays)

sublocale run_world \<subseteq> run: stopping_worker "app_packages W" "\<lambda>s. is_done (outside s)" "sys_cancel stop"
    "app_worker W cfg" "svc_step (app_packages W) (app_service W cfg)" "\<lambda>s. left (outside s)"
proof (rule stopping_worker.intro)
  show "run_frame (app_packages W) (sys_cancel stop) (app_worker W cfg) (svc_step (app_packages W) (app_service W cfg))
      (\<lambda>s. is_done (outside s) \<and> left (outside s) \<le> n)" for n
  proof
    show "is_done (outside t) \<and> left (outside t) \<le> n"
      if "is_done (outside s) \<and> left (outside s) \<le> n" "svc_step (app_packages W) (app_service W cfg) s t" for s t
      using of.svc_step_keeps that by blast
  qed (auto simp: app_worker_sel kafka_cursor_def of.service_keeps of.packages_keep of.lift_keeps of.J_kafka
      of.handlers_keep of.observe_keeps stop_done intro: le_trans [OF stop_left] simp del: app_service_sel)
  show "left (outside t) < left (outside s)"
    if "is_done (outside s)" "cur_Fetch (loop_cursor (app_worker W cfg) i) s = (Inr m, t)" for s i m t
  proof -
    obtain topic where "cur_Fetch (loop_cursor (app_worker W cfg) i) = lift (kafka_FetchMessage (w_kafka W) topic)"
      by (cases "i = 0") (simp_all add: app_worker_sel kafka_cursor_def)
    then show ?thesis using that fetch_left by (auto elim!: lift_cases)
  qed
qed (auto simp: lift_def app_packages_def stop_done wait_left split: prod.splits)

text \<open>The simulated world: a context that is done lets nothing through.\<close>

interpretation sim_run: run_world sim_world sim_config sim_objects sim_logs sim_cancelled "\<lambda>e. e\<lparr>sim_cancelled := True\<rparr>" "\<lambda>_. 0"
proof (rule run_world.intro [OF sim.outside_world_axioms], rule run_world_axioms.intro)
  have "preserves (\<lambda>e. sim_cancelled e \<and> 0 \<le> n) (scripted get put f)"
    if "\<And>rs e. sim_cancelled (put rs e) = sim_cancelled e" "\<And>e. sim_cancelled (f e) = sim_cancelled e" for get put f and n :: nat
    using that by (intro preservesI) (auto elim!: scripted_cases)
  then show "outside_frame sim_world (\<lambda>e. sim_cancelled e \<and> 0 \<le> n)" for n :: nat
    by unfold_locales
      (simp_all add: sim_world_def sim_driver_def sim_minio_def sim_kafka_client_def put_s3_def put_kafka_def
        preserves_def split: prod.splits)
qed (auto simp: sim_world_def sim_kafka_client_def split: if_splits)

abbreviation sim_turns :: "nat list \<Rightarrow> sim sys run \<Rightarrow> sim sys run option" where
  "sim_turns \<equiv> run_schedule (app_packages sim_world) (\<lambda>s. sim_cancelled (outside s))
     (sys_cancel (\<lambda>e. e\<lparr>sim_cancelled := True\<rparr>)) sim_worker"

lemmas turn_defs = run_turn_def goroutine_turn_def main_turn_def start_run_def eval_nat_numeral

definition sim_end :: "sim sys run" where
  "sim_end = the (sim_turns [0, 0, 0, 0, 1, 1, 1, 1, 2, 2, 2, 2, 2, 3, 3, 3, 3] (start_run sys_start))"

lemma sim_finishes:
  "sim_turns [0, 0, 0, 0, 1, 1, 1, 1, 2, 2, 2, 2, 2, 3, 3, 3, 3] (start_run sys_start) = Some sim_end" "ru_result sim_end = Some None"
proof -
  have "\<exists>r. sim_turns [0, 0, 0, 0, 1, 1, 1, 1, 2, 2, 2, 2, 2, 3, 3, 3, 3] (start_run sys_start) = Some r \<and> ru_result r = Some None"
    by (simp add: turn_defs sim_worker_sel app_worker_sel kafka_cursor_def RecoverStuck_def repo_ListStuckUploads_def
        select_stuck_def run)
  then show "sim_turns [0, 0, 0, 0, 1, 1, 1, 1, 2, 2, 2, 2, 2, 3, 3, 3, 3] (start_run sys_start) = Some sim_end"
    "ru_result sim_end = Some None"
    by (auto simp: sim_end_def)
qed

text \<open>The maintenance loop publishes the upload, the first consumer reads, handles and commits it.\<close>

definition sim_mid :: "sim sys run" where
  "sim_mid = the (sim_turns [2, 0, 0, 0] (start_run sys1))"

lemma sim_handles: "sim_turns [2, 0, 0, 0] (start_run sys1) = Some sim_mid"
proof -
  obtain t where h: "handleUpload sim_packages sim_worker run_message sys2f = (None, t)" by (rule run_handled)
  have f: "FlushOutbox (app_packages sim_world) (w_svc sim_worker) sys1 = (None, sys2)"
    using run_Flush by (simp add: sim_packages_def sim_worker_sel)
  have "\<exists>r. sim_turns [2, 0, 0, 0] (start_run sys1) = Some r"
    using h by (simp add: turn_defs f run_fetch sim_packages_def sim_worker_sel(2,4))
  then show ?thesis by (auto simp: sim_mid_def)
qed


theorem Run_keeps_promise_witness:
  "wf_db (tables (ru_state sim_mid))
    \<and> recorded (w_uuid_String sim_world) (db_used (tables (ru_state sim_mid))) (db_live (tables (ru_state sim_mid)))
        (db_events (tables (ru_state sim_mid))) (db_unpub (tables (ru_state sim_mid)))
        (upload_topic sim_logs sim_config (ru_state sim_mid)) (delete_topic sim_logs sim_config (ru_state sim_mid))"
proof (rule Run_keeps_promise [OF sim.outside_world_axioms _ _ _ run_schedule_trace [OF sim_handles], of sys_start])
  show "(svc_step (app_packages sim_world) (app_service sim_world sim_config))\<^sup>*\<^sup>* sys_start sys1"
    by (rule r_into_rtranclp, rule svc_Upload [OF run_Upload [unfolded sim_packages_def sim_service_def]])
qed (simp_all add: sys_start_def)

text \<open>
  C24. Once the context is done, because the process was told to stop or because a loop ended with an error,
  \<open>Run\<close> returns after at most \<open>4 * left + 25\<close> turns of its goroutines, however they are scheduled and whatever other processes do
  meanwhile: until it has returned some goroutine can always move (no send into \<open>errCh\<close> blocks for ever, no
  result is missing), and no sequence of moves is longer.
\<close>

theorem Run_stops:
  assumes "stopping_worker P ctx_done cancel w R left" "run_trace P ctx_done cancel w R m (start_run s) r"
    and "ctx_done (ru_state r) \<or> (\<exists>pc \<in> set (ru_pcs r). failed pc)"
    and "run_trace P ctx_done cancel w R n r r'"
  shows "n \<le> 4 * left (ru_state r) + 25
    \<and> (ru_result r' \<noteq> None \<or> (\<exists>i r''. run_turn P ctx_done cancel w i r' = Some r''))"
proof -
  have acc: "accounts r" by (rule accounts_trace [OF assms(2) accounts_start])
  then have acc': "accounts r'" using accounts_trace [OF assms(4)] by blast
  have "ctx_done (ru_state r)"
    using stopping_worker.failed_is_done [OF assms(1,2) accounts_start] assms(3) by (auto simp: start_run_def)
  from stopping_worker.run_trace_rank [OF assms(1,4) this acc] show ?thesis
    using rank_bound [OF acc, of left] never_stuck [OF acc'] by fastforce
qed


theorem Run_stops_witness:
  "\<exists>r. sim_turns [0] (start_run sys_start) = Some r
    \<and> sim_turns [0, 0, 0, 1, 1, 1, 1, 2, 2, 2, 2, 2, 3, 3, 3, 3] r = Some sim_end
    \<and> length [0 :: nat, 0, 0, 1, 1, 1, 1, 2, 2, 2, 2, 2, 3, 3, 3, 3] \<le> 4 * 0 + 25
    \<and> (ru_result sim_end \<noteq> None \<or> (\<exists>i r''. run_turn (app_packages sim_world) (\<lambda>s. sim_cancelled (outside s))
          (sys_cancel (\<lambda>e. e\<lparr>sim_cancelled := True\<rparr>)) sim_worker i sim_end = Some r''))"
proof -
  obtain r where r: "sim_turns [0] (start_run sys_start) = Some r"
    "sim_turns [0, 0, 0, 1, 1, 1, 1, 2, 2, 2, 2, 2, 3, 3, 3, 3] r = Some sim_end"
    using sim_finishes(1) by (auto simp: bind_eq_Some_conv)
  have "sim_cancelled (outside (ru_state r)) \<or> (\<exists>pc \<in> set (ru_pcs r). failed pc)" using r(1)
    by (auto simp: turn_defs sim_worker_sel(3) sys_start_def sim_start_def)
  from Run_stops [OF sim_run.run.stopping_worker_axioms run_schedule_trace [OF r(1)] this run_schedule_trace [OF r(2)]]
  show ?thesis using r by blast
qed

end
