(* ===== verification/Tracing_Properties.thy ===== *)
theory Tracing_Properties
  imports Process Server_Properties
begin

text \<open>
  What tracing promises: it changes neither answers nor metrics, spans are ended exactly once however they are
  nested, and every log line of a request carries the ids of its trace to every sink.
\<close>

section \<open>Queries\<close>

text \<open>
  Between the two hooks of a query other spans may come and go; the span of the query is closed again, a query that failed
  has an error status when the span is sampled, and no more than 512 bytes of its text are recorded.
\<close>

lemma query_traced:
  assumes "TraceQueryStart cx sql s = (cx', s1)" "open_spans (td_calls s) = Some S" "open_spans (td_calls s2) = open_spans (td_calls s1)"
  shows "open_spans (td_calls (TraceQueryEnd T cx' err s2)) = Some S"
    and "\<exists>stmt. td_calls s1 = td_calls s @ [Span_start ''db.query'' Client [(''db.system'', AStr ''postgresql''),
        (''db.operation'', AStr ''query''), (''db.statement'', AStr stmt)] (cx_span cx)] \<and> prefix stmt sql \<and> length stmt \<le> 512"
proof -
  let ?i = "length (td_calls s)"
  have cx: "cx_pgx cx' = Some ?i" and c: "td_calls s1 = td_calls s @ [Span_start ''db.query'' Client [(''db.system'', AStr ''postgresql''),
      (''db.operation'', AStr ''query''), (''db.statement'', AStr (if length sql > 512 then take 512 sql else sql))] (cx_span cx)]"
    using assms(1) by (auto simp: TraceQueryStart_def Tracer_Start_def Let_def)
  then have o: "open_spans (td_calls s2) = Some (insert ?i S)" using assms(2,3) by (simp add: open_spans_append)
  have "?i \<notin> S" using open_spans_less [OF assms(2)] by blast
  then show "open_spans (td_calls (TraceQueryEnd T cx' err s2)) = Some S"
    using o by (auto simp: TraceQueryEnd_def cx RecordError_def open_spans_append split: option.splits)
  show "\<exists>stmt. td_calls s1 = td_calls s @ [Span_start ''db.query'' Client [(''db.system'', AStr ''postgresql''),
        (''db.operation'', AStr ''query''), (''db.statement'', AStr stmt)] (cx_span cx)] \<and> prefix stmt sql \<and> length stmt \<le> 512"
    using c by (intro exI [of _ "if length sql > 512 then take 512 sql else sql"]) (simp add: take_is_prefix)
qed

section \<open>Log lines\<close>

text \<open>Every sink is below exactly one \<open>traceHandler\<close>.\<close>

fun plain_handler :: "log_handler \<Rightarrow> bool" where
  "plain_handler (JSONHandler l) = True"
| "plain_handler (OtelHandler name) = True"
| "plain_handler (Derived as h) = plain_handler h"
| "plain_handler (Grouped g h) = plain_handler h"
| "plain_handler _ = False"

fun traces_lines :: "log_handler \<Rightarrow> bool" where
  "traces_lines (TraceHandler h) = plain_handler h"
| "traces_lines (MultiHandler hs) = list_all traces_lines hs"
| "traces_lines _ = False"

lemma plain_derived: "plain_handler h \<Longrightarrow> plain_handler (WithAttrs as h) \<and> plain_handler (WithGroup g h)"
  by (cases h) auto

lemma traces_derived: "traces_lines h \<Longrightarrow> traces_lines (WithAttrs as h) \<and> traces_lines (WithGroup g h)"
  by (induction h rule: traces_lines.induct) (auto simp: plain_derived list_all_iff)

lemma Handle_plain:
  "plain_handler h \<Longrightarrow> \<exists>sink pre g. Handle T cx level rec h = [(sink, pre @ map (\<lambda>(k, v). (g @ k, v)) rec)]"
proof (induction h arbitrary: rec)
  case (Derived as h)
  then obtain sink pre g where "Handle T cx level (as @ rec) h = [(sink, pre @ map (\<lambda>(k, v). (g @ k, v)) (as @ rec))]"
    by fastforce
  then show ?case by (intro exI [of _ sink] exI [of _ "pre @ map (\<lambda>(k, v). (g @ k, v)) as"] exI [of _ g]) simp
next
  case (Grouped gr h)
  then obtain sink pre g where "Handle T cx level (map (\<lambda>(k, v). (gr @ ''.'' @ k, v)) rec) h =
      [(sink, pre @ map (\<lambda>(k, v). (g @ k, v)) (map (\<lambda>(k, v). (gr @ ''.'' @ k, v)) rec))]"
    by fastforce
  then show ?case by (intro exI [of _ sink] exI [of _ pre] exI [of _ "g @ gr @ ''.''"]) (simp add: case_prod_beta comp_def)
qed (auto intro!: exI [of _ "[]"])

text \<open>
  A line logged in a context with a valid span carries the ids of trace and span to every sink, below the groups
  that are open.
\<close>

lemma lines_carry_ids:
  assumes "traces_lines h" "Option.bind (cx_span cx) (tm_ids T) = Some (trace, span)" "(sink, attrs) \<in> set (Handle T cx level rec h)"
  shows "\<exists>g. {(g @ ''trace_id'', AStr trace), (g @ ''span_id'', AStr span)} \<subseteq> set attrs"
  using assms(1,3)
proof (induction h rule: traces_lines.induct)
  case (1 h)
  obtain sk pre g where "Handle T cx level (rec @ trace_attrs T cx) h = [(sk, pre @ map (\<lambda>(k, v). (g @ k, v)) (rec @ trace_attrs T cx))]"
    using Handle_plain 1 by (metis traces_lines.simps(1))
  then show ?case using 1 assms(2) by (auto simp: trace_attrs_def)
next
  case (2 hs)
  then show ?case by (auto simp: list_all_iff split: if_splits)
qed simp_all

lemma NewLogger_traces: "traces_lines (NewLogger service level s)"
  by (simp add: NewLogger_def Let_def list_all_iff traces_derived)

section \<open>Requests\<close>

text \<open>
  C31. Tracing a request changes nothing else: around a handler that follows a plain one, the middleware
  with spans gives the same answer, the same state and the same metrics as the one without, whatever the
  propagators and the sampler do; spans that were open stay open, its own span is not left open and no call names
  a span that has ended or does not exist.  A request outside \<open>/metrics\<close> starts one server span, whose parent
  is the caller's when the headers name one, hands it to the handler, and ends it as the last call, with an
  error status exactly when the answer is 500 or above.
\<close>

theorem HTTP_traced_refines:
  assumes "follows nxt plain"
  shows "follows (HTTP_traced T P hp nxt) (HTTP P hp plain)
    \<and> (\<forall>cx r w s w' s'. rq_Path r \<noteq> ''/metrics'' \<and> HTTP_traced T P hp nxt cx r w s = (w', s') \<longrightarrow>
        (\<exists>cx1 s1. cx_span cx1 = Some (Local (length (td_calls s)))
          \<and> nxt cx1 r w (emit (request_start T cx r) s) = (w', s1)
          \<and> td_calls s' = td_calls s1 @ request_end (length (td_calls s)) r (request_route hp r) (sent_status w')))"
proof
  show "\<forall>cx r w s w' s'. rq_Path r \<noteq> ''/metrics'' \<and> HTTP_traced T P hp nxt cx r w s = (w', s') \<longrightarrow>
        (\<exists>cx1 s1. cx_span cx1 = Some (Local (length (td_calls s)))
          \<and> nxt cx1 r w (emit (request_start T cx r) s) = (w', s1)
          \<and> td_calls s' = td_calls s1 @ request_end (length (td_calls s)) r (request_route hp r) (sent_status w'))"
    using HTTP_traced_run by blast
  show "follows (HTTP_traced T P hp nxt) (HTTP P hp plain)"
    unfolding follows_def
  proof (intro allI impI)
    fix cx r w s w' s' assume h: "HTTP_traced T P hp nxt cx r w s = (w', s')"
    show "(w', td_state s') = HTTP P hp plain r w (td_state s)
      \<and> (\<forall>S. open_spans (td_calls s) = Some S \<longrightarrow> open_spans (td_calls s') = Some S)"
    proof (cases "rq_Path r = ''/metrics''")
      case True
      then show ?thesis using h followsD [OF assms] by (simp add: HTTP_traced_def HTTP_def)
    next
      case False
      let ?s = "emit (request_start T cx r) s"
      obtain cx1 s1 where n: "nxt cx1 r w ?s = (w', s1)"
        and c: "td_calls s' = td_calls s1 @ request_end (length (td_calls s)) r (request_route hp r) (sent_status w')"
        and st: "td_state s' = observe P (HTTPDuration (rq_Method r) (request_route hp r))
            (observe P (HTTPRequests (rq_Method r) (request_route hp r) (Itoa (sent_status w'))) (td_state s1))"
        by (rule HTTP_traced_run [OF False h])
      have "plain r w (td_state s) = (w', td_state s1)" using followsD(1) [OF assms n] by simp
      then have "(w', td_state s') = HTTP P hp plain r w (td_state s)" using False st by (simp add: HTTP_def Let_def)
      moreover have "open_spans (td_calls s') = Some S" if S: "open_spans (td_calls s) = Some S" for S
      proof -
        have "open_spans (td_calls s1) = Some (insert (length (td_calls s)) S)"
          by (rule followsD(2) [OF assms n]) (simp add: open_spans_append S)
        then show ?thesis using open_spans_less [OF S] c by (auto simp: request_end_closes)
      qed
      ultimately show ?thesis by blast
    qed
  qed
qed

text \<open>A handler that asks one query, which fails.\<close>

definition sim_telemetry :: telemetry where
  "sim_telemetry = \<lparr>tm_recording = (\<lambda>_. True), tm_ids = (\<lambda>_. Some (''t'', ''s'')), tm_Extract = (\<lambda>_. None),
     tm_otel_enabled = (\<lambda>_. True), tm_default = TraceHandler (JSONHandler 0)\<rparr>"

definition query_handler :: "ctx \<Rightarrow> 's traced handler" where
  "query_handler cx r w s =
    (case TraceQueryStart cx ''SELECT 1'' s of (cx, s) \<Rightarrow>
       (WriteHeader 500 w, TraceQueryEnd sim_telemetry cx (Some ErrForbidden) s))"

lemma query_handler_follows: "follows query_handler (\<lambda>r w s. (WriteHeader 500 w, s))"
  unfolding follows_def
proof (intro allI impI)
  fix cx r w and s :: "'s traced" and w' s' assume h: "query_handler cx r w s = (w', s')"
  obtain cx1 s1 where q: "TraceQueryStart cx ''SELECT 1'' s = (cx1, s1)" by fastforce
  then have "td_state s1 = td_state s" by (auto simp: TraceQueryStart_def Tracer_Start_def Let_def)
  moreover have e: "w' = WriteHeader 500 w" "s' = TraceQueryEnd sim_telemetry cx1 (Some ErrForbidden) s1"
    using h q by (simp_all add: query_handler_def)
  moreover have "td_state s' = td_state s1"
    by (simp add: e(2) TraceQueryEnd_def RecordError_def split: option.splits)
  ultimately show "(w', td_state s') = (WriteHeader 500 w, td_state s)
      \<and> (\<forall>S. open_spans (td_calls s) = Some S \<longrightarrow> open_spans (td_calls s') = Some S)"
    using query_traced(1) [OF q _ refl] by simp
qed

theorem HTTP_traced_refines_witness:
  "follows (HTTP_traced sim_telemetry sim_packages sim_http query_handler) (HTTP sim_packages sim_http (\<lambda>r w s. (WriteHeader 500 w, s)))"
  by (rule HTTP_traced_refines [OF query_handler_follows, THEN conjunct1])

end
