(* ===== verification/Spec2Isabelle.thy ===== *)
theory Spec2Isabelle
  imports Repository_Properties Liveness End_To_End Completion Http_Properties Migrate_Properties Process_Properties Worker_Run_Properties Tracing_Properties
begin

text \<open>
  GophProfile, an avatar service in Go: users upload pictures over HTTP, the service stores the
  original in an object store (MinIO) and a row in PostgreSQL, and a worker makes thumbnails of two
  sizes.  Server and workers are separate processes that share the database, the object store and
  two Kafka topics.  Everything that has to happen after a row changed is written to an outbox table in
  the same transaction, and a maintenance loop publishes the outbox; so the program is about keeping
  rows, outbox entries, objects and messages together while any call may fail.

  \<^bold>\<open>How the program is modelled\<close>

  An operation that the Go code runs on shared state is a function from a state to a result and a
  state (\<open>('s, 'r) op\<close> in \<open>Prelude\<close>), an \<open>error\<close> is the datatype \<open>goerr\<close>, and \<open>(T, error)\<close> is the sum
  \<open>goerr + T\<close> with every early return a branch.  Go strings and byte slices are lists of bytes, \<open>int\<close>
  and \<open>int64\<close> are integers with \<open>wrap64\<close> where a sum or product can overflow, times are
  microseconds.  The state \<open>sys\<close> of the whole program has the tables of the database, everything
  outside the process (\<open>'e\<close>), and the metrics sent.  Processes run interleaved, one call of the
  service or one request at a time; the calls below may be refused or lose their reply at every point.

  \<^item> \<open>Go_Strings\<close>, \<open>Go_Json\<close>, \<open>Go_Time\<close>, \<open>Http\<close>: what the code uses of the standard library (UTF-8,
    \<open>strings\<close>, \<open>strconv\<close>, \<open>encoding/json\<close>, \<open>encoding/base64\<close>, \<open>path\<close>, \<open>time\<close>, \<open>net/http\<close>, \<open>net\<close>);
    \<open>Sha256\<close>: \<open>crypto/sha256\<close>, whose constants are computed from the roots of primes.
  \<^item> \<open>Domain\<close>: \<open>internal/domain\<close>, with errors, avatars, object keys, events, validators.
  \<^item> \<open>Image_Util\<close>: \<open>internal/imageutil\<close>; the codecs are parameters.
  \<^item> \<open>Observability\<close>: \<open>internal/observability/metrics.go\<close> and \<open>kafka.go\<close>: metrics as a trace, the
    case-insensitive header carrier.  \<open>Tracing\<close>: the spans and log lines of \<open>otel.go\<close>, \<open>pgx.go\<close>, \<open>http.go\<close>
    and \<open>log.go\<close> as calls to the tracing library, a span being the position of its start.
  \<^item> \<open>Interfaces\<close>: \<open>internal/services/deps.go\<close>: the store, the object store and the publisher that
    the service is written against, as records of operations, and their contracts as the locales
    \<open>avatar_store\<close>, \<open>object_store\<close> and \<open>event_publisher\<close>.
  \<^item> \<open>Avatar_Service\<close>: every method of \<open>internal/services/avatar.go\<close>.
  \<^item> \<open>Repository\<close>: \<open>internal/repository/postgres.go\<close> with the tables of \<open>migrations/*.sql\<close>; one
    function per SQL statement, \<open>call\<close> for a round trip and \<open>withTx\<close> for a transaction.
  \<^item> \<open>Object_Storage\<close>, \<open>Broker\<close>: \<open>internal/storage/s3.go\<close> and \<open>internal/broker/kafka.go\<close> over the
    operations of the client libraries.
  \<^item> \<open>Worker\<close>: \<open>internal/worker/worker.go\<close>; \<open>consume\<close> runs until its context is done and may not
    end, so it is a \<open>partial_function (option)\<close>; \<open>maintenance_loop\<close> likewise.  \<open>Worker_Run\<close>: \<open>Run\<close> with
    its three goroutines, moved by \<open>turn\<close> one call at a time, the cancellation of the shared context,
    the buffered channel of results and the loop that receives them; \<open>run_trace\<close> interleaves them with
    each other and with what other processes do to the shared state.
  \<^item> \<open>Config\<close>: \<open>internal/config/config.go\<close>; \<open>App\<close>: the service as \<open>internal/app/deps.go\<close> builds it.
  \<^item> \<open>Middleware\<close>, \<open>Handlers\<close>, \<open>Router\<close>: \<open>internal/middleware\<close>, \<open>internal/handlers\<close> and
    \<open>internal/api/router.go\<close>; \<open>Server\<close>: the handler of \<open>cmd/server/main.go\<close> and the steps of the
    system, \<open>program_step\<close>: a request to a server or a call of the service by a worker.

  \<^item> \<open>Migrate\<close>: \<open>internal/migrate/migrate.go\<close>, which every process runs as it starts, query by query:
    a \<open>task\<close> asks queries of the database, and a step delivers one, refuses it, breaks the session or
    kills the process.
  \<^item> \<open>Process\<close>: \<open>observability.Setup\<close>, the logger and the pool collectors, \<open>app.New\<close> and \<open>Close\<close>
    (\<open>internal/app/deps.go\<close>) and both \<open>main\<close> functions (\<open>cmd/server\<close>, \<open>cmd/worker\<close>), with a trace of what
    is opened, used and closed.

  \<^bold>\<open>What is shown\<close>

  \<open>Service_Laws\<close> proves, once and over the contracts alone (locale \<open>avatar_backend\<close>), what each method
  of the service does on success and on every error; \<open>Service_Invariant\<close> that every call keeps the
  promise of the outbox.  \<open>Repository_Laws\<close>, \<open>Repository_Contract\<close>, \<open>Object_Storage\<close> and \<open>Broker\<close> show
  that the program's own code keeps the contracts (the sublocales of \<open>postgres\<close>, \<open>minio_bucket\<close> and
  \<open>kafka_topics\<close>), so that everything holds for the assembled program (\<open>outside_world\<close> in \<open>App\<close>).

  \<^item> \<open>Server_Properties\<close>: the promise of the outbox for every interleaving of requests and worker
    calls; GET requests change nothing; DELETE requests only take avatars of the user in the header.
  \<^item> \<open>Service_Properties\<close>: uploads are all or nothing and store what they say, deletions are the
    owner's, a flush publishes at least once, handling an event again is harmless, images are served
    as stored.  \<open>Liveness\<close>: in a calm world the outbox drains.
  \<^item> \<open>End_To_End\<close>: from the upload through outbox, topic and worker to the stored thumbnails,
    whenever the calls succeed.  \<open>Completion\<close>: they do succeed once the outside answers (locale
    \<open>calm_program\<close>): an accepted picture is completed, if nobody deletes or takes the avatar meanwhile and
    the codecs can make its thumbnails.
  \<^item> \<open>Repository_Properties\<close>: the tables stay well formed, transactions are atomic, marking is a
    lease that runs out, stuck avatars can be taken, listings are complete and agree with the latest
    avatar, the outbox is a queue.
  \<^item> \<open>Worker_Properties\<close>: what the retry loop does call by call, poison messages are dropped, a consumer loop
    keeps the promise and ends when there are no more messages.
  \<^item> \<open>Worker_Run_Laws\<close>, \<open>Worker_Run_Properties\<close>: the goroutines are the loops of \<open>Worker\<close>; \<open>Run\<close> as a whole
    keeps the promise of the outbox, commits only what was handled, returns the error that was sent first after all
    loops have ended, and stops within a bound once its context is done (locales \<open>run_frame\<close>, \<open>stopping_worker\<close>
    and, for the assembled program, \<open>run_world\<close>).  \<open>Service_Frame\<close>: what no call outside falsifies, no
    method of the service does (locales \<open>service_frame\<close>, \<open>outside_frame\<close>).
  \<^item> \<open>Tracing_Properties\<close>: tracing changes no answer, state or metric, spans are ended exactly once, and
    log lines carry the ids of their trace.
  \<^item> \<open>Http_Properties\<close>: what clients are told about uploads and errors, the health check for every
    order of its pings, the address a client is counted by.
  \<^item> \<open>Migrate_Properties\<close>: whatever the interleaving and the crashes, the migrations are applied once
    each and in order (locale \<open>migration_set\<close>, interpreted on the files of the repository).
  \<^item> \<open>Process_Properties\<close>: whatever fails, nothing is closed before its users, a process that
    returns has closed everything, and one that fails to start has closed the database, except for a
    server whose embedded web files cannot be opened.
  \<^item> with their definitions: round trips of events, JSON, numbers and header ids, the injectivity of
    object keys, the exactness of the pixel limit against overflow, the configuration.

  \<^bold>\<open>The outside world\<close>

  The database driver decides for each call between a delivered reply, a refusal and a lost reply
  (\<open>reply\<close>); statements themselves are functions on the tables.  The locale \<open>outside_world\<close> asks that
  a successful write of an object or message took place and a failed one did or did not, that a
  successful read returns what is stored, that clock, contexts and UUIDs do not touch stored data and
  that UUIDs print as 36 characters without a slash and parse back; fresh UUIDs are not assumed, the
  primary key enforces them.  \<open>calm_world\<close> adds states in which database and broker answer, \<open>calm_program\<close> that the
  object store answers in them too; \<open>http_library\<close> asks of
  chi, cors and httprate that they only run handlers that were entered for the method of the request
  and otherwise leave stored data alone.  \<open>Simulation\<close>, \<open>Sim_Runs\<close> and \<open>Server_Properties\<close> interpret
  all of them by functions (scripted replies, maps, a router by segments), in which the examples run.

  \<^bold>\<open>Bounds and loops\<close>

  Every loop over a list is structural.  \<open>withRetry\<close> makes five attempts and \<open>publishWithRetry\<close> three, by
  recursion on the attempts that remain; \<open>consume\<close> and \<open>maintenance_loop\<close> are partial, \<open>consume_returns\<close>
  shows when a consumer returns and \<open>Run_stops\<close> bounds the turns of the whole worker after its context is done:
  Go's \<open>select\<close> may still take a message or a tick that is ready, at most \<open>left\<close> times by assumption.
  There is no fuel.

  \<^bold>\<open>Not modelled\<close>

  The spans and information lines that services, clients and the worker open around their operations, all
  of the form start, work, record the error, end (\<open>Tracing\<close> models these calls themselves and the middleware
  of requests); exporters and sinks; panics and the deadlines of contexts, other than as errors of the calls they
  end; the effect of the options of the Kafka reader and writer, which are recorded only; the serving between
  start and signal and, in \<open>worker_main\<close>, the run of the worker, each one call in \<open>Process\<close>; the parsing of
  multipart bodies and the matching of routes, which belong to the libraries; the pages and scripts of \<open>web/\<close>.
  A call of the service is one step: the interleaving of processes inside a call is modelled only where the
  database decides it (statements and transactions are atomic, \<open>mark_is_a_lease\<close>).
\<close>

end
